(* ===== verification/Go_Prelude.thy ===== *)
theory Go_Prelude
  imports
    Main
    "HOL-Library.AList"
    "HOL-Library.Finite_Map"
    "HOL-Library.Sublist"
begin

text \<open>
  What the Go sources use of the language and of its standard library, and the lemmas on lists,
  association lists and finite maps that every component shares.

  \<^item> \<open>int64\<close>: Go's signed 64-bit integers are \<open>int\<close> with the two's complement wrap-around
    written out (\<open>wrap64\<close>); \<open>add64\<close> is \<open>atomic.Int64.Add\<close>.
  \<^item> \<open>FormatInt\<close> and \<open>ParseInt\<close>: \<open>strconv\<close> in base 10, with the value that Go returns beside
    each error (0 on a syntax error, the nearest bound on a range error), because callers that
    drop the error use that value.
  \<^item> \<open>TrimListSuffix\<close>: the slice expressions that turn a list kind into its element kind.
  \<^item> a Go map that the code ranges over is an association list: the order of the list is the
    iteration order of that run, and no result below depends on it.
\<close>

named_theorems go_simps \<open>unfolding of the language and library helpers\<close>
named_theorems store_defs \<open>definitions of store operations\<close>
named_theorems inv_intros \<open>preservation of the components' invariants\<close>

section \<open>64-bit integers\<close>

definition wrap64 :: "int \<Rightarrow> int" where
  "wrap64 k = signed_take_bit 63 k"

definition add64 :: "int \<Rightarrow> int \<Rightarrow> int" where
  "add64 a b = wrap64 (a + b)"

definition MaxInt64 :: int where
  "MaxInt64 = 9223372036854775807"

definition MinInt64 :: int where
  "MinInt64 = - 9223372036854775808"

definition is_int64 :: "int \<Rightarrow> bool" where
  "is_int64 k \<longleftrightarrow> MinInt64 \<le> k \<and> k \<le> MaxInt64"

lemma wrap64_id [simp]: "is_int64 k \<Longrightarrow> wrap64 k = k"
  by (simp add: wrap64_def is_int64_def MaxInt64_def MinInt64_def signed_take_bit_int_eq_self)

lemma wrap64_range: "is_int64 (wrap64 k)"
proof -
  have "- (2 ^ 63) \<le> signed_take_bit 63 k" and "signed_take_bit 63 k < (2 :: int) ^ 63"
    by (simp_all only: signed_take_bit_int_greater_eq_minus_exp signed_take_bit_int_less_exp)
  then show ?thesis
    by (simp add: wrap64_def is_int64_def MaxInt64_def MinInt64_def)
qed

lemma add64_range [simp]: "is_int64 (add64 a b)"
  by (simp add: add64_def wrap64_range)

lemma add64_exact: "is_int64 (a + b) \<Longrightarrow> add64 a b = a + b"
  by (simp add: add64_def)

lemma add64_Suc: "0 \<le> a \<Longrightarrow> a < MaxInt64 \<Longrightarrow> add64 a 1 = a + 1"
  by (rule add64_exact) (simp add: is_int64_def MinInt64_def)

section \<open>strconv: base 10\<close>

definition digit_char :: "nat \<Rightarrow> char" where
  "digit_char d = ''0123456789'' ! d"

definition digit_val :: "char \<Rightarrow> nat option" where
  "digit_val c = map_of (zip ''0123456789'' [0..<10]) c"

fun digits :: "nat \<Rightarrow> string" where
  "digits n = (if n < 10 then [digit_char n] else digits (n div 10) @ [digit_char (n mod 10)])"

declare digits.simps [simp del]

definition FormatInt :: "int \<Rightarrow> string" where
  "FormatInt k = (if k < 0 then CHR ''-'' # digits (nat (- k)) else digits (nat k))"

datatype NumError = ErrSyntax | ErrRange

fun parse_digits :: "string \<Rightarrow> nat \<Rightarrow> nat option" where
  "parse_digits [] acc = Some acc"
| "parse_digits (c # cs) acc =
     (case digit_val c of None \<Rightarrow> None | Some d \<Rightarrow> parse_digits cs (10 * acc + d))"

text \<open>\<open>ParseInt s\<close> is \<open>strconv.ParseInt(s, 10, 64)\<close>: the value and the error.\<close>

definition ParseUint :: "string \<Rightarrow> nat option" where
  "ParseUint s = (if s = [] then None else parse_digits s 0)"

definition ParseInt :: "string \<Rightarrow> int \<times> NumError option" where
  "ParseInt s =
     (let neg = (s \<noteq> [] \<and> hd s = CHR ''-'');
          body = (if s \<noteq> [] \<and> (hd s = CHR ''-'' \<or> hd s = CHR ''+'') then tl s else s)
      in case ParseUint body of
           None \<Rightarrow> (0, Some ErrSyntax)
         | Some u \<Rightarrow>
             if \<not> neg \<and> int u > MaxInt64 then (MaxInt64, Some ErrRange)
             else if neg \<and> - int u < MinInt64 then (MinInt64, Some ErrRange)
             else ((if neg then - int u else int u), None))"

lemma less_10_cases:
  "n < (10::nat) \<Longrightarrow> n = 0 \<or> n = 1 \<or> n = 2 \<or> n = 3 \<or> n = 4 \<or> n = 5 \<or> n = 6 \<or> n = 7 \<or> n = 8 \<or> n = 9"
  by arith

lemma digit_val_char [simp]: "n < 10 \<Longrightarrow> digit_val (digit_char n) = Some n"
  by (drule less_10_cases) (elim disjE; simp add: digit_val_def digit_char_def upt_rec)

lemma digit_char_not_sign: "n < 10 \<Longrightarrow> digit_char n \<noteq> CHR ''-'' \<and> digit_char n \<noteq> CHR ''+''"
  by (drule less_10_cases) (elim disjE; simp add: digit_char_def)

lemma digits_not_Nil [simp]: "digits n \<noteq> []"
  by (subst digits.simps) simp

lemma hd_digits_not_sign: "hd (digits n) \<noteq> CHR ''-'' \<and> hd (digits n) \<noteq> CHR ''+''"
proof (induction n rule: digits.induct)
  case (1 n)
  then show ?case
    by (cases "n < 10") (simp_all add: digits.simps [of n] digit_char_not_sign)
qed

lemma parse_digits_append:
  "parse_digits (xs @ ys) a = Option.bind (parse_digits xs a) (parse_digits ys)"
  by (induction xs arbitrary: a) (simp_all split: option.split)

lemma parse_digits_digits: "parse_digits (digits n) 0 = Some n"
proof (induction n rule: digits.induct)
  case (1 n)
  then show ?case
    by (cases "n < 10") (simp_all add: digits.simps [of n] parse_digits_append)
qed

lemma ParseInt_FormatInt [simp]:
  assumes "is_int64 k"
  shows "ParseInt (FormatInt k) = (k, None)"
proof (cases "k < 0")
  case True
  with assms show ?thesis
    by (simp add: ParseInt_def FormatInt_def ParseUint_def parse_digits_digits is_int64_def
        MinInt64_def MaxInt64_def)
next
  case False
  with assms hd_digits_not_sign [of "nat k"] show ?thesis
    by (simp add: ParseInt_def FormatInt_def ParseUint_def parse_digits_digits is_int64_def
        MinInt64_def MaxInt64_def)
qed

lemma FormatInt_inject:
  "is_int64 a \<Longrightarrow> is_int64 b \<Longrightarrow> FormatInt a = FormatInt b \<Longrightarrow> a = b"
  by (metis ParseInt_FormatInt prod.inject)

lemma FormatInt_not_Nil [simp]: "FormatInt k \<noteq> []" "[] \<noteq> FormatInt k"
  by (simp_all add: FormatInt_def not_sym [OF digits_not_Nil])

lemma digits_chars: "set (digits n) \<subseteq> set ''0123456789''"
proof (induction n rule: digits.induct)
  case (1 n)
  have d: "digit_char k \<in> set ''0123456789''" if "k < 10" for k
    using less_10_cases [OF that] by (auto simp: digit_char_def)
  show ?case
  proof (cases "n < 10")
    case True
    then show ?thesis using d by (subst digits.simps) simp
  next
    case False
    then show ?thesis using 1 d [of "n mod 10"] by (subst digits.simps) simp
  qed
qed

lemma FormatInt_chars: "set (FormatInt k) \<subseteq> insert (CHR ''-'') (set ''0123456789'')"
proof -
  define D where "D = set ''0123456789''"
  have "set (digits n) \<subseteq> D" for n using digits_chars by (simp only: D_def)
  then have "set (FormatInt k) \<subseteq> insert (CHR ''-'') D" by (auto simp: FormatInt_def)
  then show ?thesis by (simp only: D_def)
qed

section \<open>Kinds and their lists\<close>

text \<open>
  \<open>len(kind) > 4 && kind[len(kind)-4:] == "List"\<close>: the kind ends in "List" and is not only that.
\<close>

definition HasListSuffix :: "string \<Rightarrow> bool" where
  "HasListSuffix k \<longleftrightarrow> length k > 4 \<and> drop (length k - 4) k = ''List''"

definition TrimListSuffix :: "string \<Rightarrow> string" where
  "TrimListSuffix k = (if HasListSuffix k then take (length k - 4) k else k)"

lemma HasListSuffix_append [simp]: "HasListSuffix (k @ ''List'') \<longleftrightarrow> k \<noteq> []"
  by (simp add: HasListSuffix_def)

lemma TrimListSuffix_append: "k \<noteq> [] \<Longrightarrow> TrimListSuffix (k @ ''List'') = k"
  by (simp add: TrimListSuffix_def)

section \<open>Go maps as association lists\<close>

type_synonym ('k, 'v) gomap = "('k \<times> 'v) list"

abbreviation keys_of :: "('k, 'v) gomap \<Rightarrow> 'k set" where
  "keys_of m \<equiv> fst ` set m"

lemma map_of_update [simp]: "map_of (AList.update k v m) = (map_of m)(k \<mapsto> v)"
  by (rule update_conv')

lemma map_of_delete [simp]: "map_of (AList.delete k m) = (map_of m)(k := None)"
  by (rule delete_conv')

lemma distinct_keys_update [simp]:
  "distinct (map fst m) \<Longrightarrow> distinct (map fst (AList.update k v m))"
  by (rule distinct_update)

lemma distinct_keys_delete [simp]:
  "distinct (map fst m) \<Longrightarrow> distinct (map fst (AList.delete k m))"
  by (rule distinct_delete)

lemma update_fresh: "map_of m k = None \<Longrightarrow> AList.update k v m = m @ [(k, v)]"
  by (induction m) (auto split: if_splits)

lemma map_of_in_set: "map_of m k = Some v \<Longrightarrow> (k, v) \<in> set m"
  by (rule map_of_SomeD)

lemma set_map_of: "distinct (map fst m) \<Longrightarrow> (k, v) \<in> set m \<longleftrightarrow> map_of m k = Some v"
  by (metis map_of_eq_Some_iff)

lemma map_of_fresh: "k \<notin> keys_of m \<Longrightarrow> map_of m k = None"
  by (simp add: map_of_eq_None_iff)

lemma map_add_cons:
  "k \<notin> keys_of objs \<Longrightarrow> m(k \<mapsto> v) ++ map_of objs = m ++ map_of ((k, v) # objs)"
  by (simp add: map_add_upd_left dom_map_of_conv_image_fst)

section \<open>Suffixes of logs\<close>

lemma upto_append: "i \<le> j + 1 \<Longrightarrow> j \<le> k \<Longrightarrow> [i..j] @ [j + 1..k] = [i..k]" for i j k :: int
proof (cases "i \<le> j")
  case True
  then show "i \<le> j + 1 \<Longrightarrow> j \<le> k \<Longrightarrow> [i..j] @ [j + 1..k] = [i..k]"
    by (simp add: upto_split2 [of i j k])
next
  case False
  assume "i \<le> j + 1"
  with False have "i = j + 1" by simp
  then show "[i..j] @ [j + 1..k] = [i..k]" by simp
qed

definition last_n :: "nat \<Rightarrow> 'a list \<Rightarrow> 'a list" where
  "last_n n xs = drop (length xs - n) xs"

lemma length_last_n [simp]: "length (last_n n xs) = min n (length xs)"
  by (simp add: last_n_def min_def)

lemma last_n_all: "length xs \<le> n \<Longrightarrow> last_n n xs = xs"
  by (simp add: last_n_def)

lemma last_n_snoc: "last_n n (last_n n xs @ [x]) = last_n n (xs @ [x])"
  by (cases "length xs < n") (simp_all add: last_n_def Suc_diff_le)

lemma last_n_append: "length ys \<le> n \<Longrightarrow> last_n n (xs @ ys) = last_n (n - length ys) xs @ ys"
  by (simp add: last_n_def)

lemma suffix_last_n: "suffix (last_n n xs) xs"
  by (simp add: last_n_def suffix_drop)

end
