(* ===== verification/Store_API.thy ===== *)
theory Store_API
  imports Go_Prelude
begin

text \<open>
  The types that every component of storectrl shares: objects and lists
  (\<open>object.go\<close>), errors (\<open>errors.go\<close>), events and watchers (\<open>watcher.go\<close>), the store interface
  with its list options (\<open>store.go\<close>), and the part of \<open>encoding/json\<close> that the
  stores rely on.

  A Go object is identified with what \<open>json.Marshal\<close> makes visible of it. \<open>ObjectMeta\<close> keeps the
  fields that the sources read or write. \<open>Body\<close> holds the other top-level JSON fields
  (\<open>spec\<close>, \<open>status\<close>, \<dots>), each with its JSON value and only where the encoder emits it.
  \<open>DeepCopyObject\<close> is then the identity. \<open>json.Unmarshal\<close> decodes into an existing value: a field
  that is absent from the document keeps its old value and a Go map keeps its old entries
  (\<open>meta_into\<close>, \<open>unmarshalInto\<close>). How a user-defined type decodes one of its own fields is a
  parameter (\<open>sch_unmarshal\<close>), as are the other facts the scheme knows about registered types.
  The object after a failed decode is left as it was.
\<close>

section \<open>JSON values and raw messages\<close>

datatype json =
    JNull
  | JBool bool
  | JNum int
  | JStr string
  | JArr "json list"
  | JObj "(string \<times> json) list"

text \<open>
  A \<open>json.RawMessage\<close> is the text of a value. Its bytes depend on the value and on the layout of
  the document it was cut from: \<open>json.Marshal\<close> writes compact text, \<open>json.MarshalIndent\<close> breaks
  every non-empty object and array over several lines.
\<close>

datatype layout = Compact | Indented

type_synonym RawMessage = "layout \<times> json"

fun one_line :: "json \<Rightarrow> bool" where
  "one_line (JArr xs) = (xs = [])"
| "one_line (JObj fs) = (fs = [])"
| "one_line _ = True"

fun raw_bytes_eq :: "RawMessage \<Rightarrow> RawMessage \<Rightarrow> bool" where
  "raw_bytes_eq (l1, j1) (l2, j2) = (j1 = j2 \<and> (l1 = l2 \<or> one_line j1))"

text \<open>\<open>bytes.Equal\<close> on two map entries; a missing entry is the empty slice.\<close>

fun bytes_Equal :: "RawMessage option \<Rightarrow> RawMessage option \<Rightarrow> bool" where
  "bytes_Equal None None = True"
| "bytes_Equal (Some a) (Some b) = raw_bytes_eq a b"
| "bytes_Equal _ _ = False"

section \<open>Objects, lists and their keys\<close>

record GroupVersionKind =
  Group :: string
  Version :: string
  Kind :: string

record ObjectKey =
  key_Namespace :: string
  key_Name :: string

definition ObjectKey_String :: "ObjectKey \<Rightarrow> string" where
  "ObjectKey_String k = key_Namespace k @ ''/'' @ key_Name k"

record ObjectMeta =
  Name :: string
  Namespace :: string
  UID :: string
  ResourceVersion :: string
  Generation :: int
  Labels :: "(string, string) fmap"
  Annotations :: "(string, string) fmap"
  ManagedFields :: "json list"

record object =
  GoType :: string
  ApiVersion :: string
  TypeKind :: string
  Meta :: ObjectMeta
  Body :: "(string, json) fmap"

record object_list =
  ListType :: string
  ListApiVersion :: string
  ListKind :: string
  ListResourceVersion :: string
  Items :: "object list"

definition ObjectKeyFromObject :: "object \<Rightarrow> ObjectKey" where
  "ObjectKeyFromObject o1 = \<lparr>key_Namespace = Namespace (Meta o1), key_Name = Name (Meta o1)\<rparr>"

abbreviation GetResourceVersion :: "object \<Rightarrow> string" where
  "GetResourceVersion o1 \<equiv> ResourceVersion (Meta o1)"

abbreviation GetUID :: "object \<Rightarrow> string" where
  "GetUID o1 \<equiv> UID (Meta o1)"

abbreviation GetGeneration :: "object \<Rightarrow> int" where
  "GetGeneration o1 \<equiv> Generation (Meta o1)"

abbreviation GetLabels :: "object \<Rightarrow> (string, string) fmap" where
  "GetLabels o1 \<equiv> Labels (Meta o1)"

abbreviation GetSpec :: "object \<Rightarrow> json option" where
  "GetSpec o1 \<equiv> fmlookup (Body o1) ''spec''"

abbreviation GetStatus :: "object \<Rightarrow> json option" where
  "GetStatus o1 \<equiv> fmlookup (Body o1) ''status''"

definition SetResourceVersion :: "string \<Rightarrow> object \<Rightarrow> object" where
  "SetResourceVersion rv o1 = o1\<lparr>Meta := (Meta o1)\<lparr>ResourceVersion := rv\<rparr>\<rparr>"

definition SetUID :: "string \<Rightarrow> object \<Rightarrow> object" where
  "SetUID u o1 = o1\<lparr>Meta := (Meta o1)\<lparr>UID := u\<rparr>\<rparr>"

definition SetGeneration :: "int \<Rightarrow> object \<Rightarrow> object" where
  "SetGeneration g o1 = o1\<lparr>Meta := (Meta o1)\<lparr>Generation := g\<rparr>\<rparr>"

definition SetAnnotations :: "(string, string) fmap \<Rightarrow> object \<Rightarrow> object" where
  "SetAnnotations a o1 = o1\<lparr>Meta := (Meta o1)\<lparr>Annotations := a\<rparr>\<rparr>"

lemmas setter_defs [go_simps] =
  SetResourceVersion_def SetUID_def SetGeneration_def SetAnnotations_def

lemma set_get [simp]:
  "GetResourceVersion (SetResourceVersion v o1) = v"
  "GetUID (SetResourceVersion v o1) = GetUID o1"
  "GetGeneration (SetResourceVersion v o1) = GetGeneration o1"
  "GetLabels (SetResourceVersion v o1) = GetLabels o1"
  "Body (SetResourceVersion v o1) = Body o1"
  "GoType (SetResourceVersion v o1) = GoType o1"
  "GetResourceVersion (SetUID u o1) = GetResourceVersion o1"
  "GetUID (SetUID u o1) = u"
  "GetGeneration (SetUID u o1) = GetGeneration o1"
  "GetLabels (SetUID u o1) = GetLabels o1"
  "Body (SetUID u o1) = Body o1"
  "GoType (SetUID u o1) = GoType o1"
  "GetResourceVersion (SetGeneration g o1) = GetResourceVersion o1"
  "GetUID (SetGeneration g o1) = GetUID o1"
  "GetGeneration (SetGeneration g o1) = g"
  "GetLabels (SetGeneration g o1) = GetLabels o1"
  "Body (SetGeneration g o1) = Body o1"
  "GoType (SetGeneration g o1) = GoType o1"
  by (simp_all add: setter_defs)

lemma ObjectKeyFromObject_set [simp]:
  "ObjectKeyFromObject (SetResourceVersion v o1) = ObjectKeyFromObject o1"
  "ObjectKeyFromObject (SetUID u o1) = ObjectKeyFromObject o1"
  "ObjectKeyFromObject (SetGeneration g o1) = ObjectKeyFromObject o1"
  by (simp_all add: setter_defs ObjectKeyFromObject_def)

text \<open>\<open>BaseObject.DeepCopyInto\<close> and \<open>BaseList.DeepCopyInto\<close> of \<open>object.go\<close>.\<close>

definition BaseObject_DeepCopyInto :: "object \<Rightarrow> object \<Rightarrow> object" where
  "BaseObject_DeepCopyInto b out =
     out\<lparr>ApiVersion := ApiVersion b, TypeKind := TypeKind b, Meta := Meta b\<rparr>"

definition BaseList_DeepCopyInto :: "object_list \<Rightarrow> object_list \<Rightarrow> object_list" where
  "BaseList_DeepCopyInto b out =
     out\<lparr>ListApiVersion := ListApiVersion b, ListKind := ListKind b,
         ListResourceVersion := ListResourceVersion b\<rparr>"

section \<open>Errors\<close>

datatype error =
    NotFoundError string
  | AlreadyExistsError string
  | ConflictError string
  | RevisionTooOldError int int
  | FencedError int
  | Error string
  | Panic string

datatype StatusReason = ReasonNotFound | ReasonAlreadyExists | ReasonConflict | ReasonGone

record APIStatus =
  StatusText :: string
  Reason :: StatusReason
  Message :: string
  Code :: nat

fun error_Error :: "error \<Rightarrow> string" where
  "error_Error (NotFoundError k) = ''object not found: '' @ k"
| "error_Error (AlreadyExistsError k) = ''object already exists: '' @ k"
| "error_Error (ConflictError k) = ''conflict: object was modified: '' @ k"
| "error_Error (RevisionTooOldError req old) =
     ''requested revision '' @ FormatInt req @ '' is too old, oldest available is '' @ FormatInt old"
| "error_Error (FencedError b) = ''bucket '' @ FormatInt b @ '': lease not held or fenced''"
| "error_Error (Error m) = m"
| "error_Error (Panic m) = m"

text \<open>Only the typed errors implement \<open>Status()\<close>; a plain \<open>fmt.Errorf\<close> error has none.\<close>

fun error_Status :: "error \<Rightarrow> APIStatus option" where
  "error_Status (NotFoundError k) =
     Some \<lparr>StatusText = ''Failure'', Reason = ReasonNotFound,
           Message = error_Error (NotFoundError k), Code = 404\<rparr>"
| "error_Status (AlreadyExistsError k) =
     Some \<lparr>StatusText = ''Failure'', Reason = ReasonAlreadyExists,
           Message = error_Error (AlreadyExistsError k), Code = 409\<rparr>"
| "error_Status (ConflictError k) =
     Some \<lparr>StatusText = ''Failure'', Reason = ReasonConflict,
           Message = error_Error (ConflictError k), Code = 409\<rparr>"
| "error_Status (RevisionTooOldError req old) =
     Some \<lparr>StatusText = ''Failure'', Reason = ReasonGone,
           Message = error_Error (RevisionTooOldError req old), Code = 410\<rparr>"
| "error_Status (FencedError b) =
     Some \<lparr>StatusText = ''Failure'', Reason = ReasonConflict,
           Message = error_Error (FencedError b), Code = 409\<rparr>"
| "error_Status _ = None"

section \<open>Events\<close>

datatype EventType = EventAdded | EventModified | EventDeleted | EventBookmark

record Event =
  ev_Type :: EventType
  ev_Object :: object

section \<open>Selectors and list options\<close>

text \<open>
  Selectors come from \<open>k8s.io/apimachinery\<close>: the code only asks a selector whether it matches,
  whether it is empty, and for its requirements.
\<close>

record label_selector =
  sel_Matches :: "(string, string) fmap \<Rightarrow> bool"
  sel_Empty :: bool

datatype Operator = Op_Equals | Op_DoubleEquals | Op_NotEquals

record Requirement =
  req_Operator :: Operator
  req_Field :: string
  req_Value :: string

record field_selector =
  fsel_Matches :: "(string, string) fmap \<Rightarrow> bool"
  fsel_Requirements :: "Requirement list"

datatype ListOption =
    InNamespace string
  | MatchingLabelsSelector label_selector
  | MatchingFieldsSelector field_selector
  | WatchFromRevision int
  | EnableWatchBookmarks bool

record ListOptions =
  lo_Namespace :: string
  lo_LabelSelector :: "label_selector option"
  lo_FieldSelector :: "field_selector option"

definition emptyListOptions :: ListOptions where
  "emptyListOptions = \<lparr>lo_Namespace = [], lo_LabelSelector = None, lo_FieldSelector = None\<rparr>"

fun ApplyToList :: "ListOption \<Rightarrow> ListOptions \<Rightarrow> ListOptions" where
  "ApplyToList (InNamespace ns) lo = lo\<lparr>lo_Namespace := ns\<rparr>"
| "ApplyToList (MatchingLabelsSelector sel) lo = lo\<lparr>lo_LabelSelector := Some sel\<rparr>"
| "ApplyToList (MatchingFieldsSelector sel) lo = lo\<lparr>lo_FieldSelector := Some sel\<rparr>"
| "ApplyToList (WatchFromRevision _) lo = lo"
| "ApplyToList (EnableWatchBookmarks _) lo = lo"

definition applyListOptions :: "ListOption list \<Rightarrow> ListOptions" where
  "applyListOptions opts = fold ApplyToList opts emptyListOptions"

text \<open>The loop of \<open>Watch\<close> over its options: the last \<open>WatchFromRevision\<close> wins.\<close>

fun watchFrom :: "ListOption list \<Rightarrow> int option \<Rightarrow> int option" where
  "watchFrom [] acc = acc"
| "watchFrom (WatchFromRevision rv # opts) acc = watchFrom opts (Some rv)"
| "watchFrom (_ # opts) acc = watchFrom opts acc"

section \<open>The scheme\<close>

text \<open>What a list type looks like to reflection.\<close>

datatype items_field =
    NoItemsField
  | UnsettableItems
  | ItemsOf string
  | ItemsOfPtr string

datatype runtime_object = RObject object | RList object_list | ROther string

text \<open>
  \<open>runtime.Scheme\<close> and the JSON behaviour of the Go types registered in it:
  \<open>sch_ObjectKinds ty\<close> is \<open>ObjectKinds\<close> of a value of Go type \<open>ty\<close>; \<open>sch_New\<close> allocates;
  \<open>sch_unmarshal ty k j old\<close> is the JSON view of field \<open>k\<close> of type \<open>ty\<close> after decoding \<open>j\<close> into a
  field whose view was \<open>old\<close>; \<open>sch_unmarshalErr\<close> says whether a document fails to decode.
\<close>

record scheme =
  sch_ObjectKinds :: "string \<Rightarrow> error + GroupVersionKind list"
  sch_New :: "GroupVersionKind \<Rightarrow> error + runtime_object"
  sch_itemsField :: "string \<Rightarrow> items_field"
  sch_unmarshal :: "string \<Rightarrow> string \<Rightarrow> json \<Rightarrow> json option \<Rightarrow> json"
  sch_unmarshalErr :: "string \<Rightarrow> (string, RawMessage) fmap \<Rightarrow> error option"

section \<open>Marshalling\<close>

text \<open>The document of an object, split at its top-level keys.\<close>

record rawmap =
  rm_ApiVersion :: string
  rm_Kind :: string
  rm_Meta :: ObjectMeta
  rm_Body :: "(string, RawMessage) fmap"

definition marshal :: "layout \<Rightarrow> object \<Rightarrow> rawmap" where
  "marshal l o1 =
     \<lparr>rm_ApiVersion = ApiVersion o1, rm_Kind = TypeKind o1, rm_Meta = Meta o1,
      rm_Body = fmmap (Pair l) (Body o1)\<rparr>"

definition keep :: "'a \<Rightarrow> 'a \<Rightarrow> 'a \<Rightarrow> 'a" where
  "keep zero new old = (if new = zero then old else new)"

text \<open>
  All fields of \<open>ObjectMeta\<close> are \<open>omitempty\<close>: a zero field is absent from the document and leaves
  the target alone; labels and annotations are Go maps and keep the target's other entries.
\<close>

definition meta_into :: "ObjectMeta \<Rightarrow> ObjectMeta \<Rightarrow> ObjectMeta" where
  "meta_into new old =
     \<lparr>Name = keep [] (Name new) (Name old),
      Namespace = keep [] (Namespace new) (Namespace old),
      UID = keep [] (UID new) (UID old),
      ResourceVersion = keep [] (ResourceVersion new) (ResourceVersion old),
      Generation = keep 0 (Generation new) (Generation old),
      Labels = fmadd (Labels old) (Labels new),
      Annotations = fmadd (Annotations old) (Annotations new),
      ManagedFields = keep [] (ManagedFields new) (ManagedFields old)\<rparr>"

definition unmarshalInto :: "scheme \<Rightarrow> rawmap \<Rightarrow> object \<Rightarrow> error + object" where
  "unmarshalInto sch rm dst =
     (case sch_unmarshalErr sch (GoType dst) (rm_Body rm) of
        Some e \<Rightarrow> Inl e
      | None \<Rightarrow> Inr (dst\<lparr>ApiVersion := keep [] (rm_ApiVersion rm) (ApiVersion dst),
                       TypeKind := keep [] (rm_Kind rm) (TypeKind dst),
                       Meta := meta_into (rm_Meta rm) (Meta dst),
                       Body := fmadd (Body dst)
                         (fmmap_keys (\<lambda>k r. sch_unmarshal sch (GoType dst) k (snd r)
                            (fmlookup (Body dst) k)) (rm_Body rm))\<rparr>))"

section \<open>Channels\<close>

text \<open>What a receive on a watcher's channel gives: an event, the closed channel, or nothing yet.\<close>

datatype recv = Received Event | ChanClosed | WouldBlock

section \<open>The store interface\<close>

text \<open>
  \<open>Store\<close> of \<open>store.go\<close> over a state \<open>'s\<close>. A method that fills in its argument returns the new
  argument beside the error; a nil error is \<open>None\<close>. A watcher is named by a number, the identity
  of the pointer that \<open>Watch\<close> returns; \<open>st_Recv\<close> and \<open>st_Stop\<close> are the methods of \<open>Watcher\<close>
  (\<open>watcher.go\<close>): a receive on \<open>ResultChan\<close>, and \<open>Stop\<close>.
\<close>

type_synonym watcher_id = nat

record 's Store =
  st_Get :: "'s \<Rightarrow> ObjectKey \<Rightarrow> object \<Rightarrow> object \<times> error option"
  st_List :: "'s \<Rightarrow> object_list \<Rightarrow> ListOption list \<Rightarrow> 's \<times> object_list \<times> error option"
  st_Create :: "'s \<Rightarrow> object \<Rightarrow> 's \<times> object \<times> error option"
  st_Update :: "'s \<Rightarrow> object \<Rightarrow> 's \<times> object \<times> error option"
  st_UpdateStatus :: "'s \<Rightarrow> object \<Rightarrow> 's \<times> object \<times> error option"
  st_Delete :: "'s \<Rightarrow> object \<Rightarrow> 's \<times> error option"
  st_Watch :: "'s \<Rightarrow> object_list \<Rightarrow> ListOption list \<Rightarrow> 's \<times> (error + watcher_id)"
  st_Recv :: "'s \<Rightarrow> watcher_id \<Rightarrow> 's \<times> recv"
  st_Stop :: "'s \<Rightarrow> watcher_id \<Rightarrow> 's"

section \<open>Lemmas on documents\<close>

lemma keep_simps [simp]:
  "keep z z b = b" "a \<noteq> z \<Longrightarrow> keep z a b = a" "keep z a a = a" "keep z a z = a"
  by (simp_all add: keep_def)

lemma meta_into_same [simp]: "meta_into m m = m"
  by (simp add: meta_into_def)

lemma rm_marshal [simp]:
  "rm_Meta (marshal l o1) = Meta o1"
  "rm_ApiVersion (marshal l o1) = ApiVersion o1"
  "rm_Kind (marshal l o1) = TypeKind o1"
  "rm_Body (marshal l o1) = fmmap (Pair l) (Body o1)"
  by (simp_all add: marshal_def)

lemma fmmap_Pair_inject: "fmmap (Pair l) a = fmmap (Pair l) b \<Longrightarrow> a = b"
  by (rule fmap_ext) (metis (no_types) fmlookup_map option.inj_map_strong prod.inject)

lemma marshal_inject:
  "marshal l a = marshal l b \<Longrightarrow> GoType a = GoType b \<Longrightarrow> a = b"
  by (rule object.equality) (auto simp: marshal_def dest: fmmap_Pair_inject)

lemma unmarshalInto_Inr:
  assumes "unmarshalInto sch rm dst = Inr o1"
  shows "GoType o1 = GoType dst" and "Meta o1 = meta_into (rm_Meta rm) (Meta dst)"
    and "fmlookup (Body o1) k =
      (case fmlookup (rm_Body rm) k of
         None \<Rightarrow> fmlookup (Body dst) k
       | Some r \<Rightarrow> Some (sch_unmarshal sch (GoType dst) k (snd r) (fmlookup (Body dst) k)))"
  using assms by (auto simp: unmarshalInto_def fmlookup_dom_iff split: option.splits)

text \<open>
  An object whose document says all of it: decoding one of its fields replaces whatever the target
  held, and the document decodes. This holds of every object whose types emit all their fields,
  such as those of the conformance suite; a type with \<open>omitempty\<close> fields or Go maps may
  have objects that are not of this kind.
\<close>

definition full_doc :: "scheme \<Rightarrow> object \<Rightarrow> bool" where
  "full_doc sch o1 \<longleftrightarrow>
     (\<forall>k j. fmlookup (Body o1) k = Some j \<longrightarrow> (\<forall>old. sch_unmarshal sch (GoType o1) k j old = j))"

definition decodable :: "scheme \<Rightarrow> string \<Rightarrow> (string, RawMessage) fmap \<Rightarrow> bool" where
  "decodable sch ty b \<longleftrightarrow> sch_unmarshalErr sch ty b = None"

lemma unmarshalInto_decodable:
  "decodable sch (GoType dst) (rm_Body rm) \<Longrightarrow> \<exists>o1. unmarshalInto sch rm dst = Inr o1"
  by (simp add: decodable_def unmarshalInto_def)

text \<open>
  Copying a full document over an object of the same type that has no more fields and no other
  metadata entries gives the source back.
\<close>

lemma unmarshalInto_full_body:
  assumes "full_doc sch src" and "GoType dst = GoType src" and "fset (fmdom (Body dst)) \<subseteq> fset (fmdom (Body src))"
    and "unmarshalInto sch (marshal l src) dst = Inr o1"
  shows "Body o1 = Body src"
proof (rule fmap_ext)
  fix k
  show "fmlookup (Body o1) k = fmlookup (Body src) k"
  proof (cases "fmlookup (Body src) k")
    case None
    with assms(3) have "fmlookup (Body dst) k = None"
      by (metis fmdom_notD fmdom_notI subsetD)
    with None show ?thesis using unmarshalInto_Inr(3) [OF assms(4), of k] by simp
  next
    case (Some j)
    with assms(1,2) show ?thesis
      using unmarshalInto_Inr(3) [OF assms(4), of k] by (simp add: full_doc_def)
  qed
qed

lemma unmarshalInto_marshal_self:
  assumes "full_doc sch o1" and "decodable sch (GoType o1) (fmmap (Pair l) (Body o1))"
  shows "unmarshalInto sch (marshal l o1) o1 = Inr o1"
proof -
  obtain o2 where o2: "unmarshalInto sch (marshal l o1) o1 = Inr o2"
    using unmarshalInto_decodable [of sch o1 "marshal l o1"] assms(2) by auto
  have "Body o2 = Body o1"
    using assms(1) _ _ o2 by (rule unmarshalInto_full_body) simp_all
  moreover have "GoType o2 = GoType o1" "Meta o2 = Meta o1" "ApiVersion o2 = ApiVersion o1"
      "TypeKind o2 = TypeKind o1"
    using o2 unmarshalInto_Inr(1,2) [OF o2] by (auto simp: unmarshalInto_def split: option.splits)
  ultimately show ?thesis using o2 by simp
qed

section \<open>Replaying events\<close>

text \<open>
  The view of one kind that a consumer of events has: \<open>apply_event\<close> is what an event says
  happened, \<open>apply_events\<close> a sequence of them in order.
\<close>

type_synonym view = "ObjectKey \<rightharpoonup> object"

fun apply_event :: "Event \<Rightarrow> view \<Rightarrow> view" where
  "apply_event e m =
     (case ev_Type e of
        EventAdded \<Rightarrow> m(ObjectKeyFromObject (ev_Object e) \<mapsto> ev_Object e)
      | EventModified \<Rightarrow> m(ObjectKeyFromObject (ev_Object e) \<mapsto> ev_Object e)
      | EventDeleted \<Rightarrow> m(ObjectKeyFromObject (ev_Object e) := None)
      | EventBookmark \<Rightarrow> m)"

declare apply_event.simps [simp del]

lemma apply_event_cases:
  "apply_event \<lparr>ev_Type = EventAdded, ev_Object = o1\<rparr> m = m(ObjectKeyFromObject o1 \<mapsto> o1)"
  "apply_event \<lparr>ev_Type = EventModified, ev_Object = o1\<rparr> m = m(ObjectKeyFromObject o1 \<mapsto> o1)"
  "apply_event \<lparr>ev_Type = EventDeleted, ev_Object = o1\<rparr> m = m(ObjectKeyFromObject o1 := None)"
  "apply_event \<lparr>ev_Type = EventBookmark, ev_Object = o1\<rparr> m = m"
  by (simp_all add: apply_event.simps)

definition apply_events :: "Event list \<Rightarrow> view \<Rightarrow> view" where
  "apply_events es m = fold apply_event es m"

lemma apply_events_simps [simp]:
  "apply_events [] m = m"
  "apply_events (e # es) m = apply_events es (apply_event e m)"
  "apply_events (es @ fs) m = apply_events fs (apply_events es m)"
  by (simp_all add: apply_events_def)

text \<open>
  An event that tells the truth about a view: an addition is of an absent object, a modification
  and a deletion are of a present one and carry a later resource version.
\<close>

definition rv_less :: "string \<Rightarrow> string \<Rightarrow> bool" where
  "rv_less a b \<longleftrightarrow> (\<exists>x y. a = FormatInt x \<and> b = FormatInt y \<and> is_int64 x \<and> is_int64 y \<and> x < y)"

definition event_ok :: "view \<Rightarrow> Event \<Rightarrow> bool" where
  "event_ok m e \<longleftrightarrow>
     (let key = ObjectKeyFromObject (ev_Object e); rv = GetResourceVersion (ev_Object e)
      in case ev_Type e of
           EventAdded \<Rightarrow> m key = None
         | EventModified \<Rightarrow> (\<exists>old. m key = Some old \<and> rv_less (GetResourceVersion old) rv)
         | EventDeleted \<Rightarrow> (\<exists>old. m key = Some old \<and> rv_less (GetResourceVersion old) rv)
         | EventBookmark \<Rightarrow> True)"

fun valid_events :: "view \<Rightarrow> Event list \<Rightarrow> bool" where
  "valid_events m [] = True"
| "valid_events m (e # es) = (event_ok m e \<and> valid_events (apply_event e m) es)"

lemma valid_events_append [simp]:
  "valid_events m (es @ fs) \<longleftrightarrow> valid_events m es \<and> valid_events (apply_events es m) fs"
  by (induction es arbitrary: m) auto

end
