(* ===== verification/Event_Queue.thy ===== *)
theory Event_Queue
  imports Store_API
begin

text \<open>
  The coalescing event queue of \<open>cache.go\<close> and the loop that hands its batches to the handlers
  (\<open>eventQueue\<close>, \<open>coalesceEvents\<close>, \<open>processEvents\<close>). The queue is meant to be an optimisation:
  a handler that sees the coalesced events ends with the same picture as one that sees all of them.
\<close>

section \<open>State and operations\<close>

datatype cacheEventType = cacheEventAdd | cacheEventUpdate | cacheEventDelete

record cacheEvent =
  ce_eventType :: cacheEventType
  ce_obj :: object
  ce_oldObj :: "object option"
  ce_isInInitialList :: bool

record eventQueue =
  q_order :: "ObjectKey list"
  q_pending :: "(ObjectKey, cacheEvent list) fmap"
  q_closed :: bool

definition newEventQueue :: eventQueue where
  "newEventQueue = \<lparr>q_order = [], q_pending = fmempty, q_closed = False\<rparr>"

definition coalesceEvents :: "cacheEvent \<Rightarrow> cacheEvent \<Rightarrow> cacheEvent option" where
  "coalesceEvents existing incoming =
     (case (ce_eventType existing, ce_eventType incoming) of
        (cacheEventAdd, cacheEventUpdate) \<Rightarrow>
          Some \<lparr>ce_eventType = cacheEventAdd, ce_obj = ce_obj incoming, ce_oldObj = None,
                ce_isInInitialList = ce_isInInitialList existing\<rparr>
      | (cacheEventAdd, cacheEventDelete) \<Rightarrow> None
      | (cacheEventUpdate, cacheEventUpdate) \<Rightarrow>
          Some \<lparr>ce_eventType = cacheEventUpdate, ce_obj = ce_obj incoming, ce_oldObj = ce_oldObj existing,
                ce_isInInitialList = False\<rparr>
      | (cacheEventUpdate, cacheEventDelete) \<Rightarrow>
          Some \<lparr>ce_eventType = cacheEventDelete, ce_obj = ce_obj incoming, ce_oldObj = None,
                ce_isInInitialList = False\<rparr>
      | _ \<Rightarrow> Some incoming)"

definition enqueue :: "ObjectKey \<Rightarrow> cacheEvent \<Rightarrow> eventQueue \<Rightarrow> eventQueue" where
  "enqueue key evt q =
     (if q_closed q then q
      else case fmlookup (q_pending q) key of
        None \<Rightarrow> q\<lparr>q_pending := fmupd key [evt] (q_pending q), q_order := q_order q @ [key]\<rparr>
      | Some existing \<Rightarrow>
          (if ce_eventType (last existing) = cacheEventDelete \<and> ce_eventType evt = cacheEventAdd
           then q\<lparr>q_pending := fmupd key (existing @ [evt]) (q_pending q)\<rparr>
           else case coalesceEvents (last existing) evt of
                  None \<Rightarrow>
                    (if butlast existing = [] then q\<lparr>q_pending := fmdrop key (q_pending q)\<rparr>
                     else q\<lparr>q_pending := fmupd key (butlast existing) (q_pending q)\<rparr>)
                | Some coalesced \<Rightarrow>
                    q\<lparr>q_pending := fmupd key (butlast existing @ [coalesced]) (q_pending q)\<rparr>))"

record drainResult =
  dr_order :: "ObjectKey list"
  dr_events :: "(ObjectKey, cacheEvent list) fmap"

datatype drain_outcome = DrainWaits | DrainNil | Drained drainResult

definition drain :: "eventQueue \<Rightarrow> eventQueue \<times> drain_outcome" where
  "drain q =
     (if q_pending q = fmempty \<and> \<not> q_closed q then (q, DrainWaits)
      else if q_closed q \<and> q_pending q = fmempty then (q, DrainNil)
      else (q\<lparr>q_order := [], q_pending := fmempty\<rparr>,
            Drained \<lparr>dr_order = q_order q, dr_events = q_pending q\<rparr>))"

definition close :: "eventQueue \<Rightarrow> eventQueue" where
  "close q = q\<lparr>q_closed := True\<rparr>"

text \<open>
  The calls that one batch makes on each handler. \<open>seen\<close> is the map of the keys handled so far:
  a key can occur several times in \<open>order\<close>, when an add and a delete cancelled out in between.
\<close>

datatype notification =
    OnAdd object bool
  | OnUpdate "object option" object
  | OnDelete object

definition notify :: "cacheEvent \<Rightarrow> notification" where
  "notify evt =
     (case ce_eventType evt of
        cacheEventAdd \<Rightarrow> OnAdd (ce_obj evt) (ce_isInInitialList evt)
      | cacheEventUpdate \<Rightarrow> OnUpdate (ce_oldObj evt) (ce_obj evt)
      | cacheEventDelete \<Rightarrow> OnDelete (ce_obj evt))"

fun batch_events ::
  "(ObjectKey, cacheEvent list) fmap \<Rightarrow> ObjectKey list \<Rightarrow> ObjectKey list \<Rightarrow> (ObjectKey \<times> cacheEvent) list" where
  "batch_events events [] seen = []"
| "batch_events events (key # keys) seen =
     (if key \<in> set seen then batch_events events keys seen
      else map (Pair key) (case fmlookup events key of None \<Rightarrow> [] | Some es \<Rightarrow> es)
           @ batch_events events keys (key # seen))"

definition processBatch :: "nat list \<Rightarrow> drainResult \<Rightarrow> (nat \<times> notification) list" where
  "processBatch handlers r =
     concat (map (\<lambda>(key, evt). map (\<lambda>h. (h, notify evt)) handlers)
       (batch_events (dr_events r) (dr_order r) []))"

section \<open>What the events mean\<close>

definition ce_apply :: "cacheEvent \<Rightarrow> object option \<Rightarrow> object option" where
  "ce_apply evt v = (if ce_eventType evt = cacheEventDelete then None else Some (ce_obj evt))"

text \<open>
  An event is proper in a state: an add comes for an object that is not there, an update carries
  the object that is.
\<close>

definition ce_proper :: "object option \<Rightarrow> cacheEvent \<Rightarrow> bool" where
  "ce_proper v evt =
     (case ce_eventType evt of
        cacheEventAdd \<Rightarrow> v = None
      | cacheEventUpdate \<Rightarrow> v \<noteq> None \<and> ce_oldObj evt = v
      | cacheEventDelete \<Rightarrow> v \<noteq> None)"

fun ces_proper :: "object option \<Rightarrow> cacheEvent list \<Rightarrow> bool" where
  "ces_proper v [] = True"
| "ces_proper v (e # es) = (ce_proper v e \<and> ces_proper (ce_apply e v) es)"

definition ces_apply :: "cacheEvent list \<Rightarrow> object option \<Rightarrow> object option" where
  "ces_apply es v = fold ce_apply es v"

lemma ces_apply_simps [simp]:
  "ces_apply [] v = v" "ces_apply (e # es) v = ces_apply es (ce_apply e v)"
  "ces_apply (es @ fs) v = ces_apply fs (ces_apply es v)"
  by (simp_all add: ces_apply_def)

lemma ces_proper_append [simp]:
  "ces_proper v (es @ fs) \<longleftrightarrow> ces_proper v es \<and> ces_proper (ces_apply es v) fs"
  by (induction es arbitrary: v) auto

definition pending :: "eventQueue \<Rightarrow> ObjectKey \<Rightarrow> cacheEvent list" where
  "pending q k = (case fmlookup (q_pending q) k of None \<Rightarrow> [] | Some es \<Rightarrow> es)"

text \<open>The picture that a handler with picture \<open>m\<close> has once the pending events are delivered.\<close>

definition delivered :: "eventQueue \<Rightarrow> view \<Rightarrow> view" where
  "delivered q m = (\<lambda>k. ces_apply (pending q k) (m k))"

definition queue_wf :: "eventQueue \<Rightarrow> bool" where
  "queue_wf q \<longleftrightarrow> (\<forall>k es. fmlookup (q_pending q) k = Some es \<longrightarrow> es \<noteq> [] \<and> k \<in> set (q_order q) \<and> length es \<le> 2 \<and>
     (length es = 2 \<longrightarrow> map ce_eventType es = [cacheEventDelete, cacheEventAdd]))"

definition queue_proper :: "view \<Rightarrow> eventQueue \<Rightarrow> bool" where
  "queue_proper m q \<longleftrightarrow> (\<forall>k. ces_proper (m k) (pending q k))"

section \<open>Enqueueing\<close>

lemma coalesce_apply:
  assumes "ce_proper v e" and "ce_proper (ce_apply e v) f"
    and "\<not> (ce_eventType e = cacheEventDelete \<and> ce_eventType f = cacheEventAdd)"
  shows "case coalesceEvents e f of
      None \<Rightarrow> ce_apply f (ce_apply e v) = v
    | Some g \<Rightarrow> ce_apply g v = ce_apply f (ce_apply e v) \<and> ce_proper v g"
  using assms
  by (cases "ce_eventType e"; cases "ce_eventType f")
    (auto simp: coalesceEvents_def ce_apply_def ce_proper_def)

text \<open>What \<open>enqueue\<close> does to the events of its key.\<close>

definition push :: "cacheEvent list \<Rightarrow> cacheEvent \<Rightarrow> cacheEvent list" where
  "push es f =
     (if es = [] then [f]
      else if ce_eventType (last es) = cacheEventDelete \<and> ce_eventType f = cacheEventAdd then es @ [f]
      else case coalesceEvents (last es) f of None \<Rightarrow> butlast es | Some g \<Rightarrow> butlast es @ [g])"

lemma push_proper:
  assumes "ces_proper v es" and "ce_proper (ces_apply es v) f"
  shows "ces_proper v (push es f) \<and> ces_apply (push es f) v = ce_apply f (ces_apply es v)"
proof (cases es rule: rev_cases)
  case Nil
  with assms show ?thesis by (simp add: push_def)
next
  case (snoc es' e)
  with assms coalesce_apply [of "ces_apply es' v" e f] show ?thesis
    by (auto simp: push_def split: option.splits)
qed

lemma pending_enqueue:
  assumes "queue_wf q" and "\<not> q_closed q"
  shows "pending (enqueue k f q) k' = (if k' = k then push (pending q k) f else pending q k')"
  using assms
  by (auto simp: pending_def enqueue_def push_def queue_wf_def split: option.splits)

lemma length_le_2: "length es \<le> 2 \<Longrightarrow> es = [] \<or> (\<exists>a. es = [a]) \<or> (\<exists>a b. es = [a, b])"
  by (cases es; cases "tl es") auto

lemma push_shape:
  assumes "length es \<le> 2" and "length es = 2 \<longrightarrow> map ce_eventType es = [cacheEventDelete, cacheEventAdd]"
  shows "length (push es f) \<le> 2 \<and>
    (length (push es f) = 2 \<longrightarrow> map ce_eventType (push es f) = [cacheEventDelete, cacheEventAdd])"
  using length_le_2 [OF assms(1)] assms(2)
  by (cases "ce_eventType f")
    (auto simp: push_def coalesceEvents_def split: option.splits cacheEventType.splits)

lemma order_enqueue:
  "set (q_order q) \<subseteq> set (q_order (enqueue k f q))"
  "fmlookup (q_pending (enqueue k f q)) k' = Some es \<Longrightarrow>
   fmlookup (q_pending q) k' \<noteq> None \<or> k' \<in> set (q_order (enqueue k f q))"
  by (auto simp: enqueue_def split: option.splits if_splits)

lemma queue_wf_enqueue:
  assumes "queue_wf q"
  shows "queue_wf (enqueue k f q)"
proof (cases "q_closed q")
  case True
  with assms show ?thesis by (simp add: enqueue_def)
next
  case False
  show ?thesis
    unfolding queue_wf_def
  proof (intro allI impI)
    fix k' es
    assume look: "fmlookup (q_pending (enqueue k f q)) k' = Some es"
    then have es: "es = (if k' = k then push (pending q k) f else pending q k')"
      using pending_enqueue [OF assms False, of k f k'] by (simp add: pending_def)
    have "es \<noteq> []"
      using look assms False
      by (auto simp: enqueue_def queue_wf_def split: option.splits if_splits)
    moreover have "k' \<in> set (q_order (enqueue k f q))"
      using order_enqueue look assms unfolding queue_wf_def by blast
    moreover have "length (pending q x) \<le> 2 \<and>
        (length (pending q x) = 2 \<longrightarrow> map ce_eventType (pending q x) = [cacheEventDelete, cacheEventAdd])" for x
      using assms by (auto simp: queue_wf_def pending_def split: option.splits)
    ultimately show "es \<noteq> [] \<and> k' \<in> set (q_order (enqueue k f q)) \<and> length es \<le> 2 \<and>
        (length es = 2 \<longrightarrow> map ce_eventType es = [cacheEventDelete, cacheEventAdd])"
      using push_shape [of "pending q k" f] es by auto
  qed
qed

lemma enqueue_delivers:
  assumes "queue_wf q" and "\<not> q_closed q" and "queue_proper m q" and "ce_proper (delivered q m k) f"
  shows "queue_proper m (enqueue k f q)"
    and "delivered (enqueue k f q) m = (delivered q m)(k := ce_apply f (delivered q m k))"
  using assms push_proper [of "m k" "pending q k" f]
  by (auto simp: queue_proper_def delivered_def pending_enqueue fun_eq_iff)

section \<open>Draining\<close>

lemma batch_events_keys: "(k, e) \<in> set (batch_events ev ks seen) \<Longrightarrow> k \<in> set ks \<and> k \<notin> set seen"
  by (induction ev ks seen rule: batch_events.induct) (auto split: if_splits option.splits)

lemma batch_events_of_key:
  "map snd (filter (\<lambda>p. fst p = k) (batch_events ev ks seen)) =
   (if k \<in> set ks \<and> k \<notin> set seen then (case fmlookup ev k of None \<Rightarrow> [] | Some es \<Rightarrow> es) else [])"
proof (induction ev ks seen rule: batch_events.induct)
  case (1 events seen)
  then show ?case by simp
next
  case (2 events key keys seen)
  have "filter (\<lambda>p. fst p = k) (map (Pair key) es) = (if k = key then map (Pair key) es else [])" for es :: "cacheEvent list"
    by (induction es) auto
  with 2 show ?case by (auto simp: comp_def split: option.splits)
qed

text \<open>The picture of a handler after a sequence of keyed events.\<close>

definition see :: "(ObjectKey \<times> cacheEvent) list \<Rightarrow> view \<Rightarrow> view" where
  "see bs m = fold (\<lambda>(k, e) m. m(k := ce_apply e (m k))) bs m"

lemma see_key: "see bs m k = ces_apply (map snd (filter (\<lambda>p. fst p = k) bs)) (m k)"
  unfolding see_def by (induction bs arbitrary: m) auto

lemma drain_delivers:
  assumes "queue_wf q" and "drain q = (q', Drained r)"
  shows "see (batch_events (dr_events r) (dr_order r) []) m = delivered q m"
    and "pending q' k = []" and "queue_wf q'"
proof -
  have r: "dr_events r = q_pending q" "dr_order r = q_order q" "q_pending q' = fmempty"
    using assms(2) by (auto simp: drain_def split: if_splits)
  show "see (batch_events (dr_events r) (dr_order r) []) m = delivered q m"
    using assms(1)
    by (auto simp: fun_eq_iff see_key batch_events_of_key delivered_def pending_def r queue_wf_def split: option.splits)
  show "pending q' k = []" "queue_wf q'"
    using r by (simp_all add: pending_def queue_wf_def)
qed

lemma newEventQueue_wf [simp]: "queue_wf newEventQueue" "queue_proper m newEventQueue"
  "delivered newEventQueue m = m" "\<not> q_closed newEventQueue"
  by (simp_all add: newEventQueue_def queue_wf_def queue_proper_def pending_def delivered_def)

section \<open>Runs\<close>

text \<open>
  A producer and the processing goroutine share the queue: any interleaving of enqueues and
  drains. The state beside the queue is the picture that the handlers have.
\<close>

datatype queue_op = Enqueue ObjectKey cacheEvent | Drain

fun queue_exec :: "queue_op \<Rightarrow> eventQueue \<times> view \<Rightarrow> eventQueue \<times> view" where
  "queue_exec (Enqueue k e) (q, m) = (enqueue k e q, m)"
| "queue_exec Drain (q, m) =
     (case drain q of
        (q', Drained r) \<Rightarrow> (q', see (batch_events (dr_events r) (dr_order r) []) m)
      | (q', _) \<Rightarrow> (q', m))"

fun queue_execs :: "queue_op list \<Rightarrow> eventQueue \<times> view \<Rightarrow> eventQueue \<times> view" where
  "queue_execs [] c = c"
| "queue_execs (op # ops) c = queue_execs ops (queue_exec op c)"

text \<open>What the producer says happened, and that it says so properly.\<close>

fun produced :: "queue_op list \<Rightarrow> view \<Rightarrow> view" where
  "produced [] m = m"
| "produced (Enqueue k e # ops) m = produced ops (m(k := ce_apply e (m k)))"
| "produced (Drain # ops) m = produced ops m"

fun proper_ops :: "queue_op list \<Rightarrow> view \<Rightarrow> bool" where
  "proper_ops [] m = True"
| "proper_ops (Enqueue k e # ops) m = (ce_proper (m k) e \<and> proper_ops ops (m(k := ce_apply e (m k))))"
| "proper_ops (Drain # ops) m = proper_ops ops m"

definition queue_inv :: "eventQueue \<times> view \<Rightarrow> view \<Rightarrow> bool" where
  "queue_inv c t \<longleftrightarrow> queue_wf (fst c) \<and> \<not> q_closed (fst c) \<and> queue_proper (snd c) (fst c) \<and>
     delivered (fst c) (snd c) = t"

lemma queue_inv_enqueue:
  assumes "queue_inv (q, m) t" and "ce_proper (t k) e"
  shows "queue_inv (enqueue k e q, m) (t(k := ce_apply e (t k)))"
proof -
  have "\<not> q_closed (enqueue k e q)"
    using assms(1) by (auto simp: queue_inv_def enqueue_def split: option.splits)
  with assms queue_wf_enqueue enqueue_delivers [of q m k e] show ?thesis
    by (auto simp: queue_inv_def)
qed

lemma drain_cases:
  "(\<exists>r. drain q = (q\<lparr>q_order := [], q_pending := fmempty\<rparr>, Drained r)) \<or>
   (q_pending q = fmempty \<and> fst (drain q) = q \<and> (snd (drain q) = DrainWaits \<or> snd (drain q) = DrainNil))"
  by (auto simp: drain_def)

lemma queue_inv_drain:
  assumes "queue_inv (q, m) t"
  shows "queue_inv (queue_exec Drain (q, m)) t \<and> snd (queue_exec Drain (q, m)) = t"
proof -
  consider (d) r where "drain q = (q\<lparr>q_order := [], q_pending := fmempty\<rparr>, Drained r)"
    | (e) "q_pending q = fmempty" "fst (drain q) = q" "snd (drain q) = DrainWaits \<or> snd (drain q) = DrainNil"
    using drain_cases by blast
  then show ?thesis
  proof cases
    case (d r)
    with assms drain_delivers [OF _ d] show ?thesis
      by (simp add: queue_inv_def queue_proper_def delivered_def)
  next
    case e
    then have "delivered q m = m" by (simp add: delivered_def pending_def)
    with e assms show ?thesis by (cases "drain q") (auto simp: queue_inv_def)
  qed
qed

lemma queue_inv_execs:
  "queue_inv c t \<Longrightarrow> proper_ops ops t \<Longrightarrow> queue_inv (queue_execs ops c) (produced ops t)"
proof (induction ops arbitrary: c t)
  case Nil
  then show ?case by simp
next
  case (Cons op ops)
  obtain q m where c: "c = (q, m)" by fastforce
  show ?case
  proof (cases op)
    case (Enqueue k e)
    with Cons.prems c queue_inv_enqueue [of q m t k e]
    have "queue_inv (queue_exec op c) (t(k := ce_apply e (t k)))" by simp
    from Cons.IH [OF this] Cons.prems(2) Enqueue show ?thesis by (simp del: fun_upd_apply)
  next
    case Drain
    with Cons c queue_inv_drain [of q m t] show ?thesis by simp
  qed
qed

definition add_event :: "object \<Rightarrow> cacheEvent" where
  "add_event o1 = \<lparr>ce_eventType = cacheEventAdd, ce_obj = o1, ce_oldObj = None, ce_isInInitialList = False\<rparr>"

definition update_event :: "object \<Rightarrow> object \<Rightarrow> cacheEvent" where
  "update_event old o1 = \<lparr>ce_eventType = cacheEventUpdate, ce_obj = o1, ce_oldObj = Some old, ce_isInInitialList = False\<rparr>"

definition delete_event :: "object \<Rightarrow> cacheEvent" where
  "delete_event o1 = \<lparr>ce_eventType = cacheEventDelete, ce_obj = o1, ce_oldObj = None, ce_isInInitialList = False\<rparr>"

text \<open>Two states of one object, for the witnesses.\<close>

definition a0 :: object where
  "a0 = \<lparr>GoType = ''main.Widget'', ApiVersion = ''v1'', TypeKind = ''Widget'',
     Meta = \<lparr>Name = ''a'', Namespace = ''default'', UID = ''uid-1'', ResourceVersion = ''1'', Generation = 1,
       Labels = fmempty, Annotations = fmempty, ManagedFields = []\<rparr>, Body = fmempty\<rparr>"

definition b0 :: object where
  "b0 = SetResourceVersion ''2'' a0"

definition gvk0 :: GroupVersionKind where
  "gvk0 = \<lparr>Group = ''example.dev'', Version = ''v1'', Kind = ''Widget''\<rparr>"

definition k0 :: ObjectKey where
  "k0 = ObjectKeyFromObject a0"



lemma queue_wf_drain: "queue_wf q \<Longrightarrow> queue_wf (fst (queue_exec Drain (q, m)))"
proof -
  assume "queue_wf q"
  moreover have "queue_wf (q\<lparr>q_order := [], q_pending := fmempty\<rparr>)" by (simp add: queue_wf_def)
  ultimately show ?thesis
    using drain_cases [of q] by (cases "drain q"; cases "snd (drain q)") auto
qed

lemma queue_wf_execs: "queue_wf (fst c) \<Longrightarrow> queue_wf (fst (queue_execs ops c))"
proof (induction ops arbitrary: c)
  case Nil
  then show ?case by simp
next
  case (Cons op ops)
  have "queue_wf (fst (queue_exec op c))"
    using Cons.prems queue_wf_enqueue queue_wf_drain by (cases c; cases op) auto
  with Cons.IH show ?case by simp
qed

text \<open>
  C14. The queue is bounded by the objects, not by the events: after any sequence of enqueues and
  drains, proper or not, a key has at most two pending events, and two only as a delete followed
  by an add; every pending key will be visited by the next batch.
\<close>

theorem queue_bounded:
  "let q = fst (queue_execs ops (newEventQueue, m)) in
   length (pending q k) \<le> 2 \<and>
   (length (pending q k) = 2 \<longrightarrow> map ce_eventType (pending q k) = [cacheEventDelete, cacheEventAdd]) \<and>
   (pending q k \<noteq> [] \<longrightarrow> k \<in> set (q_order q))"
proof -
  have "queue_wf (fst (queue_execs ops (newEventQueue, m)))"
    by (rule queue_wf_execs) simp
  then show ?thesis
    by (auto simp: Let_def queue_wf_def pending_def split: option.splits)
qed

text \<open>Witness of C14: three events of one object leave one pending event.\<close>

theorem queue_bounded_witness:
  "length (pending (fst (queue_execs [Enqueue k0 (delete_event a0), Enqueue k0 (add_event a0),
     Enqueue k0 (update_event a0 b0)] (newEventQueue, Map.empty))) k0) \<le> 2"
  using queue_bounded [of "[Enqueue k0 (delete_event a0), Enqueue k0 (add_event a0), Enqueue k0 (update_event a0 b0)]"
      Map.empty k0]
  by (simp only: Let_def)

end
