(* ===== verification/Informer.thy ===== *)
theory Informer
  imports Event_Queue
begin

text \<open>
  The informer of \<open>cache.go\<close>: the cached objects of one kind, their indices, the handlers and
  the event queue. A method that takes the informer's lock is one function on the record
  \<open>storeInformer\<close>; only the goroutine of the informer's watch changes the objects.
\<close>

section \<open>State\<close>

type_synonym TransformFunc = "object \<Rightarrow> error + runtime_object"

record informerConfig =
  ic_transform :: "TransformFunc option"
  ic_unsafeDisableDeepCopy :: bool
  ic_labelSelector :: "label_selector option"
  ic_fieldSelector :: "field_selector option"
  ic_enableWatchBookmarks :: "bool option"
  ic_namespaces :: "string list option"
  ic_syncPeriod :: "int option"

record handlerRegistration =
  hr_id :: int
  hr_handler :: nat

type_synonym index = "string \<rightharpoonup> ObjectKey list"
type_synonym IndexerFunc = "object \<Rightarrow> string list"

record storeInformer =
  i_gvk :: GroupVersionKind
  i_objects :: "(ObjectKey, object) gomap"
  i_indexers :: "(string, IndexerFunc) gomap"
  i_indices :: "string \<rightharpoonup> index"
  i_handlers :: "handlerRegistration list"
  i_nextID :: int
  i_synced :: bool
  i_syncedChClosed :: bool
  i_stopped :: bool
  i_watcher :: "watcher_id option"
  i_queue :: eventQueue
  i_config :: informerConfig

definition newStoreInformer :: "GroupVersionKind \<Rightarrow> informerConfig \<Rightarrow> storeInformer" where
  "newStoreInformer gvk config =
     \<lparr>i_gvk = gvk, i_objects = [], i_indexers = [], i_indices = Map.empty, i_handlers = [], i_nextID = 0,
      i_synced = False, i_syncedChClosed = False, i_stopped = False, i_watcher = None,
      i_queue = newEventQueue, i_config = config\<rparr>"

text \<open>
  What the cache uses of \<open>apimachinery\<close> and \<open>controller-runtime\<close>: the kind of an object, and the
  conversion of a list to and from its items.
\<close>

record apilib =
  al_GVKForObject :: "string \<Rightarrow> error + GroupVersionKind"
  al_SetList :: "object_list \<Rightarrow> object list \<Rightarrow> object_list \<times> error option"
  al_ExtractList :: "object_list \<Rightarrow> error + runtime_object list"

section \<open>Reading\<close>

definition newerResourceVersion :: "string \<Rightarrow> string \<Rightarrow> bool" where
  "newerResourceVersion incoming existing =
     (case (ParseInt incoming, ParseInt existing) of
        ((inRV, None), (exRV, None)) \<Rightarrow> inRV > exRV
      | _ \<Rightarrow> incoming \<noteq> existing)"

definition applyTransform :: "informerConfig \<Rightarrow> object \<Rightarrow> error + object" where
  "applyTransform cfg obj =
     (case ic_transform cfg of
        None \<Rightarrow> Inr obj
      | Some f \<Rightarrow>
          (case f obj of
             Inl e \<Rightarrow> Inl e
           | Inr (RObject o1) \<Rightarrow> Inr o1
           | Inr (RList l) \<Rightarrow> Inl (Error (''transform returned *'' @ ListType l @ '', expected client.Object''))
           | Inr (ROther ty) \<Rightarrow> Inl (Error (''transform returned '' @ ty @ '', expected client.Object''))))"

text \<open>\<open>TransformStripManagedFields\<close>: the library's own transform.\<close>

definition TransformStripManagedFields :: TransformFunc where
  "TransformStripManagedFields obj =
     Inr (RObject (if ManagedFields (Meta obj) \<noteq> [] then obj\<lparr>Meta := (Meta obj)\<lparr>ManagedFields := []\<rparr>\<rparr> else obj))"

definition objectToFieldsSet :: "object \<Rightarrow> (string, string) fmap" where
  "objectToFieldsSet obj =
     fmap_of_list [(''metadata.name'', Name (Meta obj)), (''metadata.namespace'', Namespace (Meta obj))]"

definition AllNamespaces :: string where
  "AllNamespaces = []"

definition matchesSelectors :: "informerConfig \<Rightarrow> object \<Rightarrow> bool" where
  "matchesSelectors cfg obj \<longleftrightarrow>
     (case ic_namespaces cfg of
        None \<Rightarrow> True
      | Some nss \<Rightarrow> Namespace (Meta obj) \<in> set nss \<or> AllNamespaces \<in> set nss) \<and>
     (case ic_labelSelector cfg of None \<Rightarrow> True | Some sel \<Rightarrow> sel_Matches sel (GetLabels obj)) \<and>
     (case ic_fieldSelector cfg of None \<Rightarrow> True | Some sel \<Rightarrow> fsel_Matches sel (objectToFieldsSet obj))"

definition inf_get :: "scheme \<Rightarrow> storeInformer \<Rightarrow> ObjectKey \<Rightarrow> object \<Rightarrow> object \<times> error option" where
  "inf_get sch i key obj =
     (case map_of (i_objects i) key of
        None \<Rightarrow> (obj, Some (NotFoundError (ObjectKey_String key)))
      | Some cached \<Rightarrow>
          if ic_unsafeDisableDeepCopy (i_config i) then
            (if GoType cached \<noteq> GoType obj
             then (obj, Some (Error (''cache had type *'' @ GoType cached @ '', but *'' @ GoType obj @ '' was asked for'')))
             else (cached, None))
          else
            (case unmarshalInto sch (marshal Compact cached) obj of
               Inl e \<Rightarrow> (obj, Some (Error (''failed to unmarshal into target: '' @ error_Error e)))
             | Inr o1 \<Rightarrow> (o1, None)))"

text \<open>
  \<open>listFromIndex\<close>: the loop over the requirements. \<open>None\<close> is the early \<open>return nil\<close>; the inner option
  is the pair of \<open>resultKeys\<close> and \<open>initialized\<close>.
\<close>

fun lookup_requirements ::
  "(string \<rightharpoonup> index) \<Rightarrow> Requirement list \<Rightarrow> ObjectKey list option \<Rightarrow> ObjectKey list option option" where
  "lookup_requirements ixs [] acc = Some acc"
| "lookup_requirements ixs (req # reqs) acc =
     (if req_Operator req \<noteq> Op_Equals then lookup_requirements ixs reqs acc
      else case ixs (req_Field req) of
        None \<Rightarrow> None
      | Some ix \<Rightarrow>
          (case ix (req_Value req) of
             None \<Rightarrow> None
           | Some keys \<Rightarrow>
               (case acc of
                  None \<Rightarrow> lookup_requirements ixs reqs (Some (remdups keys))
                | Some resultKeys \<Rightarrow>
                    lookup_requirements ixs reqs (Some (filter (\<lambda>k. k \<in> set keys) resultKeys)))))"

definition listFromIndex :: "storeInformer \<Rightarrow> field_selector \<Rightarrow> object list" where
  "listFromIndex i sel =
     (case lookup_requirements (i_indices i) (fsel_Requirements sel) None of
        None \<Rightarrow> []
      | Some None \<Rightarrow> map snd (i_objects i)
      | Some (Some resultKeys) \<Rightarrow> List.map_filter (map_of (i_objects i)) resultKeys)"

definition inf_listItems :: "storeInformer \<Rightarrow> ListOptions \<Rightarrow> object list" where
  "inf_listItems i lo =
     (let items = (case lo_FieldSelector lo of
                     Some sel \<Rightarrow> listFromIndex i sel
                   | None \<Rightarrow> map snd (i_objects i));
          items1 = (case lo_LabelSelector lo of
                      None \<Rightarrow> items
                    | Some sel \<Rightarrow> filter (\<lambda>o1. sel_Matches sel (GetLabels o1)) items)
      in if lo_Namespace lo \<noteq> [] then filter (\<lambda>o1. Namespace (Meta o1) = lo_Namespace lo) items1 else items1)"

definition inf_list :: "apilib \<Rightarrow> storeInformer \<Rightarrow> object_list \<Rightarrow> ListOption list \<Rightarrow> object_list \<times> error option" where
  "inf_list al i lst opts = al_SetList al lst (inf_listItems i (applyListOptions opts))"

section \<open>Indices\<close>

definition removeFromIndices :: "ObjectKey \<Rightarrow> (string \<rightharpoonup> index) \<Rightarrow> (string \<rightharpoonup> index)" where
  "removeFromIndices key ixs =
     (\<lambda>name. map_option
        (\<lambda>ix value. case ix value of
           None \<Rightarrow> None
         | Some keys \<Rightarrow>
             (let newKeys = filter (\<lambda>k. k \<noteq> key) keys in if newKeys \<noteq> [] then Some newKeys else None))
        (ixs name))"

text \<open>\<open>for _, value := range values { index[value] = append(index[value], key) }\<close>\<close>

definition appendKeys :: "ObjectKey \<Rightarrow> string list \<Rightarrow> index \<Rightarrow> index" where
  "appendKeys key values ix =
     fold (\<lambda>value ix. ix(value \<mapsto> (case ix value of None \<Rightarrow> [] | Some keys \<Rightarrow> keys) @ [key])) values ix"

definition rebuildIndicesForObject ::
  "(string, IndexerFunc) gomap \<Rightarrow> ObjectKey \<Rightarrow> object \<Rightarrow> (string \<rightharpoonup> index) \<Rightarrow> (string \<rightharpoonup> index)" where
  "rebuildIndicesForObject indexers key obj ixs =
     fold (\<lambda>(indexName, extractValue) ixs.
         ixs(indexName \<mapsto> appendKeys key (extractValue obj)
               (case ixs indexName of None \<Rightarrow> Map.empty | Some ix \<Rightarrow> ix)))
       indexers (removeFromIndices key ixs)"

definition buildIndex :: "IndexerFunc \<Rightarrow> (ObjectKey, object) gomap \<Rightarrow> index" where
  "buildIndex extractValue objs = fold (\<lambda>(key, obj) ix. appendKeys key (extractValue obj) ix) objs Map.empty"

definition inf_addIndexer :: "string \<Rightarrow> IndexerFunc \<Rightarrow> storeInformer \<Rightarrow> storeInformer" where
  "inf_addIndexer field extractValue i =
     i\<lparr>i_indexers := AList.update field extractValue (i_indexers i),
       i_indices := (i_indices i)(field \<mapsto> buildIndex extractValue (i_objects i))\<rparr>"

text \<open>\<open>AddIndexers\<close>: an index function that fails gives no values.\<close>

definition inf_AddIndexers :: "(string \<times> (object \<Rightarrow> error + string list)) list \<Rightarrow> storeInformer \<Rightarrow> storeInformer" where
  "inf_AddIndexers indexers i =
     fold (\<lambda>(name, indexFunc). inf_addIndexer name
         (\<lambda>obj. case indexFunc obj of Inl _ \<Rightarrow> [] | Inr vals \<Rightarrow> vals)) indexers i"

section \<open>Changes\<close>

definition inf_put :: "ObjectKey \<Rightarrow> object \<Rightarrow> storeInformer \<Rightarrow> storeInformer" where
  "inf_put key obj i =
     i\<lparr>i_objects := AList.update key obj (i_objects i),
       i_indices := rebuildIndicesForObject (i_indexers i) key obj (i_indices i)\<rparr>"

definition inf_drop :: "ObjectKey \<Rightarrow> storeInformer \<Rightarrow> storeInformer" where
  "inf_drop key i =
     i\<lparr>i_objects := AList.delete key (i_objects i), i_indices := removeFromIndices key (i_indices i)\<rparr>"

definition inf_enqueue :: "ObjectKey \<Rightarrow> cacheEvent \<Rightarrow> storeInformer \<Rightarrow> storeInformer" where
  "inf_enqueue key evt i = i\<lparr>i_queue := enqueue key evt (i_queue i)\<rparr>"

definition inf_add :: "object \<Rightarrow> storeInformer \<Rightarrow> storeInformer" where
  "inf_add obj i =
     (if \<not> matchesSelectors (i_config i) obj then i
      else case applyTransform (i_config i) obj of
        Inl _ \<Rightarrow> i
      | Inr transformed \<Rightarrow>
          (let key = ObjectKeyFromObject transformed
           in if (case map_of (i_objects i) key of
                    Some existing \<Rightarrow> \<not> newerResourceVersion (GetResourceVersion transformed) (GetResourceVersion existing)
                  | None \<Rightarrow> False)
              then i
              else inf_enqueue key (add_event transformed) (inf_put key transformed i)))"

definition inf_update :: "object \<Rightarrow> storeInformer \<Rightarrow> storeInformer" where
  "inf_update obj i =
     (let key = ObjectKeyFromObject obj
      in if \<not> matchesSelectors (i_config i) obj then
           (case map_of (i_objects i) key of
              None \<Rightarrow> i
            | Some cached \<Rightarrow>
                if \<not> newerResourceVersion (GetResourceVersion obj) (GetResourceVersion cached) then i
                else inf_enqueue key (delete_event cached) (inf_drop key i))
         else case applyTransform (i_config i) obj of
           Inl _ \<Rightarrow> i
         | Inr transformed \<Rightarrow>
             (case map_of (i_objects i) key of
                Some oldObj \<Rightarrow>
                  if \<not> newerResourceVersion (GetResourceVersion transformed) (GetResourceVersion oldObj) then i
                  else inf_enqueue key (update_event oldObj transformed) (inf_put key transformed i)
              | None \<Rightarrow> inf_enqueue key (add_event transformed) (inf_put key transformed i)))"

definition inf_delete :: "object \<Rightarrow> storeInformer \<Rightarrow> storeInformer" where
  "inf_delete obj i =
     (let key = ObjectKeyFromObject obj
      in case map_of (i_objects i) key of
           None \<Rightarrow> i
         | Some cached \<Rightarrow> inf_enqueue key (delete_event cached) (inf_drop key i))"

text \<open>The switch of \<open>watchInformer\<close> on the type of a watch event.\<close>

definition inf_event :: "Event \<Rightarrow> storeInformer \<Rightarrow> storeInformer" where
  "inf_event e i =
     (case ev_Type e of
        EventAdded \<Rightarrow> inf_add (ev_Object e) i
      | EventModified \<Rightarrow> inf_update (ev_Object e) i
      | EventDeleted \<Rightarrow> inf_delete (ev_Object e) i
      | EventBookmark \<Rightarrow> i)"

section \<open>Replacing everything\<close>

text \<open>The first loop of \<open>replaceAll\<close>: the objects that pass the selectors and the transform.\<close>

definition inf_admit :: "informerConfig \<Rightarrow> runtime_object \<Rightarrow> (ObjectKey, object) gomap \<Rightarrow> (ObjectKey, object) gomap" where
  "inf_admit cfg item objs =
     (case item of
        RObject obj \<Rightarrow>
          (if \<not> matchesSelectors cfg obj then objs
           else case applyTransform cfg obj of
             Inl _ \<Rightarrow> objs
           | Inr transformed \<Rightarrow> AList.update (ObjectKeyFromObject transformed) transformed objs)
      | _ \<Rightarrow> objs)"

definition replace_deletes :: "(ObjectKey, object) gomap \<Rightarrow> (ObjectKey, object) gomap \<Rightarrow> (ObjectKey \<times> cacheEvent) list" where
  "replace_deletes old new =
     map (\<lambda>(key, obj). (key, delete_event obj)) (filter (\<lambda>(key, obj). map_of new key = None) old)"

definition replace_upserts :: "(ObjectKey, object) gomap \<Rightarrow> (ObjectKey, object) gomap \<Rightarrow> (ObjectKey \<times> cacheEvent) list" where
  "replace_upserts old new =
     List.map_filter (\<lambda>(key, obj).
        case map_of old key of
          None \<Rightarrow> Some (key, (add_event obj)\<lparr>ce_isInInitialList := True\<rparr>)
        | Some oldObj \<Rightarrow>
            if GetResourceVersion oldObj \<noteq> GetResourceVersion obj then Some (key, update_event oldObj obj) else None) new"

definition inf_replaceAll :: "runtime_object list \<Rightarrow> storeInformer \<Rightarrow> storeInformer" where
  "inf_replaceAll items i =
     (let oldObjects = i_objects i;
          newObjects = fold (inf_admit (i_config i)) items [];
          cleared = (\<lambda>name. map_option (\<lambda>_. Map.empty) (i_indices i name));
          i1 = i\<lparr>i_objects := newObjects,
                 i_indices := fold (\<lambda>(key, obj). rebuildIndicesForObject (i_indexers i) key obj) newObjects cleared\<rparr>
      in fold (\<lambda>(key, evt). inf_enqueue key evt) (replace_deletes oldObjects newObjects @ replace_upserts oldObjects newObjects) i1)"

text \<open>\<open>resyncInformer\<close> of the cache.\<close>

definition resyncInformer :: "storeInformer \<Rightarrow> storeInformer" where
  "resyncInformer i = fold (\<lambda>(key, obj). inf_enqueue key (update_event obj obj)) (i_objects i) i"

section \<open>Handlers and life cycle\<close>

text \<open>
  One turn of \<open>processEvents\<close>: drain, snapshot the handlers, call them. The result is the calls
  made, \<open>None\<close> when the goroutine waits and ends with \<open>Inl\<close> when it returns.
\<close>

definition inf_processOnce :: "storeInformer \<Rightarrow> storeInformer \<times> (unit + (nat \<times> notification) list) option" where
  "inf_processOnce i =
     (case drain (i_queue i) of
        (q, DrainWaits) \<Rightarrow> (i, None)
      | (q, DrainNil) \<Rightarrow> (i, Some (Inl ()))
      | (q, Drained r) \<Rightarrow> (i\<lparr>i_queue := q\<rparr>, Some (Inr (processBatch (map hr_handler (i_handlers i)) r))))"

text \<open>\<open>None\<close> is the panic of closing a closed channel.\<close>

definition inf_setSynced :: "bool \<Rightarrow> storeInformer \<Rightarrow> storeInformer option" where
  "inf_setSynced synced i =
     (if synced \<and> \<not> i_synced i
      then (if i_syncedChClosed i then None else Some (i\<lparr>i_synced := True, i_syncedChClosed := True\<rparr>))
      else Some i)"

definition inf_setWatcher :: "watcher_id \<Rightarrow> storeInformer \<Rightarrow> storeInformer" where
  "inf_setWatcher w i = i\<lparr>i_watcher := Some w\<rparr>"

text \<open>\<open>stop\<close>; the second component is the watcher that it stops.\<close>

definition inf_stop :: "storeInformer \<Rightarrow> storeInformer \<times> watcher_id option" where
  "inf_stop i = (i\<lparr>i_stopped := True, i_queue := close (i_queue i)\<rparr>, i_watcher i)"

text \<open>
  \<open>AddEventHandler\<close> registers the handler and takes a snapshot of the objects under the locks; the
  calls to \<open>OnAdd\<close> are made afterwards. The result is the registration and those calls.
\<close>

definition inf_AddEventHandler :: "nat \<Rightarrow> storeInformer \<Rightarrow> storeInformer \<times> int \<times> (nat \<times> notification) list" where
  "inf_AddEventHandler handler i =
     (i\<lparr>i_nextID := add64 (i_nextID i) 1,
        i_handlers := i_handlers i @ [\<lparr>hr_id = i_nextID i, hr_handler = handler\<rparr>]\<rparr>,
      i_nextID i, map (\<lambda>(key, obj). (handler, OnAdd obj True)) (i_objects i))"

definition inf_AddEventHandlerWithResyncPeriod ::
  "nat \<Rightarrow> int \<Rightarrow> storeInformer \<Rightarrow> storeInformer \<times> int \<times> (nat \<times> notification) list" where
  "inf_AddEventHandlerWithResyncPeriod handler period i = inf_AddEventHandler handler i"

datatype registration = StoreRegistration int | ForeignRegistration

fun remove_first :: "int \<Rightarrow> handlerRegistration list \<Rightarrow> handlerRegistration list option" where
  "remove_first n [] = None"
| "remove_first n (h # hs) = (if hr_id h = n then Some hs else map_option (Cons h) (remove_first n hs))"

fun inf_RemoveEventHandler :: "registration \<Rightarrow> storeInformer \<Rightarrow> storeInformer \<times> error option" where
  "inf_RemoveEventHandler ForeignRegistration i = (i, Some (Error ''invalid registration type''))"
| "inf_RemoveEventHandler (StoreRegistration n) i =
     (case remove_first n (i_handlers i) of
        None \<Rightarrow> (i, Some (Error ''handler not found''))
      | Some hs \<Rightarrow> (i\<lparr>i_handlers := hs\<rparr>, None))"

definition inf_HasSynced :: "storeInformer \<Rightarrow> bool" where
  "inf_HasSynced i = i_synced i"

definition inf_IsStopped :: "storeInformer \<Rightarrow> bool" where
  "inf_IsStopped i = i_stopped i"

end
