(* ===== verification/Informer_Index.thy ===== *)
theory Informer_Index
  imports Informer
begin

text \<open>
  The secondary indices of an informer: every operation that changes the objects keeps them exact,
  and a list through the index returns what a scan of all objects would.
\<close>

section \<open>Exact indices\<close>

definition ixkeys :: "index \<Rightarrow> string \<Rightarrow> ObjectKey list" where
  "ixkeys ix v = (case ix v of None \<Rightarrow> [] | Some ks \<Rightarrow> ks)"

definition index_for :: "IndexerFunc \<Rightarrow> view \<Rightarrow> index \<Rightarrow> bool" where
  "index_for f m ix \<longleftrightarrow>
     (\<forall>v. ix v \<noteq> Some [] \<and> set (ixkeys ix v) = {k. \<exists>o1. m k = Some o1 \<and> v \<in> set (f o1)})"

abbreviation inf_view :: "storeInformer \<Rightarrow> view" where
  "inf_view i \<equiv> map_of (i_objects i)"

definition indices_ok :: "(string, IndexerFunc) gomap \<Rightarrow> view \<Rightarrow> (string \<rightharpoonup> index) \<Rightarrow> bool" where
  "indices_ok indexers m ixs \<longleftrightarrow>
     (\<forall>name. (map_of indexers name = None \<longrightarrow> ixs name = None) \<and>
             (\<forall>f. map_of indexers name = Some f \<longrightarrow> (\<exists>ix. ixs name = Some ix \<and> index_for f m ix)))"

definition inf_wf :: "storeInformer \<Rightarrow> bool" where
  "inf_wf i \<longleftrightarrow>
     distinct (map fst (i_objects i)) \<and> distinct (map fst (i_indexers i)) \<and>
     indices_ok (i_indexers i) (inf_view i) (i_indices i)"

lemma index_for_empty: "index_for f Map.empty Map.empty"
  by (simp add: index_for_def ixkeys_def)

lemma appendKeys_simps [simp]:
  "appendKeys key [] ix = ix"
  "appendKeys key (v # vs) ix = appendKeys key vs (ix(v \<mapsto> ixkeys ix v @ [key]))"
  by (simp_all add: appendKeys_def ixkeys_def)

lemma ixkeys_upd [simp]: "ixkeys (ix(v \<mapsto> ks)) v' = (if v' = v then ks else ixkeys ix v')"
  by (simp add: ixkeys_def)

lemma set_appendKeys:
  "set (ixkeys (appendKeys key vs ix) v) = set (ixkeys ix v) \<union> (if v \<in> set vs then {key} else {})"
  by (induction vs arbitrary: ix) auto

lemma appendKeys_not_Nil: "\<forall>v. ix v \<noteq> Some [] \<Longrightarrow> appendKeys key vs ix v \<noteq> Some []"
  by (induction vs arbitrary: ix) auto

lemma index_for_append:
  assumes "index_for f m ix" and "m k = None"
  shows "index_for f (m(k \<mapsto> o1)) (appendKeys k (f o1) ix)"
  using assms appendKeys_not_Nil [of ix k "f o1"]
  by (auto simp: index_for_def set_appendKeys)

lemma index_for_remove:
  assumes "index_for f m ix" and "ixs name = Some ix"
  shows "\<exists>ix'. removeFromIndices k ixs name = Some ix' \<and> index_for f (m(k := None)) ix'"
proof -
  let ?ix = "\<lambda>value. case ix value of None \<Rightarrow> None
    | Some keys \<Rightarrow> (let newKeys = filter (\<lambda>k'. k' \<noteq> k) keys in if newKeys \<noteq> [] then Some newKeys else None)"
  have "ixkeys ?ix v = filter (\<lambda>k'. k' \<noteq> k) (ixkeys ix v)" for v
    by (simp add: ixkeys_def Let_def split: option.split)
  moreover have "?ix v \<noteq> Some []" for v
    by (simp add: Let_def split: option.split)
  ultimately have "index_for f (m(k := None)) ?ix"
    using assms(1) by (auto simp: index_for_def)
  then show ?thesis
    using assms(2) by (simp add: removeFromIndices_def)
qed

lemma rebuild_name:
  assumes "distinct (map fst indexers)"
  shows "fold (\<lambda>(n, f) ixs. ixs(n \<mapsto> appendKeys key (f obj) (case ixs n of None \<Rightarrow> Map.empty | Some ix \<Rightarrow> ix)))
      indexers ixs name =
    (case map_of indexers name of
       None \<Rightarrow> ixs name
     | Some f \<Rightarrow> Some (appendKeys key (f obj) (case ixs name of None \<Rightarrow> Map.empty | Some ix \<Rightarrow> ix)))"
  using assms
proof (induction indexers arbitrary: ixs)
  case Nil
  then show ?case by simp
next
  case (Cons p indexers)
  then show ?case
    by (cases p) (auto split: option.split dest: map_of_fresh)
qed

text \<open>The three ways in which the objects and the indices change together.\<close>

lemma removeFromIndices_None: "ixs name = None \<Longrightarrow> removeFromIndices k ixs name = None"
  by (simp add: removeFromIndices_def)

lemma indices_ok_remove:
  "indices_ok indexers m ixs \<Longrightarrow> indices_ok indexers (m(k := None)) (removeFromIndices k ixs)"
  unfolding indices_ok_def using index_for_remove removeFromIndices_None by metis

lemma indices_ok_rebuild:
  assumes "distinct (map fst indexers)" and "indices_ok indexers m ixs"
  shows "indices_ok indexers (m(k \<mapsto> o1)) (rebuildIndicesForObject indexers k o1 ixs)"
  unfolding indices_ok_def
proof (intro allI conjI impI)
  note removed = indices_ok_remove [OF assms(2), of k, unfolded indices_ok_def, rule_format]
  fix name
  show "rebuildIndicesForObject indexers k o1 ixs name = None" if "map_of indexers name = None"
    using that removed by (simp add: rebuildIndicesForObject_def rebuild_name [OF assms(1)])
  fix f
  assume f: "map_of indexers name = Some f"
  then obtain ix' where "removeFromIndices k ixs name = Some ix'" "index_for f (m(k := None)) ix'"
    using removed by blast
  with f index_for_append [of f "m(k := None)" ix' k o1]
  show "\<exists>ix. rebuildIndicesForObject indexers k o1 ixs name = Some ix \<and> index_for f (m(k \<mapsto> o1)) ix"
    by (simp add: rebuildIndicesForObject_def rebuild_name [OF assms(1)])
qed

lemma inf_wf_drop: "inf_wf i \<Longrightarrow> inf_wf (inf_drop k i)"
  by (simp add: inf_wf_def inf_drop_def indices_ok_remove)

lemma inf_wf_put: "inf_wf i \<Longrightarrow> inf_wf (inf_put k o1 i)"
  by (simp add: inf_wf_def inf_put_def indices_ok_rebuild)

lemma inf_wf_enqueue [simp]: "inf_wf (inf_enqueue k e i) = inf_wf i"
  by (simp add: inf_wf_def inf_enqueue_def)

lemma inf_enqueue_simps [simp]:
  "i_objects (inf_enqueue k e i) = i_objects i" "i_config (inf_enqueue k e i) = i_config i"
  "i_indexers (inf_enqueue k e i) = i_indexers i" "i_indices (inf_enqueue k e i) = i_indices i"
  "i_queue (inf_enqueue k e i) = enqueue k e (i_queue i)"
  by (simp_all add: inf_enqueue_def)

lemma inf_wf_fold_enqueue [simp]: "inf_wf (fold (\<lambda>(k, e). inf_enqueue k e) es i) = inf_wf i"
  by (induction es arbitrary: i) (simp_all add: case_prod_unfold)

lemma inf_wf_add: "inf_wf i \<Longrightarrow> inf_wf (inf_add o1 i)"
  by (simp add: inf_add_def Let_def inf_wf_put split: sum.split)

lemma inf_wf_update: "inf_wf i \<Longrightarrow> inf_wf (inf_update o1 i)"
  by (simp add: inf_update_def Let_def inf_wf_put inf_wf_drop split: sum.split option.split)

lemma inf_wf_delete: "inf_wf i \<Longrightarrow> inf_wf (inf_delete o1 i)"
  by (simp add: inf_delete_def Let_def inf_wf_drop split: option.split)

lemma inf_wf_event: "inf_wf i \<Longrightarrow> inf_wf (inf_event e i)"
  by (simp add: inf_event_def inf_wf_add inf_wf_update inf_wf_delete split: EventType.split)

section \<open>Building from scratch\<close>

lemma buildIndex_fold:
  assumes "distinct (map fst objs)" and "index_for f m ix" and "dom m \<inter> keys_of objs = {}"
  shows "index_for f (m ++ map_of objs) (fold (\<lambda>(k, o1) ix. appendKeys k (f o1) ix) objs ix)"
  using assms
proof (induction objs arbitrary: m ix)
  case Nil
  then show ?case by simp
next
  case (Cons p objs)
  obtain k o1 where p: "p = (k, o1)" by fastforce
  with Cons.prems have "m k = None" by auto
  then have "index_for f (m(k \<mapsto> o1)) (appendKeys k (f o1) ix)"
    using Cons.prems(2) by (rule_tac index_for_append)
  moreover have "dom (m(k \<mapsto> o1)) \<inter> keys_of objs = {}"
    using Cons.prems p by auto
  ultimately have "index_for f (m(k \<mapsto> o1) ++ map_of objs)
      (fold (\<lambda>(k, o1) ix. appendKeys k (f o1) ix) objs (appendKeys k (f o1) ix))"
    using Cons.IH Cons.prems(1) p by simp
  moreover have "m(k \<mapsto> o1) ++ map_of objs = m ++ map_of (p # objs)"
    using Cons.prems(1) p map_add_cons [of k objs m o1] by simp
  ultimately show ?case by (simp add: p del: fun_upd_apply)
qed

lemma buildIndex_index_for:
  "distinct (map fst objs) \<Longrightarrow> index_for f (map_of objs) (buildIndex f objs)"
  using buildIndex_fold [of objs f Map.empty Map.empty] by (simp add: buildIndex_def index_for_empty)

lemma inf_wf_addIndexer: "inf_wf i \<Longrightarrow> inf_wf (inf_addIndexer name f i)"
  by (auto simp: inf_wf_def inf_addIndexer_def indices_ok_def buildIndex_index_for)

lemma inf_wf_AddIndexers: "inf_wf i \<Longrightarrow> inf_wf (inf_AddIndexers fs i)"
  unfolding inf_AddIndexers_def by (induction fs arbitrary: i) (auto simp: inf_wf_addIndexer)

lemma indices_ok_rebuild_all:
  assumes "distinct (map fst objs)" and "distinct (map fst indexers)" and "indices_ok indexers m ixs"
  shows "indices_ok indexers (m ++ map_of objs)
    (fold (\<lambda>(k, o1). rebuildIndicesForObject indexers k o1) objs ixs)"
  using assms
proof (induction objs arbitrary: ixs m)
  case Nil
  then show ?case by simp
next
  case (Cons p objs)
  obtain k o1 where p: "p = (k, o1)" by fastforce
  have "m(k \<mapsto> o1) ++ map_of objs = m ++ map_of (p # objs)"
    using Cons.prems(1) p map_add_cons [of k objs m o1] by simp
  with Cons.IH [OF _ _ indices_ok_rebuild [OF Cons.prems(2,3), of k o1]] Cons.prems(1,2) show ?case
    by (simp add: p del: fun_upd_apply)
qed

lemma distinct_admit: "distinct (map fst objs) \<Longrightarrow> distinct (map fst (inf_admit cfg item objs))"
  by (auto simp: inf_admit_def split: runtime_object.split sum.split)

lemma distinct_admits: "distinct (map fst objs) \<Longrightarrow> distinct (map fst (fold (inf_admit cfg) items objs))"
  by (induction items arbitrary: objs) (auto simp: distinct_admit)

lemma inf_wf_replaceAll:
  assumes "inf_wf i"
  shows "inf_wf (inf_replaceAll items i)"
proof -
  define new where "new = fold (inf_admit (i_config i)) items []"
  define cleared where "cleared = (\<lambda>name. map_option (\<lambda>_. Map.empty :: index) (i_indices i name))"
  have d: "distinct (map fst new)" "distinct (map fst (i_indexers i))"
    using assms by (simp_all add: new_def distinct_admits inf_wf_def)
  have "indices_ok (i_indexers i) Map.empty cleared"
    using assms by (fastforce simp: inf_wf_def indices_ok_def cleared_def index_for_empty)
  from indices_ok_rebuild_all [OF d this] d have "inf_wf (i\<lparr>i_objects := new,
      i_indices := fold (\<lambda>(k, o1). rebuildIndicesForObject (i_indexers i) k o1) new cleared\<rparr>)"
    by (simp add: inf_wf_def)
  then show ?thesis
    by (simp add: inf_replaceAll_def Let_def new_def cleared_def)
qed

lemma inf_wf_resync: "inf_wf i \<Longrightarrow> inf_wf (resyncInformer i)"
proof -
  have "resyncInformer i = fold (\<lambda>(k, e). inf_enqueue k e) (map (\<lambda>(k, o1). (k, update_event o1 o1)) (i_objects i)) i"
    by (simp add: resyncInformer_def fold_map comp_def case_prod_unfold)
  then show "inf_wf i \<Longrightarrow> inf_wf (resyncInformer i)" by simp
qed

lemma inf_wf_new: "inf_wf (newStoreInformer gvk cfg)"
  by (simp add: inf_wf_def newStoreInformer_def indices_ok_def)

section \<open>Looking up\<close>

definition req_hits :: "(string \<rightharpoonup> index) \<Rightarrow> Requirement \<Rightarrow> ObjectKey \<Rightarrow> bool" where
  "req_hits ixs r k \<longleftrightarrow>
     (\<exists>ix. ixs (req_Field r) = Some ix \<and> k \<in> set (ixkeys ix (req_Value r)))"

lemma lookup_requirements_spec:
  "case lookup_requirements ixs reqs acc of
     None \<Rightarrow> \<exists>r \<in> set reqs. req_Operator r = Op_Equals \<and> (\<forall>k. \<not> req_hits ixs r k)
   | Some None \<Rightarrow> acc = None \<and> (\<forall>r \<in> set reqs. req_Operator r \<noteq> Op_Equals)
   | Some (Some ks) \<Rightarrow>
       (\<forall>k. k \<in> set ks \<longleftrightarrow> (case acc of None \<Rightarrow> True | Some a \<Rightarrow> k \<in> set a) \<and>
          (\<forall>r \<in> set reqs. req_Operator r = Op_Equals \<longrightarrow> req_hits ixs r k)) \<and>
       ((case acc of None \<Rightarrow> True | Some a \<Rightarrow> distinct a) \<longrightarrow> distinct ks)"
proof (induction ixs reqs acc rule: lookup_requirements.induct)
  case (1 ixs acc)
  then show ?case by (auto split: option.split)
next
  case (2 ixs req reqs acc)
  consider "req_Operator req \<noteq> Op_Equals"
    | "req_Operator req = Op_Equals" "ixs (req_Field req) = None"
    | ix where "req_Operator req = Op_Equals" "ixs (req_Field req) = Some ix" "ix (req_Value req) = None"
    | ix keys where "req_Operator req = Op_Equals" "ixs (req_Field req) = Some ix" "ix (req_Value req) = Some keys"
    by fastforce
  then show ?case
  proof cases
    case 1
    with "2.IH"(1) show ?thesis by (auto split: option.splits)
  next
    case 2
    then show ?thesis by (auto simp: req_hits_def)
  next
    case 3
    then show ?thesis by (auto simp: req_hits_def ixkeys_def)
  next
    case (4 ix keys)
    then have hits: "req_hits ixs req k \<longleftrightarrow> k \<in> set keys" for k
      by (auto simp: req_hits_def ixkeys_def)
    show ?thesis
    proof (cases acc)
      case None
      with 4 "2.IH"(2) [of ix keys] hits show ?thesis by (auto split: option.splits)
    next
      case (Some a)
      with 4 "2.IH"(3) [of ix keys a] hits show ?thesis by (auto split: option.splits)
    qed
  qed
qed

lemma req_hits_wf:
  assumes "inf_wf i"
  shows "req_hits (i_indices i) r k \<longleftrightarrow>
    (\<exists>f o1. map_of (i_indexers i) (req_Field r) = Some f \<and> inf_view i k = Some o1 \<and> req_Value r \<in> set (f o1))"
proof (cases "map_of (i_indexers i) (req_Field r)")
  case None
  with assms show ?thesis by (auto simp: req_hits_def inf_wf_def indices_ok_def)
next
  case (Some f)
  then obtain ix where "i_indices i (req_Field r) = Some ix" "index_for f (inf_view i) ix"
    using assms unfolding inf_wf_def indices_ok_def by blast
  with Some show ?thesis by (auto simp: req_hits_def index_for_def)
qed

lemma set_map_filter: "set (List.map_filter f xs) = {y. \<exists>x \<in> set xs. f x = Some y}"
  by (force simp: List.map_filter_def)

lemma listFromIndex_set:
  assumes "inf_wf i"
  shows "set (listFromIndex i sel) =
    {o1. \<exists>k. inf_view i k = Some o1 \<and>
       (\<forall>r \<in> set (fsel_Requirements sel). req_Operator r = Op_Equals \<longrightarrow>
          (\<exists>f. map_of (i_indexers i) (req_Field r) = Some f \<and> req_Value r \<in> set (f o1)))}"
    (is "_ = ?R")
proof -
  let ?reqs = "fsel_Requirements sel" and ?ixs = "i_indices i"
  have R: "?R = {o1. \<exists>k. inf_view i k = Some o1 \<and>
      (\<forall>r \<in> set ?reqs. req_Operator r = Op_Equals \<longrightarrow> req_hits ?ixs r k)}"
    unfolding req_hits_wf [OF assms] by fastforce
  have d: "distinct (map fst (i_objects i))" using assms by (simp add: inf_wf_def)
  note spec = lookup_requirements_spec [where ixs = ?ixs and reqs = ?reqs and acc = None]
  show ?thesis
  proof (cases "lookup_requirements ?ixs ?reqs None")
    case None
    with spec have "?R = {}" unfolding R by auto
    with None show ?thesis by (simp add: listFromIndex_def)
  next
    case (Some acc)
    show ?thesis
    proof (cases acc)
      case None
      with Some spec have "?R = {o1. \<exists>k. inf_view i k = Some o1}" unfolding R by auto
      also have "\<dots> = snd ` set (i_objects i)"
        using set_map_of [OF d] by (force simp: image_iff)
      finally show ?thesis using Some None by (simp add: listFromIndex_def)
    next
      case ks: (Some ks)
      with Some spec have "?R = {o1. \<exists>k \<in> set ks. inf_view i k = Some o1}" unfolding R by auto
      then show ?thesis using Some ks by (simp add: listFromIndex_def set_map_filter)
    qed
  qed
qed

section \<open>Runs of an informer\<close>

datatype inf_op =
    InfEvent Event
  | InfReplaceAll "runtime_object list"
  | InfAddIndexer string IndexerFunc
  | InfAddIndexers "(string \<times> (object \<Rightarrow> error + string list)) list"
  | InfResync
  | InfProcess

fun inf_exec :: "inf_op \<Rightarrow> storeInformer \<Rightarrow> storeInformer" where
  "inf_exec (InfEvent e) i = inf_event e i"
| "inf_exec (InfReplaceAll items) i = inf_replaceAll items i"
| "inf_exec (InfAddIndexer name f) i = inf_addIndexer name f i"
| "inf_exec (InfAddIndexers fs) i = inf_AddIndexers fs i"
| "inf_exec InfResync i = resyncInformer i"
| "inf_exec InfProcess i = fst (inf_processOnce i)"

lemma inf_processOnce_frame [simp]:
  "i_objects (fst (inf_processOnce i)) = i_objects i" "i_indexers (fst (inf_processOnce i)) = i_indexers i"
  "i_indices (fst (inf_processOnce i)) = i_indices i" "i_config (fst (inf_processOnce i)) = i_config i"
  by (simp_all add: inf_processOnce_def split: prod.split drain_outcome.split)

lemma inf_wf_exec: "inf_wf i \<Longrightarrow> inf_wf (inf_exec op i)"
proof (cases op)
  case InfProcess
  then show "inf_wf i \<Longrightarrow> inf_wf (inf_exec op i)" by (simp add: inf_wf_def)
qed (simp_all add: inf_wf_event inf_wf_replaceAll inf_wf_addIndexer inf_wf_AddIndexers inf_wf_resync)

lemma inf_wf_run: "inf_wf i \<Longrightarrow> inf_wf (fold inf_exec ops i)"
  by (induction ops arbitrary: i) (simp_all add: inf_wf_exec)

text \<open>
  C15. Whatever an informer goes through (watch events, relists, new indexers, resyncs, processing),
  a list with a field selector through the index returns exactly the cached objects
  that satisfy every equality requirement of the selector, as a scan with the indexers would find
  them, and nothing at all when a required field has no index. Requirements with another operator
  are ignored.
\<close>

theorem informer_index_equals_scan:
  assumes "i = fold inf_exec ops (newStoreInformer gvk cfg)"
  shows "set (listFromIndex i sel) =
    {o1. \<exists>k. inf_view i k = Some o1 \<and>
       (\<forall>r \<in> set (fsel_Requirements sel). req_Operator r = Op_Equals \<longrightarrow>
          (\<exists>f. map_of (i_indexers i) (req_Field r) = Some f \<and> req_Value r \<in> set (f o1)))}"
  unfolding assms by (rule listFromIndex_set [OF inf_wf_run [OF inf_wf_new]])

definition name_indexer :: IndexerFunc where
  "name_indexer o1 = [Name (Meta o1)]"

definition plainConfig :: informerConfig where
  "plainConfig = \<lparr>ic_transform = None, ic_unsafeDisableDeepCopy = False, ic_labelSelector = None,
     ic_fieldSelector = None, ic_enableWatchBookmarks = None, ic_namespaces = None, ic_syncPeriod = None\<rparr>"

text \<open>Witness of C15: one object, indexed by name before it arrives, is found by its name.\<close>

theorem informer_index_equals_scan_witness:
  "let i = fold inf_exec [InfAddIndexer ''name'' name_indexer, InfEvent \<lparr>ev_Type = EventAdded, ev_Object = a0\<rparr>]
             (newStoreInformer gvk0 plainConfig);
       sel = \<lparr>fsel_Matches = (\<lambda>_. True),
              fsel_Requirements = [\<lparr>req_Operator = Op_Equals, req_Field = ''name'', req_Value = ''a''\<rparr>]\<rparr>
   in set (listFromIndex i sel) = {a0}"
proof -
  let ?i = "fold inf_exec [InfAddIndexer ''name'' name_indexer, InfEvent \<lparr>ev_Type = EventAdded, ev_Object = a0\<rparr>]
             (newStoreInformer gvk0 plainConfig)"
  have i: "i_objects ?i = [(k0, a0)]" "i_indexers ?i = [(''name'', name_indexer)]"
    by (simp_all add: inf_event_def inf_add_def matchesSelectors_def applyTransform_def plainConfig_def
        newStoreInformer_def inf_addIndexer_def inf_put_def k0_def Let_def)
  have "Name (Meta a0) = ''a''" by (simp add: a0_def)
  then show ?thesis
    unfolding Let_def informer_index_equals_scan [OF refl] i by (auto simp: name_indexer_def)
qed

end
