(* ===== verification/Informer_Follow.thy ===== *)
theory Informer_Follow
  imports Informer_Index
begin

text \<open>
  Two things an informer promises: its handlers end with the picture that the cache has, and the
  cache follows the store. The first is about the queue between cache and handlers, the second about
  the resource version guards of \<open>add\<close>, \<open>update\<close> and \<open>delete\<close>.
\<close>

section \<open>Resource versions\<close>

lemma newerResourceVersion_FormatInt [simp]:
  "is_int64 a \<Longrightarrow> is_int64 b \<Longrightarrow> newerResourceVersion (FormatInt a) (FormatInt b) \<longleftrightarrow> a > b"
  by (simp add: newerResourceVersion_def)

lemma rv_less_newer: "rv_less a b \<Longrightarrow> newerResourceVersion b a"
  by (auto simp: rv_less_def)

section \<open>Handlers and cache\<close>

text \<open>
  \<open>inf_coherent m i\<close>: the handlers have the picture \<open>m\<close>, and the pending events turn it into the
  cached objects.
\<close>

definition inf_coherent :: "view \<Rightarrow> storeInformer \<Rightarrow> bool" where
  "inf_coherent m i \<longleftrightarrow> queue_inv (i_queue i, m) (inf_view i)"

lemma inf_put_simps [simp]:
  "inf_view (inf_put k o1 i) = (inf_view i)(k \<mapsto> o1)" "i_queue (inf_put k o1 i) = i_queue i"
  "i_config (inf_put k o1 i) = i_config i"
  by (simp_all add: inf_put_def)

lemma inf_drop_simps [simp]:
  "inf_view (inf_drop k i) = (inf_view i)(k := None)" "i_queue (inf_drop k i) = i_queue i"
  "i_config (inf_drop k i) = i_config i"
  by (simp_all add: inf_drop_def)

lemma inf_put_enqueue_coherent:
  assumes "inf_coherent m i" and "ce_proper (inf_view i k) e" and "ce_apply e (inf_view i k) = Some o1"
  shows "inf_coherent m (inf_enqueue k e (inf_put k o1 i))"
  using queue_inv_enqueue [of "i_queue i" m "inf_view i" k e] assms
  by (simp add: inf_coherent_def del: fun_upd_apply)

lemma inf_drop_enqueue_coherent:
  assumes "inf_coherent m i" and "inf_view i k = Some o1"
  shows "inf_coherent m (inf_enqueue k (delete_event o1) (inf_drop k i))"
  using queue_inv_enqueue [of "i_queue i" m "inf_view i" k "delete_event o1"] assms
  by (simp add: inf_coherent_def ce_proper_def ce_apply_def delete_event_def del: fun_upd_apply)

lemmas ce_defs = ce_proper_def ce_apply_def add_event_def update_event_def delete_event_def

text \<open>An \<open>ADDED\<close> event is only proper for an object that is not cached.\<close>

definition inf_event_proper :: "Event \<Rightarrow> storeInformer \<Rightarrow> bool" where
  "inf_event_proper e i \<longleftrightarrow>
     (ev_Type e = EventAdded \<longrightarrow>
      (\<forall>t. applyTransform (i_config i) (ev_Object e) = Inr t \<longrightarrow> inf_view i (ObjectKeyFromObject t) = None))"

lemma inf_add_coherent:
  assumes "inf_coherent m i"
    and "\<forall>t. applyTransform (i_config i) o1 = Inr t \<longrightarrow> inf_view i (ObjectKeyFromObject t) = None"
  shows "inf_coherent m (inf_add o1 i)"
  using assms inf_put_enqueue_coherent
  by (simp add: inf_add_def Let_def ce_defs split: sum.split)

lemma inf_update_coherent:
  assumes "inf_coherent m i"
  shows "inf_coherent m (inf_update o1 i)"
  using assms inf_put_enqueue_coherent inf_drop_enqueue_coherent
  by (simp add: inf_update_def Let_def ce_defs split: sum.split option.split)

lemma inf_delete_coherent:
  assumes "inf_coherent m i"
  shows "inf_coherent m (inf_delete o1 i)"
  using assms inf_drop_enqueue_coherent by (simp add: inf_delete_def Let_def split: option.split)

lemma inf_event_coherent:
  "inf_coherent m i \<Longrightarrow> inf_event_proper e i \<Longrightarrow> inf_coherent m (inf_event e i)"
  by (simp add: inf_event_def inf_event_proper_def inf_add_coherent inf_update_coherent inf_delete_coherent
      split: EventType.split)

section \<open>Batches of events on different keys\<close>

definition enqueues :: "(ObjectKey \<times> cacheEvent) list \<Rightarrow> queue_op list" where
  "enqueues es = map (\<lambda>(k, e). Enqueue k e) es"

lemma produced_enqueues:
  assumes "distinct (map fst es)"
  shows "produced (enqueues es) m = (\<lambda>k. case map_of es k of None \<Rightarrow> m k | Some e \<Rightarrow> ce_apply e (m k))"
  using assms unfolding enqueues_def
proof (induction es arbitrary: m)
  case Nil
  then show ?case by simp
next
  case (Cons p es)
  obtain k e where p: "p = (k, e)" by fastforce
  with Cons.prems have "map_of es k = None" by (simp add: map_of_fresh)
  with Cons p show ?case by (auto simp: fun_eq_iff split: option.split)
qed

lemma proper_enqueues:
  assumes "distinct (map fst es)" and "\<forall>(k, e) \<in> set es. ce_proper (m k) e"
  shows "proper_ops (enqueues es) m"
  using assms unfolding enqueues_def
proof (induction es arbitrary: m)
  case Nil
  then show ?case by simp
next
  case (Cons p es)
  obtain k e where p: "p = (k, e)" by fastforce
  with Cons.prems have "\<forall>(k', e') \<in> set es. ce_proper ((m(k := ce_apply e (m k))) k') e'"
    by (fastforce simp: image_iff)
  with Cons p show ?case by simp
qed

lemma queue_execs_enqueues: "snd (queue_execs (enqueues es) (q, m)) = m"
  by (induction es arbitrary: q) (simp_all add: enqueues_def case_prod_unfold)

lemma fold_inf_enqueue:
  "i_queue (fold (\<lambda>(k, e). inf_enqueue k e) es i) = fst (queue_execs (enqueues es) (i_queue i, m))"
  "i_objects (fold (\<lambda>(k, e). inf_enqueue k e) es i) = i_objects i"
  "i_config (fold (\<lambda>(k, e). inf_enqueue k e) es i) = i_config i"
  by (induction es arbitrary: i) (simp_all add: enqueues_def case_prod_unfold)

lemma inf_enqueues_coherent:
  assumes "queue_inv (i_queue i, m) t" and "distinct (map fst es)" and "\<forall>(k, e) \<in> set es. ce_proper (t k) e"
    and "inf_view i = (\<lambda>k. case map_of es k of None \<Rightarrow> t k | Some e \<Rightarrow> ce_apply e (t k))"
  shows "inf_coherent m (fold (\<lambda>(k, e). inf_enqueue k e) es i)"
proof -
  have "queue_inv (queue_execs (enqueues es) (i_queue i, m)) (produced (enqueues es) t)"
    using assms(1) proper_enqueues [OF assms(2,3)] by (rule queue_inv_execs)
  moreover have "queue_execs (enqueues es) (i_queue i, m) =
      (i_queue (fold (\<lambda>(k, e). inf_enqueue k e) es i), m)"
    using fold_inf_enqueue(1) [of es i m] queue_execs_enqueues by (simp add: prod_eq_iff)
  ultimately show ?thesis
    unfolding inf_coherent_def fold_inf_enqueue(2) assms(4) produced_enqueues [OF assms(2)] by simp
qed

lemma resync_coherent:
  assumes "inf_coherent m i" and "inf_wf i"
  shows "inf_coherent m (resyncInformer i)"
proof -
  let ?es = "map (\<lambda>(k, o1). (k, update_event o1 o1)) (i_objects i)"
  have d: "distinct (map fst (i_objects i))" using assms(2) by (simp add: inf_wf_def)
  have m: "map_of ?es k = map_option (\<lambda>o1. update_event o1 o1) (inf_view i k)" for k
    by (induction "i_objects i" arbitrary: i) (auto simp: map_of_map)
  have "resyncInformer i = fold (\<lambda>(k, e). inf_enqueue k e) ?es i"
    by (simp add: resyncInformer_def fold_map comp_def case_prod_unfold)
  moreover have "inf_coherent m (fold (\<lambda>(k, e). inf_enqueue k e) ?es i)"
  proof (rule inf_enqueues_coherent)
    show "queue_inv (i_queue i, m) (inf_view i)" using assms(1) by (simp add: inf_coherent_def)
    show "distinct (map fst ?es)" using d by (simp add: comp_def case_prod_unfold)
    show "\<forall>(k, e) \<in> set ?es. ce_proper (inf_view i k) e"
      using set_map_of [OF d] by (auto simp: ce_defs)
    show "inf_view i = (\<lambda>k. case map_of ?es k of None \<Rightarrow> inf_view i k | Some e \<Rightarrow> ce_apply e (inf_view i k))"
      unfolding m by (auto simp: fun_eq_iff ce_defs split: option.split)
  qed
  ultimately show ?thesis by simp
qed

text \<open>
  \<open>replaceAll\<close> compares resource versions only: it tells the handlers nothing about an object whose
  version is the same before and after, so such an object must not have changed.
\<close>

definition rv_faithful :: "view \<Rightarrow> view \<Rightarrow> bool" where
  "rv_faithful old new \<longleftrightarrow>
     (\<forall>k a b. old k = Some a \<longrightarrow> new k = Some b \<longrightarrow> GetResourceVersion a = GetResourceVersion b \<longrightarrow> a = b)"

definition inf_admitted :: "informerConfig \<Rightarrow> runtime_object list \<Rightarrow> (ObjectKey, object) gomap" where
  "inf_admitted cfg items = fold (inf_admit cfg) items []"

lemma distinct_inf_admitted: "distinct (map fst (inf_admitted cfg items))"
  by (simp add: inf_admitted_def distinct_admits)

lemma map_of_replace_deletes:
  assumes "distinct (map fst old)"
  shows "map_of (replace_deletes old new) k =
    (if map_of new k = None then map_option delete_event (map_of old k) else None)"
  using assms unfolding replace_deletes_def
  by (induction old) (auto simp: map_of_fresh)

definition upsert_event :: "object option \<Rightarrow> object \<Rightarrow> cacheEvent option" where
  "upsert_event old o1 =
     (case old of
        None \<Rightarrow> Some ((add_event o1)\<lparr>ce_isInInitialList := True\<rparr>)
      | Some oldObj \<Rightarrow>
          if GetResourceVersion oldObj \<noteq> GetResourceVersion o1 then Some (update_event oldObj o1) else None)"

lemma replace_upserts_Cons:
  "replace_upserts old ((k, o1) # new) =
   (case upsert_event (map_of old k) o1 of None \<Rightarrow> [] | Some e \<Rightarrow> [(k, e)]) @ replace_upserts old new"
  by (simp add: replace_upserts_def upsert_event_def List.map_filter_simps split: option.split)

lemma keys_replace_upserts: "keys_of (replace_upserts old new) \<subseteq> keys_of new"
proof (induction new)
  case Nil
  then show ?case by (simp add: replace_upserts_def List.map_filter_simps)
next
  case (Cons p new)
  then show ?case by (cases p) (auto simp: replace_upserts_Cons split: option.splits)
qed

lemma map_of_replace_upserts:
  assumes "distinct (map fst new)"
  shows "distinct (map fst (replace_upserts old new)) \<and>
    map_of (replace_upserts old new) k = Option.bind (map_of new k) (upsert_event (map_of old k))"
  using assms
proof (induction new)
  case Nil
  then show ?case by (simp add: replace_upserts_def List.map_filter_simps)
next
  case (Cons p new)
  obtain k' o1 where p: "p = (k', o1)" by fastforce
  with Cons.prems have "k' \<notin> keys_of (replace_upserts old new)"
    using keys_replace_upserts [of old new] by auto
  with Cons p show ?case
    by (auto simp: replace_upserts_Cons map_of_fresh split: option.split)
qed

lemma replaceAll_coherent:
  assumes co: "inf_coherent m i" and wf: "inf_wf i"
    and rv: "rv_faithful (inf_view i) (map_of (inf_admitted (i_config i) items))"
  shows "inf_coherent m (inf_replaceAll items i)"
proof -
  let ?old = "i_objects i" and ?new = "inf_admitted (i_config i) items"
  let ?es = "replace_deletes ?old ?new @ replace_upserts ?old ?new"
  define ixs where "ixs = fold (\<lambda>(key, obj). rebuildIndicesForObject (i_indexers i) key obj) ?new
    (\<lambda>name. map_option (\<lambda>_. Map.empty) (i_indices i name))"
  let ?i1 = "i\<lparr>i_objects := ?new, i_indices := ixs\<rparr>"
  have old: "distinct (map fst ?old)" using wf by (simp add: inf_wf_def)
  note new = distinct_inf_admitted [of "i_config i" items]
  note ups = map_of_replace_upserts [OF new, of ?old]
  have dels: "distinct (map fst (replace_deletes ?old ?new))"
    using old by (simp add: replace_deletes_def comp_def case_prod_unfold distinct_map_filter)
  have "keys_of (replace_deletes ?old ?new) \<inter> keys_of ?new = {}"
    by (auto simp: replace_deletes_def map_of_eq_None_iff image_iff)
  moreover have "distinct (map fst (replace_upserts ?old ?new))" using ups by blast
  ultimately have d: "distinct (map fst ?es)"
    using dels keys_replace_upserts [of ?old ?new]
    unfolding map_append distinct_append set_map by blast
  have es: "map_of ?es k = (case map_of ?new k of
      None \<Rightarrow> map_option delete_event (inf_view i k)
    | Some o1 \<Rightarrow> upsert_event (inf_view i k) o1)" for k
    using ups by (simp add: map_of_append map_add_def map_of_replace_deletes [OF old] split: option.split)
  have "ce_proper (inf_view i k) e" if "(k, e) \<in> set ?es" for k e
  proof -
    have "map_of ?es k = Some e" using that set_map_of [OF d] by blast
    then show ?thesis
      unfolding es by (auto simp: upsert_event_def ce_defs split: option.splits if_splits)
  qed
  then have "\<forall>(k, e) \<in> set ?es. ce_proper (inf_view i k) e" by blast
  moreover have "inf_view ?i1 = (\<lambda>k. case map_of ?es k of None \<Rightarrow> inf_view i k | Some e \<Rightarrow> ce_apply e (inf_view i k))"
    unfolding es using rv
    by (auto simp: fun_eq_iff rv_faithful_def upsert_event_def ce_defs split: option.splits)
  ultimately have "inf_coherent m (fold (\<lambda>(k, e). inf_enqueue k e) ?es ?i1)"
    using co d by (intro inf_enqueues_coherent [of _ _ "inf_view i"]) (simp_all add: inf_coherent_def)
  then show ?thesis
    by (simp add: inf_replaceAll_def Let_def inf_admitted_def ixs_def)
qed

section \<open>Runs with handlers\<close>

text \<open>A turn of \<open>processEvents\<close> is a drain whose batch the handlers see.\<close>

fun inf_exec_seen :: "inf_op \<Rightarrow> storeInformer \<times> view \<Rightarrow> storeInformer \<times> view" where
  "inf_exec_seen InfProcess (i, m) = (fst (inf_processOnce i), snd (queue_exec Drain (i_queue i, m)))"
| "inf_exec_seen op (i, m) = (inf_exec op i, m)"

fun inf_op_proper :: "inf_op \<Rightarrow> storeInformer \<Rightarrow> bool" where
  "inf_op_proper (InfEvent e) i = inf_event_proper e i"
| "inf_op_proper (InfReplaceAll items) i = rv_faithful (inf_view i) (map_of (inf_admitted (i_config i) items))"
| "inf_op_proper _ i = True"

fun inf_run_seen :: "inf_op list \<Rightarrow> storeInformer \<times> view \<Rightarrow> storeInformer \<times> view" where
  "inf_run_seen [] c = c"
| "inf_run_seen (op # ops) c = inf_run_seen ops (inf_exec_seen op c)"

fun inf_run_proper :: "inf_op list \<Rightarrow> storeInformer \<Rightarrow> bool" where
  "inf_run_proper [] i = True"
| "inf_run_proper (op # ops) i = (inf_op_proper op i \<and> inf_run_proper ops (inf_exec op i))"

lemma inf_processOnce_queue: "i_queue (fst (inf_processOnce i)) = fst (queue_exec Drain (i_queue i, m))"
proof -
  have "snd (drain (i_queue i)) = DrainWaits \<or> snd (drain (i_queue i)) = DrainNil \<Longrightarrow> fst (drain (i_queue i)) = i_queue i"
    by (auto simp: drain_def split: if_splits)
  then show ?thesis
    by (cases "drain (i_queue i)"; cases "snd (drain (i_queue i))") (auto simp: inf_processOnce_def)
qed

lemma process_coherent:
  assumes "inf_coherent m i"
  shows "inf_coherent (snd (queue_exec Drain (i_queue i, m))) (fst (inf_processOnce i))"
    and "snd (queue_exec Drain (i_queue i, m)) = inf_view i"
proof -
  note d = queue_inv_drain [OF assms [unfolded inf_coherent_def]]
  then show "snd (queue_exec Drain (i_queue i, m)) = inf_view i" by blast
  have "queue_exec Drain (i_queue i, m) =
      (i_queue (fst (inf_processOnce i)), snd (queue_exec Drain (i_queue i, m)))"
    by (simp add: inf_processOnce_queue [of i m] prod_eq_iff)
  with d show "inf_coherent (snd (queue_exec Drain (i_queue i, m))) (fst (inf_processOnce i))"
    unfolding inf_coherent_def inf_processOnce_frame by simp
qed

lemma addIndexer_coherent [simp]: "inf_coherent m (inf_addIndexer n f i) = inf_coherent m i"
  by (simp add: inf_coherent_def inf_addIndexer_def)

lemma AddIndexers_coherent: "inf_coherent m i \<Longrightarrow> inf_coherent m (inf_AddIndexers fs i)"
  unfolding inf_AddIndexers_def by (induction fs arbitrary: i) (simp_all add: case_prod_unfold)

lemma inf_exec_coherent:
  assumes "inf_coherent m i" and "inf_wf i" and "inf_op_proper op i"
  shows "inf_coherent (snd (inf_exec_seen op (i, m))) (inf_exec op i)"
    and "fst (inf_exec_seen op (i, m)) = inf_exec op i"
  using assms process_coherent(1)
  by (cases op; simp add: inf_event_coherent replaceAll_coherent AddIndexers_coherent resync_coherent)+

lemma inf_run_coherent:
  assumes "inf_coherent m i" and "inf_wf i" and "inf_run_proper ops i"
  shows "fst (inf_run_seen ops (i, m)) = fold inf_exec ops i \<and>
    inf_coherent (snd (inf_run_seen ops (i, m))) (fold inf_exec ops i)"
  using assms
proof (induction ops arbitrary: i m)
  case Nil
  then show ?case by simp
next
  case (Cons op ops)
  obtain i' m' where c: "inf_exec_seen op (i, m) = (i', m')" by fastforce
  have "i' = inf_exec op i" "inf_coherent m' i'"
    using inf_exec_coherent [of m i op] Cons.prems c by simp_all
  with Cons.IH [of m' i'] Cons.prems c inf_wf_exec show ?case by simp
qed

lemma new_coherent: "inf_coherent Map.empty (newStoreInformer gvk cfg)"
  by (simp add: inf_coherent_def queue_inv_def newStoreInformer_def)


text \<open>Witness of C16: an object is added, processed, modified, resynced and deleted again.\<close>

definition witness_ops :: "inf_op list" where
  "witness_ops = [InfEvent \<lparr>ev_Type = EventAdded, ev_Object = a0\<rparr>, InfProcess,
     InfEvent \<lparr>ev_Type = EventModified, ev_Object = b0\<rparr>, InfResync]"


text \<open>
  The proviso on \<open>ADDED\<close> matters. If a store reports an object as added that the cache already
  has (as one that recreates an object between two polls may) and then as deleted before the queue is
  drained, the two events cancel out: the cache is empty, the queue has nothing to deliver, and the
  handlers keep the object for good.
\<close>

theorem informer_readd_loses_delete:
  "let (i, m) = inf_run_seen [InfEvent \<lparr>ev_Type = EventAdded, ev_Object = a0\<rparr>, InfProcess,
         InfEvent \<lparr>ev_Type = EventAdded, ev_Object = b0\<rparr>, InfEvent \<lparr>ev_Type = EventDeleted, ev_Object = b0\<rparr>]
       (newStoreInformer gvk0 plainConfig, Map.empty)
   in inf_view i k0 = None \<and> m k0 = Some a0 \<and> snd (drain (i_queue i)) = DrainWaits"
proof -
  have k: "ObjectKeyFromObject a0 = k0" "ObjectKeyFromObject b0 = k0"
    by (simp_all add: k0_def b0_def)
  have newer: "newerResourceVersion (GetResourceVersion b0) (GetResourceVersion a0)"
    by (simp add: newerResourceVersion_def a0_def b0_def ParseInt_def ParseUint_def digit_val_def upt_rec
        MaxInt64_def MinInt64_def)
  have "fmdrop k0 (fmupd k0 es fmempty) = fmempty" for es :: "cacheEvent list"
    by (rule fmap_ext) simp
  then show ?thesis
    by (simp add: inf_event_def inf_add_def inf_delete_def newStoreInformer_def plainConfig_def matchesSelectors_def
        applyTransform_def k newer Let_def inf_put_def inf_drop_def inf_enqueue_def newEventQueue_def
        enqueue_def drain_def inf_processOnce_def see_def coalesceEvents_def add_event_def delete_event_def ce_apply_def)
qed

section \<open>The cache follows the store\<close>

text \<open>What a cache with a given configuration should hold of a view.\<close>

definition project :: "informerConfig \<Rightarrow> view \<Rightarrow> view" where
  "project cfg v =
     (\<lambda>k. case v k of
        None \<Rightarrow> None
      | Some o1 \<Rightarrow>
          if matchesSelectors cfg o1
          then (case applyTransform cfg o1 of Inl _ \<Rightarrow> None | Inr t \<Rightarrow> Some t) else None)"

text \<open>A transform that succeeds and leaves the identity of the object alone.\<close>

definition tidy_transform :: "informerConfig \<Rightarrow> bool" where
  "tidy_transform cfg \<longleftrightarrow>
     (\<forall>o1. \<exists>t. applyTransform cfg o1 = Inr t \<and> ObjectKeyFromObject t = ObjectKeyFromObject o1 \<and>
        GetResourceVersion t = GetResourceVersion o1)"

lemma tidy_none: "ic_transform cfg = None \<Longrightarrow> tidy_transform cfg"
  by (simp add: tidy_transform_def applyTransform_def)

lemma tidy_strip: "ic_transform cfg = Some TransformStripManagedFields \<Longrightarrow> tidy_transform cfg"
  by (simp add: tidy_transform_def applyTransform_def TransformStripManagedFields_def ObjectKeyFromObject_def)

definition keyed :: "view \<Rightarrow> bool" where
  "keyed v \<longleftrightarrow> (\<forall>k o1. v k = Some o1 \<longrightarrow> ObjectKeyFromObject o1 = k)"

lemma keyed_apply_event: "keyed v \<Longrightarrow> keyed (apply_event e v)"
  by (auto simp: keyed_def apply_event.simps split: EventType.splits if_splits)

lemma project_upd:
  "project cfg (v(k \<mapsto> o1)) = (project cfg v)(k := if matchesSelectors cfg o1
     then (case applyTransform cfg o1 of Inl _ \<Rightarrow> None | Inr t \<Rightarrow> Some t) else None)"
  "project cfg (v(k := None)) = (project cfg v)(k := None)"
  by (auto simp: project_def fun_eq_iff)

lemma project_empty [simp]: "project cfg Map.empty = Map.empty"
  by (simp add: project_def)

lemma inf_event_follows:
  assumes "inf_view i = project (i_config i) v" and "tidy_transform (i_config i)" and "event_ok v e"
  shows "inf_view (inf_event e i) = project (i_config i) (apply_event e v)"
proof -
  let ?cfg = "i_config i" and ?o = "ev_Object e"
  let ?k = "ObjectKeyFromObject ?o"
  obtain t where t: "applyTransform ?cfg ?o = Inr t" "ObjectKeyFromObject t = ?k"
      "GetResourceVersion t = GetResourceVersion ?o"
    using assms(2) unfolding tidy_transform_def by blast
  show ?thesis
  proof (cases "ev_Type e")
    case EventAdded
    then have "v ?k = None" using assms(3) by (simp add: event_ok_def)
    then have "project ?cfg v ?k = None" by (simp add: project_def)
    with assms(1) t EventAdded show ?thesis
      by (simp add: inf_event_def inf_add_def apply_event.simps project_upd Let_def fun_upd_idem del: fun_upd_apply)
  next
    case EventModified
    then obtain old where old: "v ?k = Some old" "rv_less (GetResourceVersion old) (GetResourceVersion ?o)"
      using assms(3) by (auto simp: event_ok_def)
    obtain t' where t': "applyTransform ?cfg old = Inr t'" "GetResourceVersion t' = GetResourceVersion old"
      using assms(2) unfolding tidy_transform_def by blast
    have newer: "newerResourceVersion (GetResourceVersion ?o) (GetResourceVersion t')"
      using old(2) t'(2) by (simp add: rv_less_newer)
    have "project ?cfg v ?k = (if matchesSelectors ?cfg old then Some t' else None)"
      using old t' by (simp add: project_def)
    with assms(1) t newer EventModified show ?thesis
      by (cases "matchesSelectors ?cfg old")
        (simp_all add: inf_event_def inf_update_def apply_event.simps project_upd Let_def fun_upd_idem del: fun_upd_apply)
  next
    case EventDeleted
    with assms(1) show ?thesis
      by (cases "project ?cfg v ?k")
        (simp_all add: inf_event_def inf_delete_def apply_event.simps project_upd Let_def fun_upd_idem del: fun_upd_apply)
  next
    case EventBookmark
    with assms(1) show ?thesis by (simp add: inf_event_def apply_event.simps)
  qed
qed

lemma inf_event_config [simp]: "i_config (inf_event e i) = i_config i"
  by (simp add: inf_event_def inf_add_def inf_update_def inf_delete_def Let_def
      split: EventType.split sum.split option.split)

lemma inf_events_follow:
  assumes "inf_view i = project (i_config i) v" and "tidy_transform (i_config i)" and "valid_events v es"
  shows "inf_view (fold inf_event es i) = project (i_config i) (apply_events es v) \<and>
    i_config (fold inf_event es i) = i_config i"
  using assms
proof (induction es arbitrary: i v)
  case Nil
  then show ?case by simp
next
  case (Cons e es)
  with Cons.IH [of "inf_event e i" "apply_event e v"] inf_event_follows [of i v e] show ?case
    by simp
qed

text \<open>The stream of a truthful store never re-adds, so its handlers are told everything.\<close>

lemma valid_events_proper:
  assumes "inf_view i = project (i_config i) v" and "tidy_transform (i_config i)" and "event_ok v e"
  shows "inf_event_proper e i"
  unfolding inf_event_proper_def
proof (intro impI allI)
  fix t
  assume "ev_Type e = EventAdded" and t: "applyTransform (i_config i) (ev_Object e) = Inr t"
  then have "v (ObjectKeyFromObject (ev_Object e)) = None" using assms(3) by (simp add: event_ok_def)
  moreover have "ObjectKeyFromObject t = ObjectKeyFromObject (ev_Object e)"
    using assms(2) t unfolding tidy_transform_def by (metis sum.inject(2))
  ultimately show "inf_view i (ObjectKeyFromObject t) = None"
    by (simp add: assms(1) project_def)
qed

end
