(* ===== verification/Cache.thy ===== *)
theory Cache
  imports Informer_Follow
begin

text \<open>
  The cache of \<open>cache.go\<close>: its options, the map of informers, and the goroutine that keeps an
  informer up to date (\<open>startInformer\<close>, \<open>watchInformer\<close>, \<open>relistInformer\<close>). Informers are
  shared by pointer between the map and the goroutines, so they live in a heap (\<open>c_heap\<close>). The
  store behind the cache is any record of type \<open>Store\<close>. A context is represented by whether it is
  done; where the code waits on several channels, the branch taken is an argument of the step.
\<close>

section \<open>Options\<close>

record ByObjectConfig =
  bo_Transform :: "TransformFunc option"
  bo_UnsafeDisableDeepCopy :: "bool option"
  bo_Label :: "label_selector option"
  bo_Field :: "field_selector option"
  bo_EnableWatchBookmarks :: "bool option"

record cacheOptions =
  co_defaultTransform :: "TransformFunc option"
  co_defaultUnsafeDisableDeepCopy :: bool
  co_defaultLabelSelector :: "label_selector option"
  co_defaultFieldSelector :: "field_selector option"
  co_defaultEnableWatchBookmarks :: "bool option"
  co_defaultNamespaces :: "string list option"
  co_byObject :: "(object \<times> ByObjectConfig) list"
  co_readerFailOnMissingInformer :: bool
  co_syncPeriod :: "int option"

datatype CacheOption =
    WithDefaultTransform TransformFunc
  | WithDefaultUnsafeDisableDeepCopy bool
  | WithDefaultLabelSelector label_selector
  | WithDefaultFieldSelector field_selector
  | WithByObject object ByObjectConfig
  | WithReaderFailOnMissingInformer bool
  | WithSyncPeriod int
  | WithDefaultEnableWatchBookmarks bool
  | WithDefaultNamespaces "string list"

fun applyCacheOption :: "CacheOption \<Rightarrow> cacheOptions \<Rightarrow> cacheOptions" where
  "applyCacheOption (WithDefaultTransform f) co = co\<lparr>co_defaultTransform := Some f\<rparr>"
| "applyCacheOption (WithDefaultUnsafeDisableDeepCopy b) co = co\<lparr>co_defaultUnsafeDisableDeepCopy := b\<rparr>"
| "applyCacheOption (WithDefaultLabelSelector sel) co = co\<lparr>co_defaultLabelSelector := Some sel\<rparr>"
| "applyCacheOption (WithDefaultFieldSelector sel) co = co\<lparr>co_defaultFieldSelector := Some sel\<rparr>"
| "applyCacheOption (WithByObject obj config) co = co\<lparr>co_byObject := co_byObject co @ [(obj, config)]\<rparr>"
| "applyCacheOption (WithReaderFailOnMissingInformer b) co = co\<lparr>co_readerFailOnMissingInformer := b\<rparr>"
| "applyCacheOption (WithSyncPeriod d) co = co\<lparr>co_syncPeriod := Some d\<rparr>"
| "applyCacheOption (WithDefaultEnableWatchBookmarks b) co = co\<lparr>co_defaultEnableWatchBookmarks := Some b\<rparr>"
| "applyCacheOption (WithDefaultNamespaces nss) co = co\<lparr>co_defaultNamespaces := Some nss\<rparr>"

definition initialCacheOptions :: cacheOptions where
  "initialCacheOptions =
     \<lparr>co_defaultTransform = None, co_defaultUnsafeDisableDeepCopy = False, co_defaultLabelSelector = None,
      co_defaultFieldSelector = None, co_defaultEnableWatchBookmarks = None, co_defaultNamespaces = None,
      co_byObject = [], co_readerFailOnMissingInformer = True, co_syncPeriod = None\<rparr>"

definition orElse :: "'a option \<Rightarrow> 'a option \<Rightarrow> 'a option" where
  "orElse a b = (case a of None \<Rightarrow> b | Some x \<Rightarrow> Some x)"

definition byObjectInformerConfig :: "cacheOptions \<Rightarrow> ByObjectConfig \<Rightarrow> informerConfig" where
  "byObjectInformerConfig options config =
     \<lparr>ic_transform = orElse (bo_Transform config) (co_defaultTransform options),
      ic_unsafeDisableDeepCopy =
        (case bo_UnsafeDisableDeepCopy config of
           Some b \<Rightarrow> b | None \<Rightarrow> co_defaultUnsafeDisableDeepCopy options),
      ic_labelSelector = orElse (bo_Label config) (co_defaultLabelSelector options),
      ic_fieldSelector = orElse (bo_Field config) (co_defaultFieldSelector options),
      ic_enableWatchBookmarks = orElse (bo_EnableWatchBookmarks config) (co_defaultEnableWatchBookmarks options),
      ic_namespaces = co_defaultNamespaces options,
      ic_syncPeriod = co_syncPeriod options\<rparr>"

section \<open>State\<close>

record storeCache =
  c_informers :: "(GroupVersionKind, nat) gomap"
  c_heap :: "nat \<Rightarrow> storeInformer"
  c_nextInformer :: nat
  c_started :: bool
  c_synced :: "GroupVersionKind \<Rightarrow> bool"
  c_opts :: cacheOptions
  c_informerConfigs :: "GroupVersionKind \<rightharpoonup> informerConfig"

definition byObjectConfigs :: "apilib \<Rightarrow> cacheOptions \<Rightarrow> (GroupVersionKind \<rightharpoonup> informerConfig)" where
  "byObjectConfigs al options =
     fold (\<lambda>(obj, config) configs.
         case al_GVKForObject al (GoType obj) of
           Inl _ \<Rightarrow> configs
         | Inr gvk \<Rightarrow> configs(gvk \<mapsto> byObjectInformerConfig options config))
       (co_byObject options) Map.empty"

definition NewCache :: "apilib \<Rightarrow> CacheOption list \<Rightarrow> storeCache" where
  "NewCache al opts =
     (let options = fold applyCacheOption opts initialCacheOptions
      in \<lparr>c_informers = [], c_heap = (\<lambda>_. newStoreInformer \<lparr>Group = [], Version = [], Kind = []\<rparr> plainConfig),
          c_nextInformer = 0, c_started = False, c_synced = (\<lambda>_. False), c_opts = options,
          c_informerConfigs = byObjectConfigs al options\<rparr>)"

definition resolveConfig :: "storeCache \<Rightarrow> GroupVersionKind \<Rightarrow> informerConfig" where
  "resolveConfig c gvk =
     (case c_informerConfigs c gvk of
        Some cfg \<Rightarrow> cfg
      | None \<Rightarrow>
          \<lparr>ic_transform = co_defaultTransform (c_opts c),
           ic_unsafeDisableDeepCopy = co_defaultUnsafeDisableDeepCopy (c_opts c),
           ic_labelSelector = co_defaultLabelSelector (c_opts c),
           ic_fieldSelector = co_defaultFieldSelector (c_opts c),
           ic_enableWatchBookmarks = co_defaultEnableWatchBookmarks (c_opts c),
           ic_namespaces = co_defaultNamespaces (c_opts c),
           ic_syncPeriod = co_syncPeriod (c_opts c)\<rparr>)"

section \<open>Listing and watching\<close>

definition selectorOpts :: "informerConfig \<Rightarrow> ListOption list" where
  "selectorOpts cfg =
     (case ic_labelSelector cfg of None \<Rightarrow> [] | Some sel \<Rightarrow> [MatchingLabelsSelector sel]) @
     (case ic_fieldSelector cfg of None \<Rightarrow> [] | Some sel \<Rightarrow> [MatchingFieldsSelector sel])"

definition watchOpts :: "informerConfig \<Rightarrow> ListOption list" where
  "watchOpts cfg =
     selectorOpts cfg @
     (case ic_enableWatchBookmarks cfg of None \<Rightarrow> [] | Some b \<Rightarrow> [EnableWatchBookmarks b])"

text \<open>The goroutine \<open>watchInformer\<close>: its local variables and where it is.\<close>

datatype watch_phase = Dialing | Receiving watcher_id | BackingOff | Pausing | Returned

record watchLoop =
  wl_list :: object_list
  wl_lastRV :: int
  wl_backoff :: int
  wl_phase :: watch_phase

definition maxBackoff :: int where
  "maxBackoff = 30"

definition startWatchLoop :: "object_list \<Rightarrow> int \<Rightarrow> watchLoop" where
  "startWatchLoop lst rv = \<lparr>wl_list = lst, wl_lastRV = rv, wl_backoff = 1, wl_phase = Dialing\<rparr>"

fun isRevisionTooOld :: "error \<Rightarrow> bool" where
  "isRevisionTooOld (RevisionTooOldError _ _) = True"
| "isRevisionTooOld _ = False"

definition relistInformer ::
  "'s Store \<Rightarrow> apilib \<Rightarrow> 's \<Rightarrow> storeInformer \<Rightarrow> object_list \<Rightarrow> 's \<times> storeInformer \<times> object_list \<times> error option" where
  "relistInformer st al s i lst =
     (case st_List st s lst (selectorOpts (i_config i)) of
        (s', lst', Some e) \<Rightarrow> (s', i, lst', Some e)
      | (s', lst', None) \<Rightarrow>
          (case al_ExtractList al lst' of
             Inl e \<Rightarrow> (s', i, lst', Some e)
           | Inr items \<Rightarrow> (s', inf_replaceAll items i, lst', None)))"

text \<open>Which branch a wait takes: the context, the channel or timer of the code, or the sync ticker.\<close>

datatype watch_choice = CtxDone | Proceed | SyncTick

definition eventRV :: "int \<Rightarrow> Event \<Rightarrow> int" where
  "eventRV lastRV e =
     (case ParseInt (GetResourceVersion (ev_Object e)) of
        (rv, None) \<Rightarrow> (if rv > lastRV then rv else lastRV)
      | _ \<Rightarrow> lastRV)"

definition watch_dial ::
  "'s Store \<Rightarrow> apilib \<Rightarrow> 's \<times> storeInformer \<times> watchLoop \<Rightarrow> 's \<times> storeInformer \<times> watchLoop" where
  "watch_dial st al c =
     (case c of (s, i, w) \<Rightarrow>
        (case st_Watch st s (wl_list w) (WatchFromRevision (wl_lastRV w) # watchOpts (i_config i)) of
           (s1, Inr watcher) \<Rightarrow> (s1, inf_setWatcher watcher i, w\<lparr>wl_backoff := 1, wl_phase := Receiving watcher\<rparr>)
         | (s1, Inl err) \<Rightarrow>
             (if isRevisionTooOld err then
                (case relistInformer st al s1 i (wl_list w) of
                   (s2, i2, lst, Some _) \<Rightarrow> (s2, i2, w\<lparr>wl_list := lst, wl_phase := BackingOff\<rparr>)
                 | (s2, i2, lst, None) \<Rightarrow>
                     (s2, i2, w\<lparr>wl_list := lst, wl_lastRV := fst (ParseInt (ListResourceVersion lst)), wl_backoff := 1\<rparr>))
              else (s1, i, w\<lparr>wl_phase := BackingOff\<rparr>))))"

definition watch_receive ::
  "'s Store \<Rightarrow> watcher_id \<Rightarrow> 's \<times> storeInformer \<times> watchLoop \<Rightarrow> 's \<times> storeInformer \<times> watchLoop" where
  "watch_receive st watcher c =
     (case c of (s, i, w) \<Rightarrow>
        (case st_Recv st s watcher of
           (s1, Received e) \<Rightarrow> (s1, inf_event e i, w\<lparr>wl_lastRV := eventRV (wl_lastRV w) e\<rparr>)
         | (s1, ChanClosed) \<Rightarrow> (st_Stop st s1 watcher, i, w\<lparr>wl_phase := Pausing\<rparr>)
         | (s1, WouldBlock) \<Rightarrow> (s1, i, w)))"

definition watch_step ::
  "'s Store \<Rightarrow> apilib \<Rightarrow> watch_choice \<Rightarrow> 's \<times> storeInformer \<times> watchLoop \<Rightarrow> 's \<times> storeInformer \<times> watchLoop" where
  "watch_step st al ch c =
     (case c of (s, i, w) \<Rightarrow>
        (case (wl_phase w, ch) of
           (Returned, _) \<Rightarrow> c
         | (Receiving watcher, CtxDone) \<Rightarrow> (st_Stop st s watcher, i, w\<lparr>wl_phase := Returned\<rparr>)
         | (_, CtxDone) \<Rightarrow> (s, i, w\<lparr>wl_phase := Returned\<rparr>)
         | (Dialing, Proceed) \<Rightarrow> watch_dial st al c
         | (BackingOff, Proceed) \<Rightarrow>
             (s, i, w\<lparr>wl_backoff := min (wl_backoff w * 2) maxBackoff, wl_phase := Dialing\<rparr>)
         | (Pausing, Proceed) \<Rightarrow> (s, i, w\<lparr>wl_phase := Dialing\<rparr>)
         | (Receiving watcher, Proceed) \<Rightarrow> watch_receive st watcher c
         | (Receiving watcher, SyncTick) \<Rightarrow>
             (if (case ic_syncPeriod (i_config i) of None \<Rightarrow> False | Some d \<Rightarrow> d > 0)
              then (s, resyncInformer i, w) else c)
         | (_, SyncTick) \<Rightarrow> c))"

section \<open>Starting an informer\<close>

text \<open>
  \<open>startInformer\<close> up to \<open>go c.watchInformer(\<dots>)\<close>: the store, the informer and the goroutine it
  starts, or the error. The cache's \<open>synced\<close> entry is set exactly when there is no error.
\<close>

definition addItems :: "runtime_object list \<Rightarrow> storeInformer \<Rightarrow> storeInformer" where
  "addItems items i = fold (\<lambda>item i. case item of RObject obj \<Rightarrow> inf_add obj i | _ \<Rightarrow> i) items i"

definition startInformer ::
  "'s Store \<Rightarrow> scheme \<Rightarrow> apilib \<Rightarrow> 's \<Rightarrow> storeInformer \<Rightarrow> 's \<times> storeInformer \<times> (error + watchLoop)" where
  "startInformer st sch al s i =
     (case sch_New sch ((i_gvk i)\<lparr>Kind := Kind (i_gvk i) @ ''List''\<rparr>) of
        Inl e \<Rightarrow> (s, i, Inl e)
      | Inr (RObject _) \<Rightarrow> (s, i, Inl (Error ''object does not implement client.ObjectList''))
      | Inr (ROther _) \<Rightarrow> (s, i, Inl (Error ''object does not implement client.ObjectList''))
      | Inr (RList lst) \<Rightarrow>
          (case st_List st s lst (selectorOpts (i_config i)) of
             (s1, lst1, Some e) \<Rightarrow> (s1, i, Inl e)
           | (s1, lst1, None) \<Rightarrow>
               (case al_ExtractList al lst1 of
                  Inl e \<Rightarrow> (s1, i, Inl e)
                | Inr items \<Rightarrow>
                    (case inf_setSynced True (addItems items i) of
                       None \<Rightarrow> (s1, addItems items i, Inl (Panic ''close of closed channel''))
                     | Some i1 \<Rightarrow> (s1, i1, Inr (startWatchLoop lst1 (fst (ParseInt (ListResourceVersion lst1)))))))))"

end
