(* ===== verification/Cache_Ops.thy ===== *)
theory Cache_Ops
  imports Cache
begin

text \<open>
  The methods of \<open>storeCache\<close> (\<open>cache.go\<close>): the map of informers, their start and removal, the
  reads, and the wait for the first sync. The state is the cache together with the store behind it
  and the goroutines that the cache has started. Each method is taken to run alone with respect to
  the informer map, as its locks make it do except around the start of a new informer.
\<close>

section \<open>State\<close>

text \<open>
  \<open>cw_loops\<close>: the goroutine \<open>watchInformer\<close> of an informer; \<open>cw_processors\<close>: how many goroutines run
  \<open>processEvents\<close> for it; \<open>cw_ctxDone\<close>: whether the context of \<open>Start\<close> is done.
\<close>

record 's cacheWorld =
  cw_store :: 's
  cw_cache :: storeCache
  cw_loops :: "nat \<rightharpoonup> watchLoop"
  cw_processors :: "nat \<Rightarrow> nat"
  cw_ctxDone :: bool

definition newCacheWorld :: "'s \<Rightarrow> storeCache \<Rightarrow> 's cacheWorld" where
  "newCacheWorld s c = \<lparr>cw_store = s, cw_cache = c, cw_loops = Map.empty, cw_processors = (\<lambda>_. 0), cw_ctxDone = False\<rparr>"

definition c_setInformer :: "nat \<Rightarrow> storeInformer \<Rightarrow> storeCache \<Rightarrow> storeCache" where
  "c_setInformer n i c = c\<lparr>c_heap := (c_heap c)(n := i)\<rparr>"

definition c_removeFromMap :: "GroupVersionKind \<Rightarrow> storeCache \<Rightarrow> storeCache" where
  "c_removeFromMap gvk c = c\<lparr>c_informers := AList.delete gvk (c_informers c)\<rparr>"

section \<open>Starting\<close>

text \<open>\<open>startInformer\<close> on an informer of the cache: two goroutines, the \<open>synced\<close> entry, the error.\<close>

definition cache_startInformer ::
  "'s Store \<Rightarrow> scheme \<Rightarrow> apilib \<Rightarrow> nat \<Rightarrow> 's cacheWorld \<Rightarrow> 's cacheWorld \<times> error option" where
  "cache_startInformer st sch al n w =
     (let c = cw_cache w;
          w1 = w\<lparr>cw_processors := (cw_processors w)(n := Suc (cw_processors w n))\<rparr>
      in case startInformer st sch al (cw_store w) (c_heap c n) of
           (s, i, Inl e) \<Rightarrow> (w1\<lparr>cw_store := s, cw_cache := c_setInformer n i c\<rparr>, Some e)
         | (s, i, Inr loop) \<Rightarrow>
             (w1\<lparr>cw_store := s, cw_loops := (cw_loops w)(n \<mapsto> loop),
                 cw_cache := (c_setInformer n i c)\<lparr>c_synced := (c_synced c)(i_gvk i := True)\<rparr>\<rparr>, None))"

fun startAll ::
  "'s Store \<Rightarrow> scheme \<Rightarrow> apilib \<Rightarrow> nat list \<Rightarrow> 's cacheWorld \<Rightarrow> 's cacheWorld \<times> error option" where
  "startAll st sch al [] w = (w, None)"
| "startAll st sch al (n # ns) w =
     (case cache_startInformer st sch al n w of
        (w1, Some e) \<Rightarrow> (w1, Some e)
      | (w1, None) \<Rightarrow> startAll st sch al ns w1)"

text \<open>\<open>Start\<close> up to the wait for its context: a second call returns at once.\<close>

definition cache_Start :: "'s Store \<Rightarrow> scheme \<Rightarrow> apilib \<Rightarrow> 's cacheWorld \<Rightarrow> 's cacheWorld \<times> error option" where
  "cache_Start st sch al w =
     (let c = cw_cache w
      in if c_started c then (w, None)
         else startAll st sch al (map snd (c_informers c)) (w\<lparr>cw_cache := c\<lparr>c_started := True\<rparr>\<rparr>))"

section \<open>Informers\<close>

definition c_register :: "GroupVersionKind \<Rightarrow> storeCache \<Rightarrow> storeCache" where
  "c_register gvk c =
     c\<lparr>c_informers := AList.update gvk (c_nextInformer c) (c_informers c),
       c_heap := (c_heap c)(c_nextInformer c := newStoreInformer gvk (resolveConfig c gvk)),
       c_nextInformer := Suc (c_nextInformer c)\<rparr>"

definition getOrCreateInformer ::
  "'s Store \<Rightarrow> scheme \<Rightarrow> apilib \<Rightarrow> GroupVersionKind \<Rightarrow> 's cacheWorld \<Rightarrow> 's cacheWorld \<times> (error + nat)" where
  "getOrCreateInformer st sch al gvk w =
     (let c = cw_cache w
      in case map_of (c_informers c) gvk of
           Some n \<Rightarrow> (w, Inr n)
         | None \<Rightarrow>
             (let n = c_nextInformer c;
                  w1 = w\<lparr>cw_cache := c_register gvk c\<rparr>
              in if \<not> c_started c then (w1, Inr n)
                 else if cw_ctxDone w
                 then (w1\<lparr>cw_cache := c_removeFromMap gvk (cw_cache w1)\<rparr>, Inl (Error ''cache is stopped''))
                 else case cache_startInformer st sch al n w1 of
                        (w2, Some e) \<Rightarrow> (w2\<lparr>cw_cache := c_removeFromMap gvk (cw_cache w2)\<rparr>, Inl e)
                      | (w2, None) \<Rightarrow> (w2, Inr n)))"

definition cache_GetInformer ::
  "'s Store \<Rightarrow> scheme \<Rightarrow> apilib \<Rightarrow> object \<Rightarrow> 's cacheWorld \<Rightarrow> 's cacheWorld \<times> (error + nat)" where
  "cache_GetInformer st sch al obj w =
     (case al_GVKForObject al (GoType obj) of
        Inl e \<Rightarrow> (w, Inl e)
      | Inr gvk \<Rightarrow> getOrCreateInformer st sch al gvk w)"

definition cache_GetInformerForKind ::
  "'s Store \<Rightarrow> scheme \<Rightarrow> apilib \<Rightarrow> GroupVersionKind \<Rightarrow> 's cacheWorld \<Rightarrow> 's cacheWorld \<times> (error + nat)" where
  "cache_GetInformerForKind st sch al gvk w =
     (case sch_New sch gvk of
        Inl e \<Rightarrow> (w, Inl e)
      | Inr (RObject obj) \<Rightarrow> getOrCreateInformer st sch al gvk w
      | Inr _ \<Rightarrow> (w, Inl (Error ''object does not implement client.Object'')))"

definition cache_RemoveInformer ::
  "'s Store \<Rightarrow> apilib \<Rightarrow> object \<Rightarrow> 's cacheWorld \<Rightarrow> 's cacheWorld \<times> error option" where
  "cache_RemoveInformer st al obj w =
     (case al_GVKForObject al (GoType obj) of
        Inl e \<Rightarrow> (w, Some e)
      | Inr gvk \<Rightarrow>
          (case map_of (c_informers (cw_cache w)) gvk of
             None \<Rightarrow> (w, None)
           | Some n \<Rightarrow>
               (let c = cw_cache w;
                    (i, watcher) = inf_stop (c_heap c n);
                    c1 = c_removeFromMap gvk (c_setInformer n i c)
                in (w\<lparr>cw_store := (case watcher of None \<Rightarrow> cw_store w | Some x \<Rightarrow> st_Stop st (cw_store w) x),
                      cw_cache := c1\<lparr>c_synced := (c_synced c1)(gvk := False)\<rparr>\<rparr>, None))))"

section \<open>Reads and indices\<close>

definition gvk_String :: "GroupVersionKind \<Rightarrow> string" where
  "gvk_String gvk = Group gvk @ ''/'' @ Version gvk @ '', Kind='' @ Kind gvk"

definition noInformer :: "GroupVersionKind \<Rightarrow> error" where
  "noInformer gvk =
     Error (''no informer registered for '' @ gvk_String gvk @
       ''; set up an informer via GetInformer or disable ReaderFailOnMissingInformer'')"

definition cache_Get ::
  "'s Store \<Rightarrow> scheme \<Rightarrow> apilib \<Rightarrow> ObjectKey \<Rightarrow> object \<Rightarrow> 's cacheWorld \<Rightarrow> 's cacheWorld \<times> object \<times> error option" where
  "cache_Get st sch al key obj w =
     (case al_GVKForObject al (GoType obj) of
        Inl e \<Rightarrow> (w, obj, Some e)
      | Inr gvk \<Rightarrow>
          (case map_of (c_informers (cw_cache w)) gvk of
             Some n \<Rightarrow> (w, inf_get sch (c_heap (cw_cache w) n) key obj)
           | None \<Rightarrow>
               if co_readerFailOnMissingInformer (c_opts (cw_cache w)) then (w, obj, Some (noInformer gvk))
               else case getOrCreateInformer st sch al gvk w of
                      (w1, Inl e) \<Rightarrow> (w1, obj, Some e)
                    | (w1, Inr n) \<Rightarrow> (w1, inf_get sch (c_heap (cw_cache w1) n) key obj)))"

definition cache_List ::
  "'s Store \<Rightarrow> scheme \<Rightarrow> apilib \<Rightarrow> object_list \<Rightarrow> ListOption list \<Rightarrow> 's cacheWorld \<Rightarrow> 's cacheWorld \<times> object_list \<times> error option" where
  "cache_List st sch al lst opts w =
     (case al_GVKForObject al (ListType lst) of
        Inl e \<Rightarrow> (w, lst, Some e)
      | Inr listGVK \<Rightarrow>
          if \<not> HasListSuffix (Kind listGVK)
          then (w, lst, Some (Error (''expected list kind ending in 'List', got '' @ [CHR 0x22] @ Kind listGVK @ [CHR 0x22])))
          else
          (let gvk = listGVK\<lparr>Kind := take (length (Kind listGVK) - 4) (Kind listGVK)\<rparr>
           in case map_of (c_informers (cw_cache w)) gvk of
             Some n \<Rightarrow> (w, inf_list al (c_heap (cw_cache w) n) lst opts)
           | None \<Rightarrow>
               if co_readerFailOnMissingInformer (c_opts (cw_cache w)) then (w, lst, Some (noInformer gvk))
               else case sch_New sch gvk of
                 Inl e \<Rightarrow> (w, lst, Some e)
               | Inr (RObject obj) \<Rightarrow>
                   (case getOrCreateInformer st sch al gvk w of
                      (w1, Inl e) \<Rightarrow> (w1, lst, Some e)
                    | (w1, Inr n) \<Rightarrow> (w1, inf_list al (c_heap (cw_cache w1) n) lst opts))
               | Inr _ \<Rightarrow> (w, lst, Some (Error (''object for '' @ gvk_String gvk @ '' does not implement client.Object'')))))"

definition cache_IndexField ::
  "'s Store \<Rightarrow> scheme \<Rightarrow> apilib \<Rightarrow> object \<Rightarrow> string \<Rightarrow> IndexerFunc \<Rightarrow> 's cacheWorld \<Rightarrow> 's cacheWorld \<times> error option" where
  "cache_IndexField st sch al obj field extractValue w =
     (case al_GVKForObject al (GoType obj) of
        Inl e \<Rightarrow> (w, Some e)
      | Inr gvk \<Rightarrow>
          (case getOrCreateInformer st sch al gvk w of
             (w1, Inl e) \<Rightarrow> (w1, Some e)
           | (w1, Inr n) \<Rightarrow>
               (w1\<lparr>cw_cache := c_setInformer n (inf_addIndexer field extractValue (c_heap (cw_cache w1) n)) (cw_cache w1)\<rparr>, None)))"

section \<open>Waiting for the first sync\<close>

text \<open>
  \<open>WaitForCacheSync\<close> takes the kinds once and then polls. The argument is what it finds at each
  turn: whether its context is done, and the cache; \<open>None\<close> means that it is still waiting.
\<close>

definition waitKinds :: "storeCache \<Rightarrow> GroupVersionKind list" where
  "waitKinds c = map fst (c_informers c)"

fun waitPolls :: "GroupVersionKind list \<Rightarrow> (bool \<times> storeCache) list \<Rightarrow> bool option" where
  "waitPolls gvks [] = None"
| "waitPolls gvks ((ctxDone, c) # polls) =
     (if ctxDone then Some False
      else if list_all (c_synced c) gvks then Some True
      else waitPolls gvks polls)"

definition WaitForCacheSync :: "storeCache \<Rightarrow> (bool \<times> storeCache) list \<Rightarrow> bool option" where
  "WaitForCacheSync c polls = waitPolls (waitKinds c) polls"

section \<open>The goroutines\<close>

text \<open>One step of the watch goroutine of informer \<open>n\<close>, and one turn of its event processing.\<close>

definition cache_loopStep ::
  "'s Store \<Rightarrow> apilib \<Rightarrow> nat \<Rightarrow> watch_choice \<Rightarrow> 's cacheWorld \<Rightarrow> 's cacheWorld" where
  "cache_loopStep st al n ch w =
     (case cw_loops w n of
        None \<Rightarrow> w
      | Some loop \<Rightarrow>
          (case watch_step st al ch (cw_store w, c_heap (cw_cache w) n, loop) of
             (s, i, loop') \<Rightarrow>
               w\<lparr>cw_store := s, cw_cache := c_setInformer n i (cw_cache w), cw_loops := (cw_loops w)(n \<mapsto> loop')\<rparr>))"

definition cache_process :: "nat \<Rightarrow> 's cacheWorld \<Rightarrow> 's cacheWorld" where
  "cache_process n w =
     w\<lparr>cw_cache := c_setInformer n (fst (inf_processOnce (c_heap (cw_cache w) n))) (cw_cache w)\<rparr>"

text \<open>
  The context of \<open>Start\<close> is cancelled; the goroutine that \<open>startProcessing\<close> left behind then
  closes the queue of its informer.
\<close>

definition cache_cancel :: "'s cacheWorld \<Rightarrow> 's cacheWorld" where
  "cache_cancel w = w\<lparr>cw_ctxDone := True\<rparr>"

definition cache_closeQueue :: "nat \<Rightarrow> 's cacheWorld \<Rightarrow> 's cacheWorld" where
  "cache_closeQueue n w =
     (if cw_ctxDone w \<and> cw_processors w n > 0
      then (let i = c_heap (cw_cache w) n
            in w\<lparr>cw_cache := c_setInformer n (i\<lparr>i_queue := close (i_queue i)\<rparr>) (cw_cache w)\<rparr>)
      else w)"

section \<open>Runs\<close>

text \<open>
  Everything that can happen to a cache: a call of one of its methods, a step of one of its
  goroutines, the end of its context, and any change of the store by others.
\<close>

datatype 's cache_op =
    CGet ObjectKey object
  | CList object_list "ListOption list"
  | CGetInformer object
  | CGetInformerForKind GroupVersionKind
  | CRemoveInformer object
  | CStart
  | CIndexField object string IndexerFunc
  | CLoop nat watch_choice
  | CProcess nat
  | CCancel
  | CCloseQueue nat
  | COther "'s \<Rightarrow> 's"

fun cache_exec :: "'s Store \<Rightarrow> scheme \<Rightarrow> apilib \<Rightarrow> 's cache_op \<Rightarrow> 's cacheWorld \<Rightarrow> 's cacheWorld" where
  "cache_exec st sch al (CGet key obj) w = fst (cache_Get st sch al key obj w)"
| "cache_exec st sch al (CList lst opts) w = fst (cache_List st sch al lst opts w)"
| "cache_exec st sch al (CGetInformer obj) w = fst (cache_GetInformer st sch al obj w)"
| "cache_exec st sch al (CGetInformerForKind gvk) w = fst (cache_GetInformerForKind st sch al gvk w)"
| "cache_exec st sch al (CRemoveInformer obj) w = fst (cache_RemoveInformer st al obj w)"
| "cache_exec st sch al CStart w = fst (cache_Start st sch al w)"
| "cache_exec st sch al (CIndexField obj field f) w = fst (cache_IndexField st sch al obj field f w)"
| "cache_exec st sch al (CLoop n ch) w = cache_loopStep st al n ch w"
| "cache_exec st sch al (CProcess n) w = cache_process n w"
| "cache_exec st sch al CCancel w = cache_cancel w"
| "cache_exec st sch al (CCloseQueue n) w = cache_closeQueue n w"
| "cache_exec st sch al (COther f) w = w\<lparr>cw_store := f (cw_store w)\<rparr>"

end
