(* ===== verification/Cache_Follow.thy ===== *)
theory Cache_Follow
  imports Cache
begin

text \<open>
  Why the cache converges. The locale \<open>watched_store\<close> states what \<open>watchInformer\<close> relies on from
  the store behind it, for one kind of objects; the lemmas show, for every such store, that the loop
  keeps the cache at a view that the store had, that a cache whose channel is open and empty equals
  the store, and that the loop gets there from wherever it is.
\<close>

section \<open>The contract of a store that can be watched\<close>

text \<open>
  \<open>vw s\<close> is the view of the kind in state \<open>s\<close>. \<open>follows s r b es\<close>: from view \<open>b\<close> at revision \<open>r\<close>, the
  events \<open>es\<close> lead to the present. \<open>subscribed s x es\<close>: of the events \<open>es\<close>, watcher \<open>x\<close> will deliver
  an initial part, and \<open>live s x es\<close>: all of them. \<open>env x s s'\<close>: another client makes a step
  that does not touch the watcher \<open>x\<close>.
\<close>

definition plain_opts :: "ListOption list \<Rightarrow> bool" where
  "plain_opts opts \<longleftrightarrow> lo_LabelSelector (applyListOptions opts) = None \<and>
     lo_Namespace (applyListOptions opts) = [] \<and> watchFrom opts None = None"

locale watched_store =
  fixes st :: "'s Store"
    and ok :: "'s \<Rightarrow> bool"
    and vw :: "'s \<Rightarrow> view"
    and list_ok :: "object_list \<Rightarrow> bool"
    and follows :: "'s \<Rightarrow> int \<Rightarrow> view \<Rightarrow> Event list \<Rightarrow> bool"
    and fresh :: "'s \<Rightarrow> int \<Rightarrow> bool"
    and subscribed :: "'s \<Rightarrow> watcher_id \<Rightarrow> Event list \<Rightarrow> bool"
    and live :: "'s \<Rightarrow> watcher_id \<Rightarrow> Event list \<Rightarrow> bool"
    and env :: "watcher_id option \<Rightarrow> 's \<Rightarrow> 's \<Rightarrow> bool"
  assumes follows_view: "ok s \<Longrightarrow> follows s r b es \<Longrightarrow> vw s = apply_events es b \<and> valid_events b es"
    and follows_next: "ok s \<Longrightarrow> follows s r b (e # es) \<Longrightarrow>
      follows s (eventRV r e) (apply_event e b) es"
    and list_snapshot: "ok s \<Longrightarrow> list_ok l \<Longrightarrow> plain_opts opts \<Longrightarrow>
      \<exists>l' r. st_List st s l opts = (s, l', None) \<and> list_ok l' \<and> distinct (map ObjectKeyFromObject (Items l')) \<and>
        (\<forall>k o1. vw s k = Some o1 \<longleftrightarrow> o1 \<in> set (Items l') \<and> ObjectKeyFromObject o1 = k) \<and>
        ParseInt (ListResourceVersion l') = (r, None) \<and> follows s r (vw s) [] \<and> fresh s r"
    and watch_result: "ok s \<Longrightarrow> list_ok l \<Longrightarrow> plain_opts opts \<Longrightarrow> follows s r b es \<Longrightarrow>
      (\<exists>e. st_Watch st s l (WatchFromRevision r # opts) = (s, Inl e) \<and> isRevisionTooOld e \<and> \<not> fresh s r) \<or>
      (\<exists>s' x. st_Watch st s l (WatchFromRevision r # opts) = (s', Inr x) \<and> ok s' \<and> vw s' = vw s \<and>
         follows s' r b es \<and> live s' x es)"
    and live_subscribed: "live s x es \<Longrightarrow> subscribed s x es"
    and recv_received: "ok s \<Longrightarrow> subscribed s x es \<Longrightarrow> st_Recv st s x = (s', Received e) \<Longrightarrow>
      \<exists>es'. es = e # es' \<and> ok s' \<and> vw s' = vw s \<and> subscribed s' x es' \<and> (live s x es \<longrightarrow> live s' x es') \<and>
        (\<forall>r b fs. follows s r b fs \<longrightarrow> follows s' r b fs)"
    and recv_closed: "ok s \<Longrightarrow> subscribed s x es \<Longrightarrow> st_Recv st s x = (s', ChanClosed) \<Longrightarrow>
      s' = s \<and> \<not> live s x es"
    and recv_blocked: "ok s \<Longrightarrow> subscribed s x es \<Longrightarrow> st_Recv st s x = (s', WouldBlock) \<Longrightarrow>
      s' = s \<and> es = []"
    and recv_empty: "ok s \<Longrightarrow> live s x [] \<Longrightarrow> st_Recv st s x = (s, WouldBlock)"
    and stop_keeps: "ok s \<Longrightarrow> ok (st_Stop st s x) \<and> vw (st_Stop st s x) = vw s \<and>
      (\<forall>r b es. follows s r b es \<longrightarrow> follows (st_Stop st s x) r b es) \<and>
      (\<forall>y es. subscribed s y es \<longrightarrow> subscribed (st_Stop st s x) y es)"
    and env_keeps: "ok s \<Longrightarrow> env ox s s' \<Longrightarrow>
      ok s' \<and> (\<exists>es'. (\<forall>r b es. follows s r b es \<longrightarrow> follows s' r b (es @ es')) \<and>
                    (\<forall>y es. ox = Some y \<longrightarrow> subscribed s y es \<longrightarrow> subscribed s' y (es @ es')))"

section \<open>The invariant of the watch loop\<close>

fun watching :: "watch_phase \<Rightarrow> watcher_id option" where
  "watching (Receiving x) = Some x"
| "watching _ = None"

definition watch_inv ::
  "('s \<Rightarrow> bool) \<Rightarrow> (object_list \<Rightarrow> bool) \<Rightarrow> ('s \<Rightarrow> int \<Rightarrow> view \<Rightarrow> Event list \<Rightarrow> bool)
   \<Rightarrow> ('s \<Rightarrow> watcher_id \<Rightarrow> Event list \<Rightarrow> bool) \<Rightarrow> informerConfig \<Rightarrow> 's \<times> storeInformer \<times> watchLoop \<Rightarrow> bool" where
  "watch_inv ok list_ok follows subscribed cfg c \<longleftrightarrow>
     (case c of (s, i, w) \<Rightarrow>
        ok s \<and> list_ok (wl_list w) \<and> i_config i = cfg \<and>
        (\<exists>b es. follows s (wl_lastRV w) b es \<and> inf_view i = project cfg b \<and>
           (\<forall>x. wl_phase w = Receiving x \<longrightarrow> subscribed s x es)))"

definition extracts_items :: "apilib \<Rightarrow> bool" where
  "extracts_items al \<longleftrightarrow> (\<forall>l. al_ExtractList al l = Inr (map RObject (Items l)))"

lemma plain_opts_cfg:
  assumes "ic_labelSelector cfg = None"
  shows "plain_opts (selectorOpts cfg)" and "plain_opts (watchOpts cfg)"
  using assms
  by (auto simp: plain_opts_def selectorOpts_def watchOpts_def applyListOptions_def emptyListOptions_def
      split: option.split)

section \<open>Relisting\<close>

lemma map_of_admits:
  assumes "tidy_transform cfg" and "distinct (map ObjectKeyFromObject items)"
    and "\<forall>o1 \<in> set items. objs (ObjectKeyFromObject o1) = None" and "map_of m = objs"
  shows "map_of (fold (inf_admit cfg) (map RObject items) m) k =
    (case find (\<lambda>o1. ObjectKeyFromObject o1 = k) items of
       None \<Rightarrow> objs k
     | Some o1 \<Rightarrow> if matchesSelectors cfg o1
         then (case applyTransform cfg o1 of Inl _ \<Rightarrow> None | Inr t \<Rightarrow> Some t) else None)"
  using assms
proof (induction items arbitrary: m objs)
  case Nil
  then show ?case by simp
next
  case (Cons o1 items)
  obtain t where t: "applyTransform cfg o1 = Inr t" "ObjectKeyFromObject t = ObjectKeyFromObject o1"
    using Cons.prems(1) unfolding tidy_transform_def by blast
  let ?m = "inf_admit cfg (RObject o1) m"
  have m: "map_of ?m = (if matchesSelectors cfg o1 then objs(ObjectKeyFromObject o1 \<mapsto> t) else objs)"
    using t Cons.prems(4) by (simp add: inf_admit_def)
  have no: "ObjectKeyFromObject o1 \<notin> ObjectKeyFromObject ` set items"
    using Cons.prems(2) by simp
  then have "find (\<lambda>o2. ObjectKeyFromObject o2 = ObjectKeyFromObject o1) items = None"
    by (auto simp: find_None_iff image_iff)
  moreover have "\<forall>o2 \<in> set items. map_of ?m (ObjectKeyFromObject o2) = None"
    using Cons.prems(3) no unfolding m by (auto simp: image_iff)
  ultimately show ?case
    using Cons.IH [of "map_of ?m" ?m] Cons.prems(1-3) t m by (auto split: option.split)
qed

lemma admitted_project:
  assumes "tidy_transform cfg" and "distinct (map ObjectKeyFromObject items)"
    and "\<forall>k o1. v k = Some o1 \<longleftrightarrow> o1 \<in> set items \<and> ObjectKeyFromObject o1 = k"
  shows "map_of (inf_admitted cfg (map RObject items)) = project cfg v"
proof
  fix k
  have "find (\<lambda>o1. ObjectKeyFromObject o1 = k) items = v k"
  proof (cases "v k")
    case None
    then have "\<not> (\<exists>o1. o1 \<in> set items \<and> ObjectKeyFromObject o1 = k)"
      using assms(3) by (metis option.distinct(1))
    with None show ?thesis by (simp add: find_None_iff)
  next
    case (Some o1)
    then obtain o2 where "find (\<lambda>o1. ObjectKeyFromObject o1 = k) items = Some o2"
      using assms(3) by (cases "find (\<lambda>o1. ObjectKeyFromObject o1 = k) items") (auto simp: find_None_iff)
    then have "o2 \<in> set items" "ObjectKeyFromObject o2 = k"
      by (auto simp: find_Some_iff)
    with assms(3) have "v k = Some o2" by blast
    with \<open>find _ items = Some o2\<close> show ?thesis by simp
  qed
  with map_of_admits [OF assms(1,2), of Map.empty "[]" k]
  show "map_of (inf_admitted cfg (map RObject items)) k = project cfg v k"
    by (simp add: inf_admitted_def project_def split: option.split)
qed

lemma replaceAll_view:
  "inf_view (inf_replaceAll items i) = map_of (inf_admitted (i_config i) items)"
  "i_config (inf_replaceAll items i) = i_config i"
  by (simp_all add: inf_replaceAll_def Let_def fold_inf_enqueue(2,3) inf_admitted_def)

lemma resync_view:
  "inf_view (resyncInformer i) = inf_view i" "i_config (resyncInformer i) = i_config i"
proof -
  have "resyncInformer i = fold (\<lambda>(k, e). inf_enqueue k e) (map (\<lambda>(k, o1). (k, update_event o1 o1)) (i_objects i)) i"
    by (simp add: resyncInformer_def fold_map comp_def case_prod_unfold)
  then show "inf_view (resyncInformer i) = inf_view i" "i_config (resyncInformer i) = i_config i"
    by (simp_all only: fold_inf_enqueue(2,3))
qed

lemma inf_add_flags:
  "i_synced (inf_add o1 i) = i_synced i \<and> i_syncedChClosed (inf_add o1 i) = i_syncedChClosed i"
  by (simp add: inf_add_def Let_def inf_put_def inf_enqueue_def split: sum.split)

lemma addItems_flags:
  "i_synced (addItems items i) = i_synced i \<and> i_syncedChClosed (addItems items i) = i_syncedChClosed i"
  unfolding addItems_def
  by (induction items arbitrary: i) (auto simp: inf_add_flags split: runtime_object.split)

lemma inf_setWatcher_simps [simp]:
  "i_objects (inf_setWatcher x i) = i_objects i" "i_config (inf_setWatcher x i) = i_config i"
  by (simp_all add: inf_setWatcher_def)

text \<open>The loop waits for the next event, and there is none.\<close>

definition caught_up :: "'s Store \<Rightarrow> 's \<times> storeInformer \<times> watchLoop \<Rightarrow> bool" where
  "caught_up st c \<longleftrightarrow>
     (case c of (s, i, w) \<Rightarrow> \<exists>x s'. wl_phase w = Receiving x \<and> st_Recv st s x = (s', WouldBlock))"

section \<open>The loop, for every store that keeps the contract\<close>

context watched_store
begin

lemma relist_inv:
  assumes "ok s" and "list_ok l" and "i_config i = cfg" and "ic_labelSelector cfg = None"
    and "tidy_transform cfg" and "extracts_items al"
  obtains i' l' r where "relistInformer st al s i l = (s, i', l', None)" and "list_ok l'" and "i_config i' = cfg"
    and "inf_view i' = project cfg (vw s)" and "ParseInt (ListResourceVersion l') = (r, None)"
    and "follows s r (vw s) []" and "fresh s r"
proof -
  obtain l' r where l': "st_List st s l (selectorOpts cfg) = (s, l', None)" "list_ok l'"
      "distinct (map ObjectKeyFromObject (Items l'))"
      "\<forall>k o1. vw s k = Some o1 \<longleftrightarrow> o1 \<in> set (Items l') \<and> ObjectKeyFromObject o1 = k"
      "ParseInt (ListResourceVersion l') = (r, None)" "follows s r (vw s) []" "fresh s r"
    using list_snapshot [OF assms(1,2) plain_opts_cfg(1) [OF assms(4)]] by blast
  let ?i = "inf_replaceAll (map RObject (Items l')) i"
  have "relistInformer st al s i l = (s, ?i, l', None)"
    using l'(1) assms(3,6) by (simp add: relistInformer_def extracts_items_def)
  moreover have "inf_view ?i = project cfg (vw s)"
    using admitted_project [OF assms(5) l'(3,4)] assms(3) by (simp add: replaceAll_view)
  ultimately show thesis
    using that l' assms(3) by (auto simp: replaceAll_view)
qed

lemma dial_cases:
  assumes "watch_inv ok list_ok follows subscribed cfg (s, i, w)" and "ic_labelSelector cfg = None"
    and "tidy_transform cfg" and "extracts_items al"
  obtains (watching) s' x es b where
      "watch_dial st al (s, i, w) = (s', inf_setWatcher x i, w\<lparr>wl_backoff := 1, wl_phase := Receiving x\<rparr>)"
      and "ok s'" and "vw s' = vw s" and "follows s' (wl_lastRV w) b es" and "inf_view i = project cfg b" and "live s' x es"
    | (relisted) i' l' r where "\<not> fresh s (wl_lastRV w)"
      and "watch_dial st al (s, i, w) = (s, i', w\<lparr>wl_list := l', wl_lastRV := r, wl_backoff := 1\<rparr>)"
      and "list_ok l'" and "i_config i' = cfg" and "inf_view i' = project cfg (vw s)"
      and "follows s r (vw s) []" and "fresh s r"
proof -
  obtain b es where b: "follows s (wl_lastRV w) b es" "inf_view i = project cfg b"
    and c: "ok s" "list_ok (wl_list w)" "i_config i = cfg"
    using assms(1) by (auto simp: watch_inv_def)
  consider e where "st_Watch st s (wl_list w) (WatchFromRevision (wl_lastRV w) # watchOpts cfg) = (s, Inl e)"
      "isRevisionTooOld e" "\<not> fresh s (wl_lastRV w)"
    | s' x where "st_Watch st s (wl_list w) (WatchFromRevision (wl_lastRV w) # watchOpts cfg) = (s', Inr x)"
      "ok s'" "vw s' = vw s" "follows s' (wl_lastRV w) b es" "live s' x es"
    using watch_result [OF c(1,2) plain_opts_cfg(2) [OF assms(2)] b(1)] by blast
  then show thesis
  proof cases
    case (1 e)
    obtain i' l' r where "relistInformer st al s i (wl_list w) = (s, i', l', None)" "list_ok l'" "i_config i' = cfg"
        "inf_view i' = project cfg (vw s)" "ParseInt (ListResourceVersion l') = (r, None)"
        "follows s r (vw s) []" "fresh s r"
      using relist_inv [OF c assms(2-4)] by blast
    with 1 c(3) relisted show thesis by (auto simp: watch_dial_def)
  next
    case (2 s' x)
    with c(3) b watching show thesis by (auto simp: watch_dial_def)
  qed
qed

lemma stop_inv:
  assumes "watch_inv ok list_ok follows subscribed cfg (s, i, w)" and "\<forall>x. p \<noteq> Receiving x"
  shows "watch_inv ok list_ok follows subscribed cfg (st_Stop st s x, i, w\<lparr>wl_phase := p\<rparr>)"
proof -
  obtain b es where b: "follows s (wl_lastRV w) b es" "inf_view i = project cfg b"
    and c: "ok s" "list_ok (wl_list w)" "i_config i = cfg"
    using assms(1) by (auto simp: watch_inv_def)
  have "follows (st_Stop st s x) (wl_lastRV w) b es" "ok (st_Stop st s x)"
    using stop_keeps [OF c(1), of x] b(1) by blast+
  with b(2) c(2,3) assms(2) show ?thesis unfolding watch_inv_def by auto
qed

lemma receive_inv:
  assumes "watch_inv ok list_ok follows subscribed cfg (s, i, w)" and "wl_phase w = Receiving x"
    and "tidy_transform cfg"
  shows "watch_inv ok list_ok follows subscribed cfg (watch_receive st x (s, i, w))"
proof -
  obtain b es where b: "follows s (wl_lastRV w) b es" "inf_view i = project cfg b" "subscribed s x es"
    and c: "ok s" "list_ok (wl_list w)" "i_config i = cfg"
    using assms(1,2) by (auto simp: watch_inv_def)
  obtain s' r where r: "st_Recv st s x = (s', r)" by fastforce
  show ?thesis
  proof (cases r)
    case (Received e)
    from recv_received [OF c(1) b(3) r [unfolded Received]]
    obtain es' where es': "es = e # es'" "ok s'" "subscribed s' x es'" "follows s' (wl_lastRV w) b es"
      using b(1) by blast
    from follows_next [OF es'(2)] es'(1,4) have "follows s' (eventRV (wl_lastRV w) e) (apply_event e b) es'" by blast
    moreover have "event_ok b e"
      using follows_view [OF c(1) b(1)] es'(1) by simp
    then have "inf_view (inf_event e i) = project cfg (apply_event e b)"
      using inf_event_follows [of i b e] b(2) c(3) assms(3) by simp
    ultimately show ?thesis
      using r Received es' c assms(2) by (auto simp: watch_inv_def watch_receive_def)
  next
    case ChanClosed
    with recv_closed [OF c(1) b(3)] r have "s' = s" by blast
    with ChanClosed r stop_inv [OF assms(1), of Pausing x] show ?thesis
      by (simp add: watch_receive_def)
  next
    case WouldBlock
    with recv_blocked [OF c(1) b(3)] r have "s' = s" by blast
    with WouldBlock r assms(1) show ?thesis by (simp add: watch_receive_def)
  qed
qed

text \<open>Every step of the loop, and every step of another client, keeps the invariant.\<close>

lemma step_inv:
  assumes "watch_inv ok list_ok follows subscribed cfg c" and "ic_labelSelector cfg = None"
    and "tidy_transform cfg" and "extracts_items al"
  shows "watch_inv ok list_ok follows subscribed cfg (watch_step st al ch c)"
proof -
  obtain s i w where c: "c = (s, i, w)" by (rule prod_cases3)
  note inv = assms(1) [unfolded c]
  show ?thesis
  proof (cases "wl_phase w")
    case Dialing
    have "watch_inv ok list_ok follows subscribed cfg (watch_dial st al (s, i, w))"
      using inv assms(2-4)
    proof (cases rule: dial_cases)
      case (watching s' x es b)
      with inv live_subscribed [OF watching(6)] show ?thesis by (auto simp: watch_inv_def)
    next
      case (relisted i' l' r)
      with inv Dialing show ?thesis by (auto simp: watch_inv_def)
    qed
    with inv Dialing show ?thesis by (cases ch) (auto simp: c watch_step_def watch_inv_def)
  next
    case (Receiving x)
    show ?thesis
    proof (cases ch)
      case CtxDone
      with Receiving stop_inv [OF inv, of Returned x] show ?thesis by (simp add: c watch_step_def)
    next
      case Proceed
      with Receiving receive_inv [OF inv Receiving assms(3)] show ?thesis by (simp add: c watch_step_def)
    next
      case SyncTick
      with Receiving inv show ?thesis
        by (simp add: c watch_step_def watch_inv_def resync_view split: option.split)
    qed
  qed (use inv in \<open>cases ch; auto simp: c watch_step_def watch_inv_def\<close>)+
qed

lemma env_inv:
  assumes "watch_inv ok list_ok follows subscribed cfg (s, i, w)" and "env (watching (wl_phase w)) s s'"
  shows "watch_inv ok list_ok follows subscribed cfg (s', i, w)"
proof -
  obtain b es where b: "follows s (wl_lastRV w) b es" "inf_view i = project cfg b"
      "\<forall>x. wl_phase w = Receiving x \<longrightarrow> subscribed s x es"
    and c: "ok s" "list_ok (wl_list w)" "i_config i = cfg"
    using assms(1) by (auto simp: watch_inv_def)
  from env_keeps [OF c(1) assms(2)] obtain es' where "ok s'" "follows s' (wl_lastRV w) b (es @ es')"
      "\<forall>y. watching (wl_phase w) = Some y \<longrightarrow> subscribed s y es \<longrightarrow> subscribed s' y (es @ es')"
    using b(1) by blast
  with b(2,3) c(2,3) show ?thesis by (auto simp: watch_inv_def intro!: exI)
qed

text \<open>A loop that waits on an open, empty channel has a cache that equals the store.\<close>

lemma caught_up_view:
  assumes "watch_inv ok list_ok follows subscribed cfg c" and "caught_up st c"
  shows "inf_view (fst (snd c)) = project cfg (vw (fst c))"
proof -
  obtain s i w where c: "c = (s, i, w)" by (rule prod_cases3)
  obtain x s' where x: "wl_phase w = Receiving x" "st_Recv st s x = (s', WouldBlock)"
    using assms(2) by (auto simp: c caught_up_def)
  obtain b es where b: "follows s (wl_lastRV w) b es" "inf_view i = project cfg b" "subscribed s x es" "ok s"
    using assms(1) x(1) by (auto simp: watch_inv_def c)
  with recv_blocked [OF b(4,3) x(2)] follows_view [OF b(4,1)] show ?thesis by (simp add: c)
qed

text \<open>
  Left alone, the loop catches up: a finite number of steps, in none of which the context is done,
  leads from any state of the loop to a cache that equals the store.
\<close>

abbreviation proceeds :: "apilib \<Rightarrow> nat \<Rightarrow> 's \<times> storeInformer \<times> watchLoop \<Rightarrow> 's \<times> storeInformer \<times> watchLoop" where
  "proceeds al n c \<equiv> (watch_step st al Proceed ^^ n) c"

lemma proceeds_Suc: "proceeds al (Suc n) c = proceeds al n (watch_step st al Proceed c)"
  by (simp add: funpow_swap1)

lemma live_catches_up:
  assumes "ok s" and "live s x es" and "wl_phase w = Receiving x"
  shows "\<exists>n. caught_up st (proceeds al n (s, i, w)) \<and> vw (fst (proceeds al n (s, i, w))) = vw s"
  using assms
proof (induction es arbitrary: s i w)
  case Nil
  with recv_empty show ?case by (intro exI [of _ 0]) (auto simp: caught_up_def)
next
  case (Cons e es)
  note sub = live_subscribed [OF Cons.prems(2)]
  obtain s' r where r: "st_Recv st s x = (s', r)" by fastforce
  have "r \<noteq> ChanClosed" "r \<noteq> WouldBlock"
    using recv_closed [OF Cons.prems(1) sub] recv_blocked [OF Cons.prems(1) sub] r Cons.prems(2) by auto
  then obtain e' where e': "r = Received e'" by (cases r) auto
  obtain es' where "e # es = e' # es'" "ok s'" "vw s' = vw s" "live s' x es'"
    using recv_received [OF Cons.prems(1) sub, of s' e'] r e' Cons.prems(2) by blast
  moreover from this obtain n where "caught_up st (proceeds al n (s', inf_event e' i, w\<lparr>wl_lastRV := eventRV (wl_lastRV w) e'\<rparr>))"
      "vw (fst (proceeds al n (s', inf_event e' i, w\<lparr>wl_lastRV := eventRV (wl_lastRV w) e'\<rparr>))) = vw s'"
    using Cons.IH [of s' "w\<lparr>wl_lastRV := eventRV (wl_lastRV w) e'\<rparr>" "inf_event e' i"] Cons.prems(3) by auto
  moreover have "watch_step st al Proceed (s, i, w) = (s', inf_event e' i, w\<lparr>wl_lastRV := eventRV (wl_lastRV w) e'\<rparr>)"
    using r e' Cons.prems(3) by (simp add: watch_step_def watch_receive_def)
  ultimately show ?case
    by (intro exI [of _ "Suc n"]) (simp only: proceeds_Suc)
qed

lemma dialing_catches_up:
  assumes "watch_inv ok list_ok follows subscribed cfg (s, i, w)" and "wl_phase w = Dialing"
    and "ic_labelSelector cfg = None" and "tidy_transform cfg" and "extracts_items al"
  shows "\<exists>n. caught_up st (proceeds al n (s, i, w)) \<and> vw (fst (proceeds al n (s, i, w))) = vw s"
proof -
  have fresh: "\<exists>n. caught_up st (proceeds al n (t, j, u)) \<and> vw (fst (proceeds al n (t, j, u))) = vw t"
    if "watch_inv ok list_ok follows subscribed cfg (t, j, u)" "wl_phase u = Dialing" "fresh t (wl_lastRV u)" for t j u
    using that(1) assms(3-5)
  proof (cases rule: dial_cases)
    case (watching s' x es b)
    have "watch_step st al Proceed (t, j, u) = watch_dial st al (t, j, u)"
      using that(2) by (simp add: watch_step_def)
    with live_catches_up [OF watching(2,6), of "u\<lparr>wl_backoff := 1, wl_phase := Receiving x\<rparr>" al "inf_setWatcher x j"]
      watching(1,3) obtain n where "caught_up st (proceeds al n (watch_step st al Proceed (t, j, u)))"
        "vw (fst (proceeds al n (watch_step st al Proceed (t, j, u)))) = vw t" by auto
    then show ?thesis by (intro exI [of _ "Suc n"]) (simp only: proceeds_Suc)
  next
    case relisted
    with that(3) show ?thesis by blast
  qed
  have step: "watch_step st al Proceed (s, i, w) = watch_dial st al (s, i, w)"
    using assms(2) by (simp add: watch_step_def)
  show ?thesis
    using assms(1,3-5)
  proof (cases rule: dial_cases)
    case (watching s' x es b)
    with step live_catches_up [OF watching(2,6), of "w\<lparr>wl_backoff := 1, wl_phase := Receiving x\<rparr>" al "inf_setWatcher x i"]
    obtain n where "caught_up st (proceeds al n (watch_step st al Proceed (s, i, w)))"
        "vw (fst (proceeds al n (watch_step st al Proceed (s, i, w)))) = vw s" by auto
    then show ?thesis by (intro exI [of _ "Suc n"]) (simp only: proceeds_Suc)
  next
    case (relisted i' l' r)
    let ?w = "w\<lparr>wl_list := l', wl_lastRV := r, wl_backoff := 1\<rparr>"
    have "watch_inv ok list_ok follows subscribed cfg (s, i', ?w)"
      using assms(1,2) relisted by (auto simp: watch_inv_def)
    then obtain n where "caught_up st (proceeds al n (s, i', ?w))" "vw (fst (proceeds al n (s, i', ?w))) = vw s"
      using fresh [of s i' ?w] relisted(7) assms(2) by auto
    with step relisted(2) show ?thesis by (intro exI [of _ "Suc n"]) (simp only: proceeds_Suc)
  qed
qed

lemma paused_catches_up:
  assumes "watch_inv ok list_ok follows subscribed cfg (s, i, w)" and "wl_phase w = Pausing \<or> wl_phase w = BackingOff"
    and "ic_labelSelector cfg = None" and "tidy_transform cfg" and "extracts_items al"
  shows "\<exists>n. caught_up st (proceeds al n (s, i, w)) \<and> vw (fst (proceeds al n (s, i, w))) = vw s"
proof -
  obtain w' where w': "watch_step st al Proceed (s, i, w) = (s, i, w')" "wl_phase w' = Dialing"
    using assms(2) by (auto simp: watch_step_def)
  have "watch_inv ok list_ok follows subscribed cfg (s, i, w')"
    using step_inv [OF assms(1,3-5), of Proceed] w'(1) by simp
  from dialing_catches_up [OF this w'(2) assms(3-5)] w'(1) show ?thesis
    by (metis proceeds_Suc)
qed

lemma receiving_catches_up:
  assumes "watch_inv ok list_ok follows subscribed cfg (s, i, w)" and "wl_phase w = Receiving x"
    and "subscribed s x es"
    and "ic_labelSelector cfg = None" and "tidy_transform cfg" and "extracts_items al"
  shows "\<exists>n. caught_up st (proceeds al n (s, i, w)) \<and> vw (fst (proceeds al n (s, i, w))) = vw s"
  using assms(1-3)
proof (induction "length es" arbitrary: s i w es rule: less_induct)
  case less
  have ok: "ok s" using less.prems(1) by (simp add: watch_inv_def)
  have step: "watch_step st al Proceed (s, i, w) = watch_receive st x (s, i, w)"
    using less.prems(2) by (simp add: watch_step_def)
  note inv = step_inv [OF less.prems(1) assms(4-6), of Proceed]
  have "\<exists>n. caught_up st (proceeds al n (watch_step st al Proceed (s, i, w))) \<and>
      vw (fst (proceeds al n (watch_step st al Proceed (s, i, w)))) = vw s"
    if not: "\<not> caught_up st (s, i, w)"
  proof -
    obtain s' r where r: "st_Recv st s x = (s', r)" by fastforce
    show ?thesis
    proof (cases r)
      case (Received e)
      obtain es' where "es = e # es'" "vw s' = vw s" "subscribed s' x es'"
        using recv_received [OF ok less.prems(3) r [unfolded Received]] by blast
      moreover have rec: "watch_receive st x (s, i, w) = (s', inf_event e i, w\<lparr>wl_lastRV := eventRV (wl_lastRV w) e\<rparr>)"
        using r Received by (simp add: watch_receive_def)
      ultimately show ?thesis
        using less.hyps [of es' s' "inf_event e i" "w\<lparr>wl_lastRV := eventRV (wl_lastRV w) e\<rparr>"] inv less.prems(2)
        unfolding step rec by simp
    next
      case ChanClosed
      with recv_closed [OF ok less.prems(3)] r have "s' = s" by blast
      then have "watch_receive st x (s, i, w) = (st_Stop st s x, i, w\<lparr>wl_phase := Pausing\<rparr>)"
        using r ChanClosed by (simp add: watch_receive_def)
      with inv paused_catches_up [OF _ _ assms(4-6), of "st_Stop st s x" i "w\<lparr>wl_phase := Pausing\<rparr>"]
        stop_keeps [OF ok, of x] show ?thesis
        unfolding step by simp
    next
      case WouldBlock
      with r not less.prems(2) show ?thesis by (auto simp: caught_up_def)
    qed
  qed
  then show ?case
    by (cases "caught_up st (s, i, w)") (metis funpow_0 fst_conv, metis proceeds_Suc)
qed

lemma catches_up:
  assumes "watch_inv ok list_ok follows subscribed cfg (s, i, w)" and "wl_phase w \<noteq> Returned"
    and "ic_labelSelector cfg = None" and "tidy_transform cfg" and "extracts_items al"
  shows "\<exists>n. caught_up st (proceeds al n (s, i, w)) \<and> vw (fst (proceeds al n (s, i, w))) = vw s"
proof (cases "wl_phase w")
  case (Receiving x)
  then obtain es where "subscribed s x es"
    using assms(1) by (auto simp: watch_inv_def)
  with receiving_catches_up [OF assms(1) Receiving _ assms(3-5)] show ?thesis by blast
qed (use assms(2) dialing_catches_up [OF assms(1) _ assms(3-5)] paused_catches_up [OF assms(1) _ assms(3-5)] in auto)

lemma steps_inv:
  assumes "watch_inv ok list_ok follows subscribed cfg c" and "ic_labelSelector cfg = None"
    and "tidy_transform cfg" and "extracts_items al"
  shows "watch_inv ok list_ok follows subscribed cfg (proceeds al n c)"
  using assms(1)
proof (induction n arbitrary: c)
  case (Suc n)
  from Suc.IH [OF step_inv [OF Suc.prems assms(2-4)]] show ?case by (simp only: proceeds_Suc)
qed simp

lemma converges:
  assumes "watch_inv ok list_ok follows subscribed cfg (s, i, w)" and "wl_phase w \<noteq> Returned"
    and "ic_labelSelector cfg = None" and "tidy_transform cfg" and "extracts_items al"
  shows "\<exists>n s' i' w'. (watch_step st al Proceed ^^ n) (s, i, w) = (s', i', w') \<and>
    vw s' = vw s \<and> inf_view i' = project cfg (vw s)"
proof -
  obtain n where n: "caught_up st (proceeds al n (s, i, w))" "vw (fst (proceeds al n (s, i, w))) = vw s"
    using catches_up [OF assms] by blast
  from caught_up_view [OF steps_inv [OF assms(1,3-5)] n(1)] n(2) show ?thesis
    by (metis prod.collapse)
qed

section \<open>Starting\<close>

lemma addItems_view:
  assumes "tidy_transform (i_config i)" and "distinct (map ObjectKeyFromObject items)"
    and "\<forall>o1 \<in> set items. inf_view i (ObjectKeyFromObject o1) = None"
  shows "inf_view (addItems (map RObject items) i) = map_of (fold (inf_admit (i_config i)) (map RObject items) (i_objects i)) \<and>
    i_config (addItems (map RObject items) i) = i_config i"
  using assms
proof (induction items arbitrary: i)
  case Nil
  then show ?case by (simp add: addItems_def)
next
  case (Cons o1 items)
  obtain t where t: "applyTransform (i_config i) o1 = Inr t" "ObjectKeyFromObject t = ObjectKeyFromObject o1"
    using Cons.prems(1) unfolding tidy_transform_def by blast
  have objs: "i_objects (inf_add o1 i) = inf_admit (i_config i) (RObject o1) (i_objects i)"
    and cfg: "i_config (inf_add o1 i) = i_config i"
    using t Cons.prems(3) by (simp_all add: inf_add_def inf_admit_def Let_def inf_put_def inf_enqueue_def)
  have "\<forall>o2 \<in> set items. inf_view (inf_add o1 i) (ObjectKeyFromObject o2) = None"
    using Cons.prems(2,3) t unfolding objs by (auto simp: inf_admit_def image_iff)
  with Cons.IH [of "inf_add o1 i"] Cons.prems(1,2) cfg objs show ?case
    by (simp add: addItems_def)
qed

lemma start_inv:
  assumes "ok s" and "sch_New sch ((i_gvk i)\<lparr>Kind := Kind (i_gvk i) @ ''List''\<rparr>) = Inr (RList l)" and "list_ok l"
    and "i_config i = cfg" and "i_objects i = []" and "\<not> i_synced i" and "\<not> i_syncedChClosed i"
    and "ic_labelSelector cfg = None" and "tidy_transform cfg" and "extracts_items al"
  shows "\<exists>i' w. startInformer st sch al s i = (s, i', Inr w) \<and> i_synced i' \<and> wl_phase w = Dialing \<and>
    inf_view i' = project cfg (vw s) \<and> watch_inv ok list_ok follows subscribed cfg (s, i', w)"
proof -
  obtain l' r where l': "st_List st s l (selectorOpts cfg) = (s, l', None)" "list_ok l'"
      "distinct (map ObjectKeyFromObject (Items l'))"
      "\<forall>k o1. vw s k = Some o1 \<longleftrightarrow> o1 \<in> set (Items l') \<and> ObjectKeyFromObject o1 = k"
      "ParseInt (ListResourceVersion l') = (r, None)" "follows s r (vw s) []"
    using list_snapshot [OF assms(1,3) plain_opts_cfg(1) [OF assms(8)]] by blast
  let ?i = "addItems (map RObject (Items l')) i"
  have v: "inf_view ?i = project cfg (vw s)" "i_config ?i = cfg"
    using addItems_view [of i "Items l'"] admitted_project [OF assms(9) l'(3,4)] assms(4,5,9) l'(3)
    by (simp_all add: inf_admitted_def)
  have flags: "i_synced ?i = i_synced i \<and> i_syncedChClosed ?i = i_syncedChClosed i"
    by (rule addItems_flags)
  let ?i' = "?i\<lparr>i_synced := True, i_syncedChClosed := True\<rparr>"
  have "startInformer st sch al s i = (s, ?i', Inr (startWatchLoop l' r))"
    using assms(2,4,6,7,10) l'(1,5) flags
    by (simp add: startInformer_def extracts_items_def inf_setSynced_def)
  with v l' assms(1) show ?thesis
    by (intro exI [of _ ?i'] exI [of _ "startWatchLoop l' r"])
      (auto simp: watch_inv_def startWatchLoop_def)
qed

end

end
