(* ===== verification/Cache_Inv.thy ===== *)
theory Cache_Inv
  imports Cache_Ops Cache_Follow
begin

text \<open>
  The invariant of \<open>storeCache\<close>: one live informer per kind with the configuration that the options
  give it, at most one watch goroutine and one processing goroutine for each, and a \<open>synced\<close> entry
  exactly for the informers whose first list has arrived.
\<close>

section \<open>What the goroutines keep of an informer\<close>

definition inf_kept :: "storeInformer \<Rightarrow> storeInformer \<Rightarrow> bool" where
  "inf_kept i i' \<longleftrightarrow>
     i_gvk i' = i_gvk i \<and> i_config i' = i_config i \<and> i_stopped i' = i_stopped i \<and>
     i_synced i' = i_synced i \<and> i_syncedChClosed i' = i_syncedChClosed i \<and> (inf_wf i \<longrightarrow> inf_wf i')"

lemma inf_kept_refl [simp]: "inf_kept i i"
  by (simp add: inf_kept_def)

lemma inf_kept_trans: "inf_kept i j \<Longrightarrow> inf_kept j k \<Longrightarrow> inf_kept i k"
  by (simp add: inf_kept_def)

lemma inf_kept_enqueue: "inf_kept i (inf_enqueue k e i)"
  by (simp add: inf_kept_def) (simp add: inf_enqueue_def)

lemma inf_kept_put: "inf_kept i (inf_put k o1 i)"
  by (auto simp: inf_kept_def inf_wf_put) (simp_all add: inf_put_def)

lemma inf_kept_drop: "inf_kept i (inf_drop k i)"
  by (auto simp: inf_kept_def inf_wf_drop) (simp_all add: inf_drop_def)

lemma inf_kept_fold:
  "(\<And>x j. inf_kept j (f x j)) \<Longrightarrow> inf_kept i (fold f xs i)"
  by (induction xs arbitrary: i) (auto intro: inf_kept_trans)

lemmas inf_kept_put_enqueue = inf_kept_trans [OF inf_kept_put inf_kept_enqueue]
lemmas inf_kept_drop_enqueue = inf_kept_trans [OF inf_kept_drop inf_kept_enqueue]

lemma inf_kept_add: "inf_kept i (inf_add o1 i)"
  by (simp add: inf_add_def Let_def inf_kept_put_enqueue split: sum.split)

lemma inf_kept_update: "inf_kept i (inf_update o1 i)"
  by (simp add: inf_update_def Let_def inf_kept_put_enqueue inf_kept_drop_enqueue split: sum.split option.split)

lemma inf_kept_delete: "inf_kept i (inf_delete o1 i)"
  by (simp add: inf_delete_def Let_def inf_kept_drop_enqueue split: option.split)

lemma inf_kept_event: "inf_kept i (inf_event e i)"
  by (simp add: inf_event_def inf_kept_add inf_kept_update inf_kept_delete split: EventType.split)

lemma inf_kept_enqueues: "inf_kept i (fold (\<lambda>(k, e). inf_enqueue k e) es i)"
  by (rule inf_kept_fold) (simp add: inf_kept_enqueue case_prod_unfold)

lemma inf_kept_resync: "inf_kept i (resyncInformer i)"
  unfolding resyncInformer_def by (rule inf_kept_fold) (simp add: inf_kept_enqueue case_prod_unfold)

lemma inf_kept_replaceAll: "inf_kept i (inf_replaceAll items i)"
proof -
  let ?i = "i\<lparr>i_objects := fold (inf_admit (i_config i)) items [],
      i_indices := fold (\<lambda>(k, o1). rebuildIndicesForObject (i_indexers i) k o1)
        (fold (inf_admit (i_config i)) items []) (\<lambda>name. map_option (\<lambda>_. Map.empty) (i_indices i name))\<rparr>"
  have "i_gvk (inf_replaceAll items i) = i_gvk ?i" "i_stopped (inf_replaceAll items i) = i_stopped ?i"
    "i_synced (inf_replaceAll items i) = i_synced ?i" "i_syncedChClosed (inf_replaceAll items i) = i_syncedChClosed ?i"
    using inf_kept_enqueues unfolding inf_replaceAll_def Let_def inf_kept_def by blast+
  then show ?thesis
    by (simp add: inf_kept_def replaceAll_view inf_wf_replaceAll)
qed

lemma inf_kept_setWatcher: "inf_kept i (inf_setWatcher x i)"
  by (simp add: inf_kept_def inf_setWatcher_def inf_wf_def)

lemma inf_kept_addIndexer: "inf_kept i (inf_addIndexer field f i)"
  by (simp add: inf_kept_def inf_wf_addIndexer) (simp add: inf_addIndexer_def)

lemma inf_kept_process: "inf_kept i (fst (inf_processOnce i))"
  by (simp add: inf_kept_def inf_wf_def) (simp add: inf_processOnce_def split: prod.split drain_outcome.split)

lemma inf_kept_relist: "relistInformer st al s i l = (s', i', l', e) \<Longrightarrow> inf_kept i i'"
  by (auto simp: relistInformer_def inf_kept_replaceAll split: prod.splits option.splits sum.splits)

lemma inf_kept_watch_step:
  assumes "watch_step st al ch (s, i, w) = (s', i', w')"
  shows "inf_kept i i'"
proof -
  have "inf_kept i (fst (snd (watch_dial st al (s, i, w))))"
    using inf_kept_relist
    by (fastforce simp: watch_dial_def inf_kept_setWatcher split: prod.split sum.split option.split)
  moreover have "inf_kept i (fst (snd (watch_receive st x (s, i, w))))" for x
    by (auto simp: watch_receive_def inf_kept_event split: prod.split recv.split)
  ultimately show ?thesis
    using assms by (auto simp: watch_step_def inf_kept_resync split: watch_phase.splits watch_choice.splits if_splits)
      (metis fst_conv snd_conv)+
qed

section \<open>Starting an informer\<close>

lemma inf_kept_addItems: "inf_kept i (addItems items i)"
  unfolding addItems_def by (rule inf_kept_fold) (simp add: inf_kept_add split: runtime_object.split)

lemma startInformer_kept:
  assumes "startInformer st sch al s i = (s', i', r)" and "\<not> i_synced i" and "\<not> i_syncedChClosed i"
  shows "i_gvk i' = i_gvk i \<and> i_config i' = i_config i \<and> i_stopped i' = i_stopped i \<and> (inf_wf i \<longrightarrow> inf_wf i') \<and>
    i_synced i' = (\<exists>w. r = Inr w) \<and> i_syncedChClosed i' = (\<exists>w. r = Inr w)"
proof -
  have kept: "inf_kept i (addItems items i)" for items by (rule inf_kept_addItems)
  then have synced: "inf_setSynced True (addItems items i) = Some ((addItems items i)\<lparr>i_synced := True, i_syncedChClosed := True\<rparr>)" for items
    using assms(2,3) by (simp add: inf_setSynced_def inf_kept_def)
  show ?thesis
    using assms kept
    by (auto simp: startInformer_def synced inf_kept_def inf_wf_def split: sum.splits runtime_object.splits prod.splits option.splits)
qed

section \<open>The invariant\<close>

declare map_of_eq_Some_iff [simp del]

definition informer_ok :: "'s cacheWorld \<Rightarrow> GroupVersionKind \<Rightarrow> nat \<Rightarrow> bool" where
  "informer_ok w gvk n \<longleftrightarrow>
     (let c = cw_cache w; i = c_heap c n
      in n < c_nextInformer c \<and> i_gvk i = gvk \<and> i_config i = resolveConfig c gvk \<and> inf_wf i \<and> \<not> i_stopped i \<and>
         i_synced i = c_synced c gvk \<and> i_syncedChClosed i = c_synced c gvk \<and>
         (cw_loops w n \<noteq> None) = c_synced c gvk \<and>
         cw_processors w n \<le> 1 \<and> (cw_processors w n = 0 \<longrightarrow> \<not> c_synced c gvk) \<and>
         (\<not> c_started c \<longrightarrow> cw_processors w n = 0))"

definition cache_wf :: "'s cacheWorld \<Rightarrow> bool" where
  "cache_wf w \<longleftrightarrow>
     (let c = cw_cache w
      in distinct (map fst (c_informers c)) \<and> distinct (map snd (c_informers c)) \<and>
         (\<forall>gvk n. map_of (c_informers c) gvk = Some n \<longrightarrow> informer_ok w gvk n) \<and>
         (\<forall>gvk. c_synced c gvk \<longrightarrow> (\<exists>n. map_of (c_informers c) gvk = Some n)) \<and>
         (\<forall>n. cw_processors w n \<le> 1 \<and> (c_nextInformer c \<le> n \<longrightarrow> cw_processors w n = 0 \<and> cw_loops w n = None)))"

lemma resolveConfig_cong:
  "c_informerConfigs c' = c_informerConfigs c \<Longrightarrow> c_opts c' = c_opts c \<Longrightarrow> resolveConfig c' gvk = resolveConfig c gvk"
  unfolding resolveConfig_def by (simp only:)

lemma map_of_snd_distinct:
  "distinct (map snd xs) \<Longrightarrow> map_of xs a = Some n \<Longrightarrow> map_of xs b = Some n \<Longrightarrow> a = b"
  by (metis distinct_map inj_onD map_of_SomeD prod.inject snd_conv)

lemma in_snd_map_of:
  assumes "distinct (map fst xs)" and "n \<in> set (map snd xs)"
  obtains a where "map_of xs a = Some n"
proof -
  from assms(2) obtain a where "(a, n) \<in> set xs" by auto
  with assms(1) have "map_of xs a = Some n" by (simp add: map_of_is_SomeI)
  then show thesis by (rule that)
qed

text \<open>Replacing one informer by one that keeps what the invariant speaks about.\<close>

lemma resolveConfig_setInformer [simp]: "resolveConfig (c_setInformer n i c) = resolveConfig c"
  by (rule ext, rule resolveConfig_cong) (simp_all add: c_setInformer_def)

lemma c_setInformer_simps [simp]:
  "c_informers (c_setInformer n i c) = c_informers c" "c_nextInformer (c_setInformer n i c) = c_nextInformer c"
  "c_synced (c_setInformer n i c) = c_synced c" "c_started (c_setInformer n i c) = c_started c"
  "c_opts (c_setInformer n i c) = c_opts c" "c_informerConfigs (c_setInformer n i c) = c_informerConfigs c"
  "c_heap (c_setInformer n i c) = (c_heap c)(n := i)"
  by (simp_all add: c_setInformer_def)

lemma informer_ok_set:
  assumes "informer_ok w gvk m" and "inf_kept (c_heap (cw_cache w) n) i"
    and "cw_cache w' = c_setInformer n i (cw_cache w)" and "cw_processors w' = cw_processors w"
    and "\<forall>m. (cw_loops w' m = None) = (cw_loops w m = None)"
  shows "informer_ok w' gvk m"
proof (cases "m = n")
  case True
  with assms show ?thesis by (simp add: informer_ok_def Let_def inf_kept_def)
next
  case False
  with assms show ?thesis by (simp add: informer_ok_def Let_def)
qed

lemma cache_wf_setInformer:
  assumes "cache_wf w" and "inf_kept (c_heap (cw_cache w) n) i"
    and "cw_cache w' = c_setInformer n i (cw_cache w)" and "cw_processors w' = cw_processors w"
    and "\<forall>m. (cw_loops w' m = None) = (cw_loops w m = None)"
  shows "cache_wf w'"
  using assms(1) informer_ok_set [OF _ assms(2-5)] assms(3-5)
  unfolding cache_wf_def Let_def by simp

lemma cache_wf_new: "cache_wf (newCacheWorld s (NewCache al opts))"
  by (simp add: cache_wf_def newCacheWorld_def NewCache_def Let_def)

text \<open>Starting a registered informer that was not started.\<close>

definition startable :: "'s cacheWorld \<Rightarrow> nat \<Rightarrow> bool" where
  "startable w n \<longleftrightarrow>
     c_started (cw_cache w) \<and> cw_processors w n = 0 \<and> (\<exists>gvk. map_of (c_informers (cw_cache w)) gvk = Some n)"

definition started_from :: "nat \<Rightarrow> 's cacheWorld \<Rightarrow> 's cacheWorld \<Rightarrow> bool" where
  "started_from n w w' \<longleftrightarrow>
     c_informers (cw_cache w') = c_informers (cw_cache w) \<and> c_started (cw_cache w') = c_started (cw_cache w) \<and>
     c_opts (cw_cache w') = c_opts (cw_cache w) \<and> c_informerConfigs (cw_cache w') = c_informerConfigs (cw_cache w) \<and>
     c_nextInformer (cw_cache w') = c_nextInformer (cw_cache w) \<and>
     cw_processors w' = (cw_processors w)(n := Suc (cw_processors w n)) \<and>
     (\<forall>gvk. c_synced (cw_cache w) gvk \<longrightarrow> c_synced (cw_cache w') gvk)"

lemma startInformer_wf:
  assumes wf: "cache_wf w" and n: "startable w n" and start: "cache_startInformer st sch al n w = (w', r)"
  shows "cache_wf w'" and "started_from n w w'"
    and "map_of (c_informers (cw_cache w)) g = Some n \<Longrightarrow> r = None \<longleftrightarrow> c_synced (cw_cache w') g"
proof -
  let ?c = "cw_cache w"
  obtain gvk where gvk: "map_of (c_informers ?c) gvk = Some n" and n0: "c_started ?c" "cw_processors w n = 0"
    using n by (auto simp: startable_def)
  have ok: "informer_ok w gvk n" using wf gvk by (simp add: cache_wf_def Let_def)
  then have i: "\<not> i_synced (c_heap ?c n)" "\<not> i_syncedChClosed (c_heap ?c n)" "\<not> c_synced ?c gvk" "i_gvk (c_heap ?c n) = gvk"
    using n0 by (auto simp: informer_ok_def Let_def)
  obtain s i' x where s: "startInformer st sch al (cw_store w) (c_heap ?c n) = (s, i', x)" by (rule prod_cases3)
  note kept = startInformer_kept [OF s i(1,2)]
  have uniq: "g = gvk" if "map_of (c_informers ?c) g = Some n" for g
    using wf that gvk map_of_snd_distinct by (fastforce simp: cache_wf_def Let_def)
  have w'_def: "w' = (let w1 = w\<lparr>cw_processors := (cw_processors w)(n := Suc (cw_processors w n))\<rparr>
      in case x of
           Inl e \<Rightarrow> w1\<lparr>cw_store := s, cw_cache := c_setInformer n i' ?c\<rparr>
         | Inr loop \<Rightarrow> w1\<lparr>cw_store := s, cw_loops := (cw_loops w)(n \<mapsto> loop),
             cw_cache := (c_setInformer n i' ?c)\<lparr>c_synced := (c_synced ?c)(gvk := True)\<rparr>\<rparr>)"
    and r: "r = (case x of Inl e \<Rightarrow> Some e | Inr _ \<Rightarrow> None)"
    using start kept i(4) by (simp_all add: cache_startInformer_def s Let_def split: sum.splits)
  have w': "cw_processors w' = (cw_processors w)(n := Suc (cw_processors w n))"
      "c_informers (cw_cache w') = c_informers ?c" "c_started (cw_cache w') = c_started ?c"
      "c_opts (cw_cache w') = c_opts ?c" "c_informerConfigs (cw_cache w') = c_informerConfigs ?c"
      "c_nextInformer (cw_cache w') = c_nextInformer ?c" "c_heap (cw_cache w') = (c_heap ?c)(n := i')"
      "c_synced (cw_cache w') = (if \<exists>l. x = Inr l then (c_synced ?c)(gvk := True) else c_synced ?c)"
      "\<forall>m. (cw_loops w' m = None) = (if m = n \<and> (\<exists>l. x = Inr l) then False else cw_loops w m = None)"
      "r = None \<longleftrightarrow> (\<exists>l. x = Inr l)"
    by (cases x; simp add: w'_def Let_def r)+
  show "started_from n w w'"
    using w' by (simp add: started_from_def)
  show "r = None \<longleftrightarrow> c_synced (cw_cache w') g" if "map_of (c_informers ?c) g = Some n"
    using w'(8,10) i(3) uniq [OF that] by simp
  have "informer_ok w' gvk n"
    using ok kept w' n0 i resolveConfig_cong [of "cw_cache w'" ?c gvk] by (simp add: informer_ok_def Let_def)
  moreover have "informer_ok w' g m" if "map_of (c_informers ?c) g = Some m" "g \<noteq> gvk" for g m
  proof -
    have "m \<noteq> n" using uniq that by blast
    moreover have "informer_ok w g m" using wf that by (simp add: cache_wf_def Let_def)
    ultimately show ?thesis
      using that w' resolveConfig_cong [of "cw_cache w'" ?c g] by (simp add: informer_ok_def Let_def)
  qed
  ultimately have "\<forall>g m. map_of (c_informers (cw_cache w')) g = Some m \<longrightarrow> informer_ok w' g m"
    using w'(2) gvk by (metis option.inject)
  moreover have "n < c_nextInformer ?c" using ok by (simp add: informer_ok_def Let_def)
  ultimately show "cache_wf w'"
    using wf w' gvk n0(2) unfolding cache_wf_def Let_def by (simp add: not_le [symmetric])
qed

lemma startAll_wf:
  assumes "cache_wf w" and "distinct ns" and "\<forall>n \<in> set ns. startable w n" and "startAll st sch al ns w = (w', r)"
  shows "cache_wf w' \<and> c_informers (cw_cache w') = c_informers (cw_cache w) \<and>
    c_started (cw_cache w') = c_started (cw_cache w) \<and>
    (\<forall>gvk. c_synced (cw_cache w) gvk \<longrightarrow> c_synced (cw_cache w') gvk) \<and>
    (r = None \<longrightarrow> (\<forall>n \<in> set ns. \<forall>gvk. map_of (c_informers (cw_cache w)) gvk = Some n \<longrightarrow> c_synced (cw_cache w') gvk))"
  using assms
proof (induction ns arbitrary: w)
  case Nil
  then show ?case by simp
next
  case (Cons n ns)
  obtain w1 e where w1: "cache_startInformer st sch al n w = (w1, e)" by (rule prod.exhaust)
  have n: "startable w n" using Cons.prems(3) by simp
  note wf1 = startInformer_wf [OF Cons.prems(1) n w1]
  have from1: "c_informers (cw_cache w1) = c_informers (cw_cache w)" "c_started (cw_cache w1) = c_started (cw_cache w)"
      "\<forall>gvk. c_synced (cw_cache w) gvk \<longrightarrow> c_synced (cw_cache w1) gvk"
      "cw_processors w1 = (cw_processors w)(n := Suc (cw_processors w n))"
    using wf1(2) by (auto simp: started_from_def)
  show ?case
  proof (cases e)
    case (Some err)
    then show ?thesis using Cons.prems(4) w1 wf1(1) from1 by auto
  next
    case None
    have rest: "startAll st sch al ns w1 = (w', r)" using Cons.prems(4) w1 None by simp
    have "\<forall>m \<in> set ns. startable w1 m"
      using Cons.prems(2,3) from1 by (auto simp: startable_def)
    from Cons.IH [OF wf1(1) _ this rest] Cons.prems(2) from1 wf1(3) None show ?thesis by auto
  qed
qed

lemma cache_wf_started:
  "cache_wf w \<Longrightarrow> cache_wf (w\<lparr>cw_cache := (cw_cache w)\<lparr>c_started := True\<rparr>\<rparr>)"
proof -
  assume wf: "cache_wf w"
  let ?w = "w\<lparr>cw_cache := (cw_cache w)\<lparr>c_started := True\<rparr>\<rparr>"
  have "informer_ok w gvk n \<Longrightarrow> informer_ok ?w gvk n" for gvk n
    using resolveConfig_cong [of "cw_cache ?w" "cw_cache w" gvk] by (simp add: informer_ok_def Let_def)
  with wf show "cache_wf ?w" unfolding cache_wf_def Let_def by simp
qed

lemma cache_Start_wf:
  assumes "cache_wf w" and "cache_Start st sch al w = (w', r)"
  shows "cache_wf w' \<and> c_informers (cw_cache w') = c_informers (cw_cache w) \<and> c_started (cw_cache w') \<and>
    (\<forall>gvk. c_synced (cw_cache w) gvk \<longrightarrow> c_synced (cw_cache w') gvk) \<and>
    (\<not> c_started (cw_cache w) \<longrightarrow> r = None \<longrightarrow>
       (\<forall>gvk \<in> keys_of (c_informers (cw_cache w)). c_synced (cw_cache w') gvk))"
proof (cases "c_started (cw_cache w)")
  case True
  then show ?thesis using assms by (simp add: cache_Start_def Let_def)
next
  case False
  let ?w = "w\<lparr>cw_cache := (cw_cache w)\<lparr>c_started := True\<rparr>\<rparr>" and ?infs = "c_informers (cw_cache w)"
  have d: "distinct (map fst ?infs)" "distinct (map snd ?infs)" using assms(1) by (simp_all add: cache_wf_def Let_def)
  have "\<forall>n \<in> set (map snd ?infs). startable ?w n"
  proof
    fix n assume "n \<in> set (map snd ?infs)"
    with d(1) obtain gvk where gvk: "map_of ?infs gvk = Some n" by (rule in_snd_map_of)
    then have "informer_ok w gvk n" using assms(1) by (simp add: cache_wf_def Let_def)
    with False have "cw_processors w n = 0" by (simp add: informer_ok_def Let_def)
    with gvk show "startable ?w n" by (auto simp: startable_def)
  qed
  from startAll_wf [OF cache_wf_started [OF assms(1)] d(2) this] assms(2) False d(1)
  show ?thesis by (force simp: cache_Start_def Let_def)
qed

section \<open>Registering and removing\<close>

lemma cache_wf_register:
  assumes wf: "cache_wf w" and new: "map_of (c_informers (cw_cache w)) gvk = None"
  shows "cache_wf (w\<lparr>cw_cache := c_register gvk (cw_cache w)\<rparr>)" (is "cache_wf ?w")
proof -
  let ?c = "cw_cache w"
  have unsynced: "\<not> c_synced ?c gvk" using wf new by (auto simp: cache_wf_def Let_def)
  have fresh: "cw_processors w (c_nextInformer ?c) = 0" "cw_loops w (c_nextInformer ?c) = None"
    using wf by (simp_all add: cache_wf_def Let_def)
  have cfg: "resolveConfig (c_register gvk ?c) g = resolveConfig ?c g" for g
    by (rule resolveConfig_cong) (simp_all add: c_register_def)
  have new_ok: "informer_ok ?w gvk (c_nextInformer ?c)"
    using unsynced fresh inf_wf_new [of gvk "resolveConfig ?c gvk"] cfg
    by (simp add: informer_ok_def Let_def c_register_def newStoreInformer_def)
  have old_ok: "informer_ok ?w g n" if "informer_ok w g n" for g n
    using that cfg by (simp add: informer_ok_def Let_def) (simp add: c_register_def)
  have fresh_id: "n \<noteq> c_nextInformer ?c" if mem: "n \<in> set (map snd (c_informers ?c))" for n
  proof -
    have "distinct (map fst (c_informers ?c))" using wf by (simp add: cache_wf_def Let_def)
    then obtain g where "map_of (c_informers ?c) g = Some n" using mem by (rule in_snd_map_of)
    then have "informer_ok w g n" using wf by (simp add: cache_wf_def Let_def)
    then show ?thesis by (simp add: informer_ok_def Let_def)
  qed
  have infs: "c_informers (c_register gvk ?c) = c_informers ?c @ [(gvk, c_nextInformer ?c)]"
      "c_synced (c_register gvk ?c) = c_synced ?c" "c_nextInformer (c_register gvk ?c) = Suc (c_nextInformer ?c)"
    using update_fresh [OF new] by (simp_all add: c_register_def)
  have "informer_ok ?w g n" if "map_of (c_informers ?c @ [(gvk, c_nextInformer ?c)]) g = Some n" for g n
  proof (cases "map_of (c_informers ?c) g")
    case None
    with that new_ok show ?thesis by (auto simp: map_add_def split: if_splits)
  next
    case (Some m)
    then have "informer_ok w g m" using wf by (simp add: cache_wf_def Let_def)
    moreover have "g \<noteq> gvk" using Some new by auto
    ultimately show ?thesis using that old_ok Some by (simp add: map_add_def)
  qed
  moreover have "gvk \<notin> keys_of (c_informers ?c)" using new by (simp add: map_of_eq_None_iff)
  moreover have "\<exists>n. map_of (c_informers ?c @ [(gvk, c_nextInformer ?c)]) g = Some n" if "c_synced ?c g" for g
    using wf that by (auto simp: cache_wf_def Let_def map_add_def split: option.split)
  moreover have "c_nextInformer ?c \<notin> set (map snd (c_informers ?c))" using fresh_id by blast
  ultimately show ?thesis
    using wf unfolding cache_wf_def Let_def by (auto simp: infs)
qed

lemma cache_wf_remove:
  assumes wf: "cache_wf w"
    and c: "c_informers (cw_cache w') = AList.delete gvk (c_informers (cw_cache w))"
      "c_synced (cw_cache w') = (c_synced (cw_cache w))(gvk := False)" "c_nextInformer (cw_cache w') = c_nextInformer (cw_cache w)"
      "c_started (cw_cache w') = c_started (cw_cache w)" "c_opts (cw_cache w') = c_opts (cw_cache w)"
      "c_informerConfigs (cw_cache w') = c_informerConfigs (cw_cache w)"
    and heap: "\<forall>n. map_of (c_informers (cw_cache w)) gvk \<noteq> Some n \<longrightarrow> c_heap (cw_cache w') n = c_heap (cw_cache w) n"
    and "cw_processors w' = cw_processors w" and "cw_loops w' = cw_loops w"
  shows "cache_wf w'"
proof -
  let ?infs = "c_informers (cw_cache w)"
  have d: "distinct (map snd ?infs)" using wf by (simp add: cache_wf_def Let_def)
  have "informer_ok w' g n" if "map_of (AList.delete gvk ?infs) g = Some n" for g n
  proof -
    have g: "g \<noteq> gvk" "map_of ?infs g = Some n" using that by (auto split: if_splits)
    then have "map_of ?infs gvk \<noteq> Some n" using map_of_snd_distinct [OF d] by blast
    moreover have "informer_ok w g n" using wf g(2) by (simp add: cache_wf_def Let_def)
    ultimately show ?thesis
      using g assms(3-10) resolveConfig_cong [of "cw_cache w'" "cw_cache w" g] by (simp add: informer_ok_def Let_def)
  qed
  moreover have "distinct (map snd (AList.delete gvk ?infs))"
    using d by (simp add: AList.delete_eq distinct_map_filter)
  ultimately show ?thesis
    using wf assms(2-10) unfolding cache_wf_def Let_def by (simp add: c(1))
qed

lemma cache_RemoveInformer_wf:
  assumes "cache_wf w" and "cache_RemoveInformer st al obj w = (w', r)"
  shows "cache_wf w'"
proof (cases "al_GVKForObject al (GoType obj)")
  case (Inl e)
  then show ?thesis using assms by (simp add: cache_RemoveInformer_def)
next
  case (Inr gvk)
  show ?thesis
  proof (cases "map_of (c_informers (cw_cache w)) gvk")
    case None
    then show ?thesis using assms Inr by (simp add: cache_RemoveInformer_def)
  next
    case (Some n)
    show ?thesis
      by (rule cache_wf_remove [OF assms(1), of w' gvk])
        (use assms(2) Inr Some in \<open>auto simp: cache_RemoveInformer_def inf_stop_def c_removeFromMap_def Let_def\<close>)
  qed
qed

text \<open>What \<open>getOrCreateInformer\<close> does to the map of informers.\<close>

lemma getOrCreate_cases:
  assumes wf: "cache_wf w" and get: "getOrCreateInformer st sch al gvk w = (w', r)"
  shows "cache_wf w'"
    and "case r of
       Inl e \<Rightarrow> map_of (c_informers (cw_cache w)) gvk = None \<and> c_informers (cw_cache w') = c_informers (cw_cache w)
     | Inr n \<Rightarrow> map_of (c_informers (cw_cache w')) = (map_of (c_informers (cw_cache w)))(gvk \<mapsto> n) \<and>
         (c_started (cw_cache w) \<longrightarrow> map_of (c_informers (cw_cache w)) gvk = None \<longrightarrow> c_synced (cw_cache w') gvk)"
    and "c_started (cw_cache w') = c_started (cw_cache w)"
    and "\<forall>g. c_synced (cw_cache w) g \<longrightarrow> c_synced (cw_cache w') g"
proof -
  let ?c = "cw_cache w" and ?P = "\<lambda>w' r. cache_wf w' \<and> (case r of
       Inl e \<Rightarrow> map_of (c_informers (cw_cache w)) gvk = None \<and> c_informers (cw_cache w') = c_informers (cw_cache w)
     | Inr n \<Rightarrow> map_of (c_informers (cw_cache w')) = (map_of (c_informers (cw_cache w)))(gvk \<mapsto> n) \<and>
         (c_started (cw_cache w) \<longrightarrow> map_of (c_informers (cw_cache w)) gvk = None \<longrightarrow> c_synced (cw_cache w') gvk)) \<and>
     c_started (cw_cache w') = c_started (cw_cache w) \<and>
     (\<forall>g. c_synced (cw_cache w) g \<longrightarrow> c_synced (cw_cache w') g)"
  have "?P w' r"
  proof (cases "map_of (c_informers ?c) gvk")
    case (Some n)
    then show ?thesis using get wf by (auto simp: getOrCreateInformer_def Let_def fun_upd_idem)
  next
    case None
    let ?w1 = "w\<lparr>cw_cache := c_register gvk ?c\<rparr>"
    have wf1: "cache_wf ?w1" using wf None by (rule cache_wf_register)
    have reg: "c_informers (c_register gvk ?c) = c_informers ?c @ [(gvk, c_nextInformer ?c)]"
        "c_synced (c_register gvk ?c) = c_synced ?c" "c_started (c_register gvk ?c) = c_started ?c"
      using update_fresh [OF None] by (simp_all add: c_register_def)
    have map1: "map_of (c_informers ?c @ [(gvk, c_nextInformer ?c)]) = (map_of (c_informers ?c))(gvk \<mapsto> c_nextInformer ?c)"
      using None by (auto simp: map_add_def split: option.split)
    have unsynced: "\<not> c_synced ?c gvk" using wf None by (auto simp: cache_wf_def Let_def)
    have del: "AList.delete gvk (c_informers ?c @ [(gvk, c_nextInformer ?c)]) = c_informers ?c"
      using None by (simp add: AList.delete_eq map_of_eq_None_iff filter_id_conv image_iff) force
    show ?thesis
    proof (cases "c_started ?c \<and> \<not> cw_ctxDone w")
      case False
      show ?thesis
      proof (cases "c_started ?c")
        case True
        with False get None have w': "w' = ?w1\<lparr>cw_cache := c_removeFromMap gvk (cw_cache ?w1)\<rparr>" "\<exists>e. r = Inl e"
          by (auto simp: getOrCreateInformer_def Let_def)
        have "cache_wf w'"
          by (rule cache_wf_remove [OF wf1, of w' gvk])
            (auto simp: w' c_removeFromMap_def reg(2) fun_upd_idem unsynced)
        with w' show ?thesis by (auto simp: c_removeFromMap_def reg del None)
      next
        case F: False
        with get None have "w' = ?w1" "r = Inr (c_nextInformer ?c)"
          by (auto simp: getOrCreateInformer_def Let_def)
        with wf1 F show ?thesis by (simp add: reg map1 del: map_of_append)
      qed
    next
      case True
      let ?n = "c_nextInformer ?c"
      obtain w2 e where w2: "cache_startInformer st sch al ?n ?w1 = (w2, e)" by (rule prod.exhaust)
      have st: "startable ?w1 ?n"
        using True wf reg map1 by (auto simp: startable_def cache_wf_def Let_def simp del: map_of_append)
      note wf2 = startInformer_wf [OF wf1 st w2]
      have from2: "c_informers (cw_cache w2) = c_informers ?c @ [(gvk, ?n)]" "c_started (cw_cache w2) = c_started ?c"
          "\<forall>g. c_synced ?c g \<longrightarrow> c_synced (cw_cache w2) g"
        using wf2(2) reg by (auto simp: started_from_def)
      have synced2: "e = None \<longleftrightarrow> c_synced (cw_cache w2) gvk"
        using wf2(3) [of gvk] map1 reg(1) by (simp del: map_of_append)
      show ?thesis
      proof (cases e)
        case e: None
        then have "w' = w2" "r = Inr ?n" using get None True w2 by (auto simp: getOrCreateInformer_def Let_def)
        with wf2(1) from2 synced2 e show ?thesis by (simp add: map1 del: map_of_append)
      next
        case (Some err)
        then have w': "w' = w2\<lparr>cw_cache := c_removeFromMap gvk (cw_cache w2)\<rparr>" "r = Inl err"
          using get None True w2 by (auto simp: getOrCreateInformer_def Let_def)
        have "cache_wf w'"
          by (rule cache_wf_remove [OF wf2(1), of w' gvk])
            (use synced2 Some in \<open>auto simp: w' c_removeFromMap_def fun_upd_idem\<close>)
        with w' from2 show ?thesis by (simp add: c_removeFromMap_def del None)
      qed
    qed
  qed
  then show "cache_wf w'" and "case r of
       Inl e \<Rightarrow> map_of (c_informers (cw_cache w)) gvk = None \<and> c_informers (cw_cache w') = c_informers (cw_cache w)
     | Inr n \<Rightarrow> map_of (c_informers (cw_cache w')) = (map_of (c_informers (cw_cache w)))(gvk \<mapsto> n) \<and>
         (c_started (cw_cache w) \<longrightarrow> map_of (c_informers (cw_cache w)) gvk = None \<longrightarrow> c_synced (cw_cache w') gvk)"
    and "c_started (cw_cache w') = c_started (cw_cache w)"
    and "\<forall>g. c_synced (cw_cache w) g \<longrightarrow> c_synced (cw_cache w') g"
    by blast+
qed

section \<open>Every operation\<close>

text \<open>Once \<open>Start\<close> has succeeded, every registered informer is synced.\<close>

definition all_synced :: "'s cacheWorld \<Rightarrow> bool" where
  "all_synced w \<longleftrightarrow>
     c_started (cw_cache w) \<and> (\<forall>gvk n. map_of (c_informers (cw_cache w)) gvk = Some n \<longrightarrow> c_synced (cw_cache w) gvk)"

definition cache_keeps :: "'s cacheWorld \<Rightarrow> 's cacheWorld \<Rightarrow> bool" where
  "cache_keeps w w' \<longleftrightarrow> (cache_wf w \<longrightarrow> cache_wf w' \<and> (all_synced w \<longrightarrow> all_synced w'))"

lemma cache_keeps_refl [simp]: "cache_keeps w w"
  by (simp add: cache_keeps_def)

lemma cache_keeps_trans: "cache_keeps u v \<Longrightarrow> cache_keeps v w \<Longrightarrow> cache_keeps u w"
  by (auto simp: cache_keeps_def)

lemma getOrCreate_keeps: "getOrCreateInformer st sch al gvk w = (w', r) \<Longrightarrow> cache_keeps w w'"
proof -
  assume get: "getOrCreateInformer st sch al gvk w = (w', r)"
  have "cache_wf w' \<and> (all_synced w \<longrightarrow> all_synced w')" if wf: "cache_wf w"
    using getOrCreate_cases [OF wf get]
    by (cases r) (auto simp: all_synced_def split: if_splits)
  then show "cache_keeps w w'" by (simp add: cache_keeps_def)
qed

lemma getOrCreate_fst_keeps: "cache_keeps w (fst (getOrCreateInformer st sch al gvk w))"
  by (metis getOrCreate_keeps prod.collapse)

lemma setInformer_keeps:
  assumes "inf_kept (c_heap (cw_cache w) n) i"
    and "cw_cache w' = c_setInformer n i (cw_cache w)" and "cw_processors w' = cw_processors w"
    and "\<forall>m. (cw_loops w' m = None) = (cw_loops w m = None)"
  shows "cache_keeps w w'"
  using cache_wf_setInformer [OF _ assms] assms(2) by (auto simp: cache_keeps_def all_synced_def)

lemma loopStep_keeps: "cache_keeps w (cache_loopStep st al n ch w)"
proof (cases "cw_loops w n")
  case None
  then show ?thesis by (simp add: cache_loopStep_def)
next
  case (Some loop)
  obtain s i l where step: "watch_step st al ch (cw_store w, c_heap (cw_cache w) n, loop) = (s, i, l)"
    by (rule prod_cases3)
  show ?thesis
    by (rule setInformer_keeps [OF inf_kept_watch_step [OF step]])
      (simp_all add: cache_loopStep_def Some step)
qed

lemma RemoveInformer_keeps: "cache_RemoveInformer st al obj w = (w', r) \<Longrightarrow> cache_keeps w w'"
proof -
  assume rem: "cache_RemoveInformer st al obj w = (w', r)"
  have "all_synced w \<longrightarrow> all_synced w'"
    using rem by (auto simp: cache_RemoveInformer_def all_synced_def Let_def inf_stop_def c_removeFromMap_def
        split: sum.splits option.splits if_splits)
  with cache_RemoveInformer_wf [OF _ rem] show "cache_keeps w w'" by (simp add: cache_keeps_def)
qed

lemma IndexField_keeps:
  assumes "cache_IndexField st sch al obj field f w = (w', r)"
  shows "cache_keeps w w'"
proof (cases "al_GVKForObject al (GoType obj)")
  case (Inl e)
  then show ?thesis using assms by (simp add: cache_IndexField_def)
next
  case (Inr gvk)
  obtain w1 x where get: "getOrCreateInformer st sch al gvk w = (w1, x)" by (rule prod.exhaust)
  note keeps1 = getOrCreate_keeps [OF get]
  show ?thesis
  proof (cases x)
    case (Inl e)
    then show ?thesis using assms Inr get keeps1 by (simp add: cache_IndexField_def)
  next
    case x: (Inr n)
    have "cache_keeps w1 w'"
      by (rule setInformer_keeps [OF inf_kept_addIndexer, of w' n field f w1])
        (use assms Inr get x in \<open>auto simp: cache_IndexField_def\<close>)
    with keeps1 show ?thesis by (rule cache_keeps_trans)
  qed
qed

lemma Get_keeps: "cache_keeps w (fst (cache_Get st sch al key obj w))"
  using getOrCreate_keeps by (fastforce simp: cache_Get_def split: sum.split option.split prod.split)

lemma List_keeps: "cache_keeps w (fst (cache_List st sch al lst opts w))"
  using getOrCreate_keeps
  by (fastforce simp: cache_List_def Let_def split: sum.split option.split prod.split runtime_object.split)

lemma Start_keeps: "cache_keeps w (fst (cache_Start st sch al w))"
proof -
  obtain w' r where st: "cache_Start st sch al w = (w', r)" by (rule prod.exhaust)
  show ?thesis
    using cache_Start_wf [OF _ st] st by (auto simp: cache_keeps_def all_synced_def)
qed

lemma cache_exec_keeps: "cache_keeps w (cache_exec st sch al op w)"
proof (cases op)
  case (CGetInformer obj)
  then show ?thesis
    by (simp add: cache_GetInformer_def getOrCreate_fst_keeps split: sum.split)
next
  case (CGetInformerForKind gvk)
  then show ?thesis
    by (simp add: cache_GetInformerForKind_def getOrCreate_fst_keeps split: sum.split runtime_object.split)
next
  case (CProcess n)
  then show ?thesis
    by (auto simp: cache_process_def intro: setInformer_keeps [OF inf_kept_process])
next
  case (CCloseQueue n)
  have "inf_kept i (i\<lparr>i_queue := close (i_queue i)\<rparr>)" for i
    by (simp add: inf_kept_def inf_wf_def)
  note set = setInformer_keeps [OF this]
  from CCloseQueue show ?thesis
    by (auto simp: cache_closeQueue_def Let_def intro: set)
next
  case (COther f)
  then show ?thesis by (simp add: cache_keeps_def cache_wf_def informer_ok_def all_synced_def)
next
  case CCancel
  then show ?thesis by (simp add: cache_cancel_def cache_keeps_def cache_wf_def informer_ok_def all_synced_def)
next
  case (CRemoveInformer obj)
  then show ?thesis using RemoveInformer_keeps [of st al obj w] by (metis cache_exec.simps(5) prod.collapse)
next
  case (CIndexField obj field f)
  then show ?thesis using IndexField_keeps [of st sch al obj field f w] by (metis cache_exec.simps(7) prod.collapse)
qed (simp_all add: Get_keeps List_keeps Start_keeps loopStep_keeps)

lemma cache_run_keeps: "cache_keeps w (fold (cache_exec st sch al) ops w)"
  by (induction ops arbitrary: w) (auto intro: cache_keeps_trans cache_exec_keeps)

lemma cache_run_wf: "cache_wf (fold (cache_exec st sch al) ops (newCacheWorld s (NewCache al opts)))"
  using cache_run_keeps [of "newCacheWorld s (NewCache al opts)" st sch al ops] cache_wf_new [of s al opts]
  by (simp add: cache_keeps_def)

end
