(* ===== verification/Revision_Log.thy ===== *)
theory Revision_Log
  imports Store_API
begin

text \<open>
  The contract of a bounded event log with a revision counter, as a locale: what
  \<open>logEvent\<close> and \<open>eventsSince\<close> promise, whichever backend implements them. The lemmas of the locale
  show once, for every provider, that a resumed watch misses nothing: \<open>eventsSince r\<close> either
  returns all events after revision \<open>r\<close>, in order, or reports that they are gone.
\<close>

section \<open>Log entries\<close>

record eventLogEntry =
  le_revision :: int
  le_gvk :: GroupVersionKind
  le_event :: Event

section \<open>Contiguous logs\<close>

definition contiguous :: "eventLogEntry list \<Rightarrow> int \<Rightarrow> bool" where
  "contiguous l r \<longleftrightarrow> map le_revision l = [r - int (length l) + 1 .. r]"

lemma contiguous_Nil [simp]: "contiguous [] r"
  by (simp add: contiguous_def)

lemma contiguous_snoc:
  "contiguous l r \<Longrightarrow> le_revision en = r + 1 \<Longrightarrow> contiguous (l @ [en]) (r + 1)"
  by (simp add: contiguous_def upto_rec2)

lemma contiguous_append:
  "contiguous l r \<Longrightarrow> contiguous h q \<Longrightarrow> q = r + int (length h) \<Longrightarrow> contiguous (l @ h) q"
  by (simp add: contiguous_def upto_append)

lemma contiguous_drop: "contiguous l r \<Longrightarrow> contiguous (drop n l) r"
proof (induction n arbitrary: l)
  case 0
  then show ?case by simp
next
  case (Suc n)
  show ?case
  proof (cases l)
    case Nil
    then show ?thesis by simp
  next
    case (Cons en l')
    with Suc.prems have "contiguous l' r"
      by (simp add: contiguous_def upto_rec1)
    with Suc.IH Cons show ?thesis by simp
  qed
qed

lemma contiguous_last_n: "contiguous l r \<Longrightarrow> contiguous (last_n n l) r"
  by (simp add: last_n_def contiguous_drop)

lemma contiguous_bounds:
  "contiguous l r \<Longrightarrow> en \<in> set l \<Longrightarrow> r - int (length l) < le_revision en \<and> le_revision en \<le> r"
proof -
  assume c: "contiguous l r" and "en \<in> set l"
  then have "le_revision en \<in> set [r - int (length l) + 1 .. r]"
    unfolding contiguous_def by (metis image_eqI list.set_map)
  then show ?thesis by simp
qed

lemma contiguous_hd: "contiguous (en # l) r \<Longrightarrow> le_revision en = r - int (length l)"
  by (simp add: contiguous_def upto_rec1)

text \<open>Among the entries of a contiguous log, those after \<open>r\<close> are a suffix.\<close>

lemma contiguous_filter_suffix:
  assumes "contiguous (pre @ h) q" and "q = r + int (length h)"
  shows "filter (\<lambda>en. r < le_revision en) (pre @ h) = h"
proof -
  have ph: "map le_revision (pre @ h) = [q - int (length (pre @ h)) + 1 .. q]"
    using assms(1) by (simp only: contiguous_def)
  have "contiguous h q"
    using contiguous_drop [OF assms(1), of "length pre"] by simp
  then have later: "filter (\<lambda>en. r < le_revision en) h = h"
    using assms(2) by (auto simp: filter_id_conv dest: contiguous_bounds)
  have "[q - int (length (pre @ h)) + 1 .. q] = [r - int (length pre) + 1 .. r] @ [r + 1 .. q]"
    using assms(2) by (subst upto_append) (auto simp: algebra_simps)
  with ph have "map le_revision pre @ map le_revision h = [r - int (length pre) + 1 .. r] @ [r + 1 .. q]"
    by simp
  then have "map le_revision pre = [r - int (length pre) + 1 .. r]"
    by (rule append_eq_append_conv [THEN iffD1, THEN conjunct1, rotated]) simp
  then have "\<forall>en \<in> set pre. le_revision en \<le> r"
    by (metis atLeastAtMost_iff image_eqI list.set_map set_upto)
  then have "filter (\<lambda>en. r < le_revision en) pre = []"
    by (auto simp: filter_empty_conv)
  with later show ?thesis by simp
qed

section \<open>The contract\<close>

locale revision_log =
  fixes rev_of :: "'s \<Rightarrow> int"
    and log_of :: "'s \<Rightarrow> eventLogEntry list"
    and max_of :: "'s \<Rightarrow> int"
    and log_event :: "'s \<Rightarrow> GroupVersionKind \<Rightarrow> int \<Rightarrow> Event \<Rightarrow> 's option"
    and since :: "'s \<Rightarrow> int \<Rightarrow> GroupVersionKind \<Rightarrow> error + Event list"
  assumes log_event_log:
      "0 \<le> max_of s \<Longrightarrow> \<exists>s'. log_event s gvk rv e = Some s' \<and> rev_of s' = rev_of s \<and> max_of s' = max_of s \<and>
         log_of s' = last_n (nat (max_of s)) (log_of s @ [\<lparr>le_revision = rv, le_gvk = gvk, le_event = e\<rparr>])"
    and since_current: "rev_of s \<le> r \<Longrightarrow> since s r gvk = Inr []"
    and since_empty: "r < rev_of s \<Longrightarrow> log_of s = [] \<Longrightarrow>
         since s r gvk = Inl (RevisionTooOldError r (add64 (rev_of s) 1))"
    and since_too_old: "r < rev_of s \<Longrightarrow> log_of s = en # l \<Longrightarrow> add64 r 1 < le_revision en \<Longrightarrow>
         since s r gvk = Inl (RevisionTooOldError r (le_revision en))"
    and since_replay: "r < rev_of s \<Longrightarrow> log_of s = en # l \<Longrightarrow> \<not> add64 r 1 < le_revision en \<Longrightarrow>
         since s r gvk = Inr (map le_event
           (filter (\<lambda>en. r < le_revision en \<and> le_gvk en = gvk) (log_of s)))"
begin

text \<open>
  If the log is what is left of \<open>pre\<close>, the entries up to revision \<open>r\<close>, and \<open>h\<close>, those after it,
  then the answer depends only on whether the log still holds all of \<open>h\<close>.
\<close>

lemma since_spec:
  assumes log: "log_of s = last_n n (pre @ h)" and con: "contiguous (pre @ h) (rev_of s)"
    and h: "rev_of s = r + int (length h)" and range: "is_int64 (rev_of s)" "is_int64 r"
  shows "since s r gvk =
    (if length h \<le> n then Inr (map le_event (filter (\<lambda>en. le_gvk en = gvk) h))
     else Inl (RevisionTooOldError r (if n = 0 then add64 (rev_of s) 1 else rev_of s - int n + 1)))"
proof (cases "h = []")
  case True
  with h since_current show ?thesis by simp
next
  case False
  then have lt: "r < rev_of s" using h by simp
  then have r1: "add64 r 1 = r + 1"
    using range by (intro add64_exact) (simp add: is_int64_def)
  define m where "m = min n (length (pre @ h))"
  show ?thesis
  proof (cases "log_of s")
    case Nil
    then have "min n (length (pre @ h)) = 0"
      using log by (metis length_last_n list.size(3))
    with False have "n = 0" by (auto simp: min_def split: if_splits)
    with Nil lt since_empty False show ?thesis by simp
  next
    case (Cons en l)
    have len: "length (log_of s) = m" by (simp add: log m_def)
    have "contiguous (log_of s) (rev_of s)"
      by (simp add: log con contiguous_last_n)
    then have hd: "le_revision en = rev_of s - int m + 1"
      using Cons len by (auto dest!: contiguous_hd)
    show ?thesis
    proof (cases "length h \<le> n")
      case True
      obtain pre' where pre': "log_of s = pre' @ h"
        using log True by (auto simp: last_n_append)
      have "\<not> add64 r 1 < le_revision en"
        using hd r1 h True by (auto simp: m_def)
      moreover have "filter (\<lambda>en. r < le_revision en) (log_of s) = h"
        using \<open>contiguous (log_of s) (rev_of s)\<close> h unfolding pre' by (rule contiguous_filter_suffix)
      then have "filter (\<lambda>en. r < le_revision en \<and> le_gvk en = gvk) (log_of s)
          = filter (\<lambda>en. le_gvk en = gvk) h"
        by (metis (no_types, lifting) filter_filter filter_cong)
      ultimately show ?thesis
        using True lt since_replay [OF lt Cons] by simp
    next
      case False
      then have "m = n" by (simp add: m_def)
      moreover have "0 < n" using Cons len \<open>m = n\<close> by auto
      ultimately show ?thesis
        using False lt hd r1 h since_too_old [OF lt Cons] by simp
    qed
  qed
qed

end

end
