(* ===== verification/Memory_Store.thy ===== *)
theory Memory_Store
  imports Revision_Log
begin

text \<open>
  The in-memory backend: \<open>memory/store.go\<close> and \<open>memory/watcher.go\<close>. The state is the record
  \<open>MemoryStore\<close>; each method of the Go type is one function on it, which runs under the store's
  mutex and is therefore one atomic step. The watchers that \<open>Watch\<close> hands out live in a heap
  (\<open>wheap\<close>) indexed by the identity of the pointer.
\<close>

section \<open>State\<close>

record memoryWatcher =
  w_gvk :: GroupVersionKind
  w_ch :: "Event list"
  w_cap :: nat
  w_closed :: bool

record MemoryStore =
  objects :: "GroupVersionKind \<rightharpoonup> (ObjectKey, object) gomap"
  watchers :: "GroupVersionKind \<Rightarrow> watcher_id list"
  uidCounter :: int
  revision :: int
  eventLog :: "eventLogEntry list"
  eventLogMax :: int
  wheap :: "watcher_id \<Rightarrow> memoryWatcher"
  nextWatcher :: nat

definition defaultEventLogSize :: int where
  "defaultEventLogSize = 1000"

type_synonym mem_option = "MemoryStore \<Rightarrow> MemoryStore"

definition mem_WithEventLogSize :: "int \<Rightarrow> mem_option" where
  "mem_WithEventLogSize n = (\<lambda>s. s\<lparr>eventLogMax := n\<rparr>)"

definition nil_watcher :: memoryWatcher where
  "nil_watcher = \<lparr>w_gvk = \<lparr>Group = [], Version = [], Kind = []\<rparr>, w_ch = [], w_cap = 0, w_closed = True\<rparr>"

definition mem_NewStore :: "mem_option list \<Rightarrow> MemoryStore" where
  "mem_NewStore opts =
     fold (\<lambda>opt s. opt s) opts
       \<lparr>objects = Map.empty, watchers = (\<lambda>_. []), uidCounter = 0, revision = 0, eventLog = [],
        eventLogMax = defaultEventLogSize, wheap = (\<lambda>_. nil_watcher), nextWatcher = 0\<rparr>"

section \<open>Watchers\<close>

definition newMemoryWatcher :: "GroupVersionKind \<Rightarrow> nat \<Rightarrow> memoryWatcher" where
  "newMemoryWatcher gvk bufSize = \<lparr>w_gvk = gvk, w_ch = [], w_cap = bufSize, w_closed = False\<rparr>"

text \<open>A plain channel send; \<open>None\<close> is a send that blocks because the buffer is full.\<close>

definition chan_send :: "memoryWatcher \<Rightarrow> Event \<Rightarrow> memoryWatcher option" where
  "chan_send w e = (if length (w_ch w) < w_cap w then Some (w\<lparr>w_ch := w_ch w @ [e]\<rparr>) else None)"

definition memw_isStopped :: "memoryWatcher \<Rightarrow> bool" where
  "memw_isStopped w = w_closed w"

definition memw_send :: "memoryWatcher \<Rightarrow> Event \<Rightarrow> memoryWatcher" where
  "memw_send w e =
     (if w_closed w then w
      else case chan_send w e of
             Some w' \<Rightarrow> w'
           | None \<Rightarrow> w\<lparr>w_closed := True\<rparr>)"

definition memw_Recv :: "memoryWatcher \<Rightarrow> memoryWatcher \<times> recv" where
  "memw_Recv w =
     (case w_ch w of
        e # es \<Rightarrow> (w\<lparr>w_ch := es\<rparr>, Received e)
      | [] \<Rightarrow> (w, if w_closed w then ChanClosed else WouldBlock))"

definition mem_Recv :: "MemoryStore \<Rightarrow> watcher_id \<Rightarrow> MemoryStore \<times> recv" where
  "mem_Recv s i =
     (let r = memw_Recv (wheap s i) in (s\<lparr>wheap := (wheap s)(i := fst r)\<rparr>, snd r))"

definition mem_removeWatcher :: "MemoryStore \<Rightarrow> GroupVersionKind \<Rightarrow> watcher_id \<Rightarrow> MemoryStore" where
  "mem_removeWatcher s gvk i =
     s\<lparr>watchers := (watchers s)(gvk := filter (\<lambda>w. w \<noteq> i) (watchers s gvk))\<rparr>"

definition mem_Stop :: "MemoryStore \<Rightarrow> watcher_id \<Rightarrow> MemoryStore" where
  "mem_Stop s i =
     (let w = wheap s i;
          s1 = (if w_closed w then s else s\<lparr>wheap := (wheap s)(i := w\<lparr>w_closed := True\<rparr>)\<rparr>)
      in mem_removeWatcher s1 (w_gvk w) i)"

section \<open>Helpers\<close>

definition mem_gvkForObject :: "scheme \<Rightarrow> object \<Rightarrow> error + GroupVersionKind" where
  "mem_gvkForObject sch obj =
     (case sch_ObjectKinds sch (GoType obj) of
        Inl e \<Rightarrow> Inl e
      | Inr [] \<Rightarrow> Inl (Error (''no GVK found for object type *'' @ GoType obj))
      | Inr (gvk # _) \<Rightarrow> Inr gvk)"

definition mem_gvkForList :: "scheme \<Rightarrow> object_list \<Rightarrow> error + GroupVersionKind" where
  "mem_gvkForList sch lst =
     (case sch_ObjectKinds sch (ListType lst) of
        Inl e \<Rightarrow> Inl e
      | Inr [] \<Rightarrow> Inl (Error (''no GVK found for list type *'' @ ListType lst))
      | Inr (gvk # _) \<Rightarrow> Inr (gvk\<lparr>Kind := TrimListSuffix (Kind gvk)\<rparr>))"

definition mem_contentEqual :: "object \<Rightarrow> object \<Rightarrow> bool" where
  "mem_contentEqual stored incoming =
     (let inCopy = SetUID (GetUID stored) (SetResourceVersion (GetResourceVersion stored) incoming)
      in marshal Compact stored = marshal Compact inCopy)"

definition mem_copyObject :: "scheme \<Rightarrow> object \<Rightarrow> object \<Rightarrow> error + object" where
  "mem_copyObject sch src dst = unmarshalInto sch (marshal Compact src) dst"

definition mem_populateListItems :: "scheme \<Rightarrow> object_list \<Rightarrow> object list \<Rightarrow> object_list \<times> error option" where
  "mem_populateListItems sch lst items =
     (case sch_itemsField sch (ListType lst) of
        NoItemsField \<Rightarrow> (lst, Some (Error (''list type *'' @ ListType lst @ '' does not have Items field'')))
      | UnsettableItems \<Rightarrow> (lst, Some (Error (''Items field of list type *'' @ ListType lst @ '' cannot be set'')))
      | ItemsOf ty \<Rightarrow>
          (if list_all (\<lambda>i. GoType i = ty) items then (lst\<lparr>Items := items\<rparr>, None)
           else (lst, Some (Panic ''reflect.Append'')))
      | ItemsOfPtr ty \<Rightarrow>
          (if items = [] then (lst\<lparr>Items := []\<rparr>, None) else (lst, Some (Panic ''reflect.Append''))))"

definition mem_generateUID :: "MemoryStore \<Rightarrow> MemoryStore \<times> string" where
  "mem_generateUID s =
     (let n = add64 (uidCounter s) 1 in (s\<lparr>uidCounter := n\<rparr>, ''uid-'' @ FormatInt n))"

text \<open>
  The loop of \<open>notifyWatchers\<close>: stopped watchers are dropped, the others stay registered and are
  sent the event (a watcher that overflows is closed now and dropped by the next call).
\<close>

fun mem_notifyLoop ::
  "watcher_id list \<Rightarrow> Event \<Rightarrow> (watcher_id \<Rightarrow> memoryWatcher) \<Rightarrow> watcher_id list
   \<Rightarrow> (watcher_id \<Rightarrow> memoryWatcher) \<times> watcher_id list" where
  "mem_notifyLoop [] e h active = (h, active)"
| "mem_notifyLoop (i # is) e h active =
     (if memw_isStopped (h i) then mem_notifyLoop is e h active
      else mem_notifyLoop is e (h(i := memw_send (h i) e)) (active @ [i]))"

definition mem_notifyWatchers :: "MemoryStore \<Rightarrow> GroupVersionKind \<Rightarrow> Event \<Rightarrow> MemoryStore" where
  "mem_notifyWatchers s gvk e =
     (let r = mem_notifyLoop (watchers s gvk) e (wheap s) []
      in s\<lparr>wheap := fst r, watchers := (watchers s)(gvk := snd r)\<rparr>)"

text \<open>
  \<open>None\<close> is the run-time panic of \<open>make\<close> with a negative length, which a negative
  \<open>WithEventLogSize\<close> leads to.
\<close>

definition mem_logEvent ::
  "MemoryStore \<Rightarrow> GroupVersionKind \<Rightarrow> int \<Rightarrow> Event \<Rightarrow> MemoryStore option" where
  "mem_logEvent s gvk rv e =
     (let l = eventLog s @ [\<lparr>le_revision = rv, le_gvk = gvk, le_event = e\<rparr>]
      in if int (length l) > eventLogMax s then
           (if eventLogMax s < 0 then None
            else Some (s\<lparr>eventLog := drop (length l - nat (eventLogMax s)) l\<rparr>))
         else Some (s\<lparr>eventLog := l\<rparr>))"

definition mem_eventsSince ::
  "MemoryStore \<Rightarrow> int \<Rightarrow> GroupVersionKind \<Rightarrow> error + Event list" where
  "mem_eventsSince s fromRevision gvk =
     (let currentRevision = revision s
      in if fromRevision \<ge> currentRevision then Inr []
         else case eventLog s of
                [] \<Rightarrow> Inl (RevisionTooOldError fromRevision (add64 currentRevision 1))
              | oldest # _ \<Rightarrow>
                  if add64 fromRevision 1 < le_revision oldest
                  then Inl (RevisionTooOldError fromRevision (le_revision oldest))
                  else Inr (map le_event
                         (filter (\<lambda>en. le_revision en > fromRevision \<and> le_gvk en = gvk) (eventLog s))))"

text \<open>What every mutation does last under the lock: log the event, then notify.\<close>

definition mem_emit ::
  "MemoryStore \<Rightarrow> GroupVersionKind \<Rightarrow> int \<Rightarrow> Event \<Rightarrow> MemoryStore option" where
  "mem_emit s gvk rv e = map_option (\<lambda>s1. mem_notifyWatchers s1 gvk e) (mem_logEvent s gvk rv e)"

definition mem_copyBack ::
  "scheme \<Rightarrow> MemoryStore \<Rightarrow> object \<Rightarrow> object \<Rightarrow> MemoryStore \<times> object \<times> error option" where
  "mem_copyBack sch s src dst =
     (case mem_copyObject sch src dst of
        Inl e \<Rightarrow> (s, dst, Some e)
      | Inr o1 \<Rightarrow> (s, o1, None))"

section \<open>Reads\<close>

definition mem_Get :: "scheme \<Rightarrow> MemoryStore \<Rightarrow> ObjectKey \<Rightarrow> object \<Rightarrow> object \<times> error option" where
  "mem_Get sch s key obj =
     (case mem_gvkForObject sch obj of
        Inl e \<Rightarrow> (obj, Some e)
      | Inr gvk \<Rightarrow>
          (case objects s gvk of
             None \<Rightarrow> (obj, Some (NotFoundError (ObjectKey_String key)))
           | Some gvkMap \<Rightarrow>
               (case map_of gvkMap key of
                  None \<Rightarrow> (obj, Some (NotFoundError (ObjectKey_String key)))
                | Some stored \<Rightarrow> snd (mem_copyBack sch s stored obj))))"

definition mem_listMatches :: "ListOptions \<Rightarrow> ObjectKey \<Rightarrow> object \<Rightarrow> bool" where
  "mem_listMatches lo key obj \<longleftrightarrow>
     \<not> (lo_Namespace lo \<noteq> [] \<and> key_Namespace key \<noteq> lo_Namespace lo) \<and>
     (case lo_LabelSelector lo of None \<Rightarrow> True | Some sel \<Rightarrow> sel_Matches sel (GetLabels obj))"

definition mem_List ::
  "scheme \<Rightarrow> MemoryStore \<Rightarrow> object_list \<Rightarrow> ListOption list \<Rightarrow> object_list \<times> error option" where
  "mem_List sch s lst opts =
     (case mem_gvkForList sch lst of
        Inl e \<Rightarrow> (lst, Some e)
      | Inr gvk \<Rightarrow>
          (let listOpts = applyListOptions opts;
               gvkMap = (case objects s gvk of None \<Rightarrow> [] | Some m \<Rightarrow> m);
               filtered = map snd (filter (\<lambda>(key, obj). mem_listMatches listOpts key obj) gvkMap)
           in mem_populateListItems sch (lst\<lparr>ListResourceVersion := FormatInt (revision s)\<rparr>) filtered))"

section \<open>Writes\<close>

definition mem_Create :: "scheme \<Rightarrow> MemoryStore \<Rightarrow> object \<Rightarrow> MemoryStore \<times> object \<times> error option" where
  "mem_Create sch s obj =
     (case mem_gvkForObject sch obj of
        Inl e \<Rightarrow> (s, obj, Some e)
      | Inr gvk \<Rightarrow>
          (let key = ObjectKeyFromObject obj;
               gvkMap = (case objects s gvk of None \<Rightarrow> [] | Some m \<Rightarrow> m);
               s0 = s\<lparr>objects := (objects s)(gvk \<mapsto> gvkMap)\<rparr>
           in if map_of gvkMap key \<noteq> None then (s0, obj, Some (AlreadyExistsError (ObjectKey_String key)))
              else
                (let (s1, uid) = (if GetUID obj = [] then mem_generateUID s0 else (s0, GetUID obj));
                     rv = add64 (revision s1) 1;
                     stored = SetResourceVersion (FormatInt rv) (SetGeneration 1 (SetUID uid obj));
                     s2 = s1\<lparr>revision := rv, objects := (objects s1)(gvk \<mapsto> AList.update key stored gvkMap)\<rparr>;
                     e = \<lparr>ev_Type = EventAdded, ev_Object = stored\<rparr>
                 in case mem_emit s2 gvk rv e of
                      None \<Rightarrow> (s2, stored, Some (Panic ''makeslice: len out of range''))
                    | Some s3 \<Rightarrow> mem_copyBack sch s3 stored stored)))"

text \<open>The document that \<open>Update\<close> decodes: the input, with the stored status.\<close>

definition mem_mergeSpec :: "rawmap \<Rightarrow> rawmap \<Rightarrow> rawmap" where
  "mem_mergeSpec storedMap inputMap =
     inputMap\<lparr>rm_Body :=
       (case fmlookup (rm_Body storedMap) ''status'' of
          Some status \<Rightarrow> fmupd ''status'' status (rm_Body inputMap)
        | None \<Rightarrow> fmdrop ''status'' (rm_Body inputMap))\<rparr>"

definition mem_Update :: "scheme \<Rightarrow> MemoryStore \<Rightarrow> object \<Rightarrow> MemoryStore \<times> object \<times> error option" where
  "mem_Update sch s obj =
     (case mem_gvkForObject sch obj of
        Inl e \<Rightarrow> (s, obj, Some e)
      | Inr gvk \<Rightarrow>
          (let key = ObjectKeyFromObject obj
           in case objects s gvk of
                None \<Rightarrow> (s, obj, Some (NotFoundError (ObjectKey_String key)))
              | Some gvkMap \<Rightarrow>
          (case map_of gvkMap key of
             None \<Rightarrow> (s, obj, Some (NotFoundError (ObjectKey_String key)))
           | Some stored \<Rightarrow>
          if GetResourceVersion obj \<noteq> GetResourceVersion stored
          then (s, obj, Some (ConflictError (ObjectKey_String key)))
          else
          (let storedMap = marshal Compact stored;
               inputMap = marshal Compact obj;
               mergedMap = mem_mergeSpec storedMap inputMap;
               specChanged = (\<not> bytes_Equal (fmlookup (rm_Body storedMap) ''spec'')
                                            (fmlookup (rm_Body inputMap) ''spec''))
           in case unmarshalInto sch mergedMap obj of
                Inl e \<Rightarrow> (s, obj, Some (Error (''unmarshalling merged object: '' @ error_Error e)))
              | Inr merged0 \<Rightarrow>
          (let merged1 = SetUID (GetUID stored) (SetResourceVersion (GetResourceVersion stored) merged0)
           in if mem_contentEqual stored merged1 then mem_copyBack sch s stored obj
              else
          (let rv = add64 (revision s) 1;
               merged = SetResourceVersion (FormatInt rv)
                 (SetGeneration (if specChanged then add64 (GetGeneration stored) 1
                                 else GetGeneration stored) merged1);
               s1 = s\<lparr>revision := rv, objects := (objects s)(gvk \<mapsto> AList.update key merged gvkMap)\<rparr>;
               e = \<lparr>ev_Type = EventModified, ev_Object = merged\<rparr>
           in case mem_emit s1 gvk rv e of
                None \<Rightarrow> (s1, obj, Some (Panic ''makeslice: len out of range''))
              | Some s2 \<Rightarrow> mem_copyBack sch s2 merged obj))))))"

text \<open>The document that \<open>UpdateStatus\<close> decodes: the stored object, with the input's status.\<close>

definition mem_mergeStatus :: "rawmap \<Rightarrow> rawmap \<Rightarrow> rawmap" where
  "mem_mergeStatus storedMap inputMap =
     storedMap\<lparr>rm_Body :=
       (case fmlookup (rm_Body inputMap) ''status'' of
          Some status \<Rightarrow> fmupd ''status'' status (rm_Body storedMap)
        | None \<Rightarrow> fmdrop ''status'' (rm_Body storedMap))\<rparr>"

definition mem_UpdateStatus :: "scheme \<Rightarrow> MemoryStore \<Rightarrow> object \<Rightarrow> MemoryStore \<times> object \<times> error option" where
  "mem_UpdateStatus sch s obj =
     (case mem_gvkForObject sch obj of
        Inl e \<Rightarrow> (s, obj, Some e)
      | Inr gvk \<Rightarrow>
          (let key = ObjectKeyFromObject obj
           in case objects s gvk of
                None \<Rightarrow> (s, obj, Some (NotFoundError (ObjectKey_String key)))
              | Some gvkMap \<Rightarrow>
          (case map_of gvkMap key of
             None \<Rightarrow> (s, obj, Some (NotFoundError (ObjectKey_String key)))
           | Some stored \<Rightarrow>
          if GetResourceVersion obj \<noteq> GetResourceVersion stored
          then (s, obj, Some (ConflictError (ObjectKey_String key)))
          else
          (let storedMap = marshal Compact stored;
               inputMap = marshal Compact obj;
               mergedMap = mem_mergeStatus storedMap inputMap
           in case unmarshalInto sch mergedMap obj of
                Inl e \<Rightarrow> (s, obj, Some (Error (''unmarshalling merged object: '' @ error_Error e)))
              | Inr merged0 \<Rightarrow>
          (let merged1 = SetGeneration (GetGeneration stored)
                 (SetUID (GetUID stored) (SetResourceVersion (GetResourceVersion stored) merged0))
           in if mem_contentEqual stored merged1 then mem_copyBack sch s stored obj
              else
          (let rv = add64 (revision s) 1;
               merged = SetResourceVersion (FormatInt rv) merged1;
               s1 = s\<lparr>revision := rv, objects := (objects s)(gvk \<mapsto> AList.update key merged gvkMap)\<rparr>;
               e = \<lparr>ev_Type = EventModified, ev_Object = merged\<rparr>
           in case mem_emit s1 gvk rv e of
                None \<Rightarrow> (s1, obj, Some (Panic ''makeslice: len out of range''))
              | Some s2 \<Rightarrow> mem_copyBack sch s2 merged obj))))))"

definition mem_Delete :: "scheme \<Rightarrow> MemoryStore \<Rightarrow> object \<Rightarrow> MemoryStore \<times> error option" where
  "mem_Delete sch s obj =
     (case mem_gvkForObject sch obj of
        Inl e \<Rightarrow> (s, Some e)
      | Inr gvk \<Rightarrow>
          (let key = ObjectKeyFromObject obj
           in case objects s gvk of
                None \<Rightarrow> (s, Some (NotFoundError (ObjectKey_String key)))
              | Some gvkMap \<Rightarrow>
          (case map_of gvkMap key of
             None \<Rightarrow> (s, Some (NotFoundError (ObjectKey_String key)))
           | Some stored \<Rightarrow>
          if GetResourceVersion obj \<noteq> [] \<and> GetResourceVersion obj \<noteq> GetResourceVersion stored
          then (s, Some (ConflictError (ObjectKey_String key)))
          else
          (let rv = add64 (revision s) 1;
               deletedCopy = SetResourceVersion (FormatInt rv) stored;
               s1 = s\<lparr>revision := rv, objects := (objects s)(gvk \<mapsto> AList.delete key gvkMap)\<rparr>;
               e = \<lparr>ev_Type = EventDeleted, ev_Object = deletedCopy\<rparr>
           in case mem_emit s1 gvk rv e of
                None \<Rightarrow> (s1, Some (Panic ''makeslice: len out of range''))
              | Some s2 \<Rightarrow> (s2, None)))))"

section \<open>Watch\<close>

text \<open>The blocking sends that preload a new watcher; \<open>None\<close> would hold the lock forever.\<close>

fun mem_preload :: "memoryWatcher \<Rightarrow> Event list \<Rightarrow> memoryWatcher option" where
  "mem_preload w [] = Some w"
| "mem_preload w (e # es) = Option.bind (chan_send w e) (\<lambda>w'. mem_preload w' es)"

definition mem_replayFilter :: "ListOptions \<Rightarrow> Event list \<Rightarrow> Event list" where
  "mem_replayFilter lo replay =
     (case lo_LabelSelector lo of
        None \<Rightarrow> replay
      | Some sel \<Rightarrow> filter (\<lambda>e. ev_Type e = EventBookmark \<or> sel_Matches sel (GetLabels (ev_Object e))) replay)"

definition watchBufSize :: "Event list \<Rightarrow> nat" where
  "watchBufSize replay = (if length replay > 100 then length replay + 100 else 100)"

definition mem_Watch ::
  "scheme \<Rightarrow> MemoryStore \<Rightarrow> object_list \<Rightarrow> ListOption list \<Rightarrow> MemoryStore \<times> (error + watcher_id)" where
  "mem_Watch sch s lst opts =
     (case mem_gvkForList sch lst of
        Inl e \<Rightarrow> (s, Inl e)
      | Inr gvk \<Rightarrow>
          (let listOpts = applyListOptions opts
           in case (case watchFrom opts None of
                      None \<Rightarrow> Inr []
                    | Some fromRevision \<Rightarrow> mem_eventsSince s fromRevision gvk) of
                Inl e \<Rightarrow> (s, Inl e)
              | Inr replay0 \<Rightarrow>
                  (let replay = mem_replayFilter listOpts replay0
                   in case mem_preload (newMemoryWatcher gvk (watchBufSize replay)) replay of
                        None \<Rightarrow> (s, Inl (Panic ''all goroutines are asleep - deadlock!''))
                      | Some w \<Rightarrow>
                          (let i = nextWatcher s
                           in (s\<lparr>wheap := (wheap s)(i := w), nextWatcher := Suc i,
                                 watchers := (watchers s)(gvk := watchers s gvk @ [i])\<rparr>, Inr i)))))"

section \<open>The event log contract\<close>

interpretation memlog: revision_log revision eventLog eventLogMax mem_logEvent mem_eventsSince
  by unfold_locales
    (auto simp: mem_logEvent_def mem_eventsSince_def last_n_def Let_def conj_commute)

section \<open>The memory store as a Store\<close>

definition memStore :: "scheme \<Rightarrow> MemoryStore Store" where
  "memStore sch =
     \<lparr>st_Get = mem_Get sch,
      st_List = (\<lambda>s l opts. (s, mem_List sch s l opts)),
      st_Create = mem_Create sch, st_Update = mem_Update sch, st_UpdateStatus = mem_UpdateStatus sch,
      st_Delete = mem_Delete sch, st_Watch = mem_Watch sch, st_Recv = mem_Recv, st_Stop = mem_Stop\<rparr>"

lemma memStore_simps [simp]:
  "st_List (memStore sch) s l opts = (s, mem_List sch s l opts)" "st_Watch (memStore sch) = mem_Watch sch"
  "st_Recv (memStore sch) = mem_Recv" "st_Stop (memStore sch) = mem_Stop"
  by (simp_all add: memStore_def)

lemma memStore_writes [simp]:
  "st_Get (memStore sch) = mem_Get sch" "st_Create (memStore sch) = mem_Create sch"
  "st_Update (memStore sch) = mem_Update sch" "st_UpdateStatus (memStore sch) = mem_UpdateStatus sch"
  "st_Delete (memStore sch) = mem_Delete sch"
  by (simp_all add: memStore_def)

end
