(* ===== verification/Memory_Inv.thy ===== *)
theory Memory_Inv
  imports Memory_Store
begin

text \<open>
  The invariant of the memory store, the two effects an operation can have on it (none, or one
  committed mutation), and the runs of the store.
\<close>

section \<open>The invariant\<close>

definition mem_obj_ok :: "scheme \<Rightarrow> int \<Rightarrow> GroupVersionKind \<Rightarrow> ObjectKey \<Rightarrow> object \<Rightarrow> bool" where
  "mem_obj_ok sch rv gvk k o1 \<longleftrightarrow>
     ObjectKeyFromObject o1 = k \<and> mem_gvkForObject sch o1 = Inr gvk \<and>
     (\<exists>r. 0 < r \<and> r \<le> rv \<and> GetResourceVersion o1 = FormatInt r)"

definition mem_map_ok :: "scheme \<Rightarrow> int \<Rightarrow> GroupVersionKind \<Rightarrow> (ObjectKey, object) gomap \<Rightarrow> bool" where
  "mem_map_ok sch rv gvk m \<longleftrightarrow> distinct (map fst m) \<and> (\<forall>(k, o1) \<in> set m. mem_obj_ok sch rv gvk k o1)"

definition mem_watchers_ok :: "MemoryStore \<Rightarrow> bool" where
  "mem_watchers_ok s \<longleftrightarrow>
     (\<forall>gvk. distinct (watchers s gvk) \<and>
            (\<forall>i \<in> set (watchers s gvk). i < nextWatcher s \<and> w_gvk (wheap s i) = gvk)) \<and>
     (\<forall>i. length (w_ch (wheap s i)) \<le> w_cap (wheap s i))"

definition mem_log_ok :: "MemoryStore \<Rightarrow> bool" where
  "mem_log_ok s \<longleftrightarrow>
     0 \<le> eventLogMax s \<and> 0 \<le> revision s \<and> revision s \<le> MaxInt64 \<and>
     contiguous (eventLog s) (revision s) \<and> int (length (eventLog s)) \<le> eventLogMax s \<and>
     (\<forall>en \<in> set (eventLog s). 0 < le_revision en \<and>
        GetResourceVersion (ev_Object (le_event en)) = FormatInt (le_revision en))"

definition mem_inv :: "scheme \<Rightarrow> MemoryStore \<Rightarrow> bool" where
  "mem_inv sch s \<longleftrightarrow>
     mem_log_ok s \<and> mem_watchers_ok s \<and>
     (\<forall>gvk m. objects s gvk = Some m \<longrightarrow> mem_map_ok sch (revision s) gvk m)"

definition mem_view :: "MemoryStore \<Rightarrow> GroupVersionKind \<Rightarrow> view" where
  "mem_view s gvk = (case objects s gvk of None \<Rightarrow> Map.empty | Some m \<Rightarrow> map_of m)"

section \<open>The effects of an operation\<close>

definition mem_quiet :: "MemoryStore \<Rightarrow> MemoryStore \<Rightarrow> bool" where
  "mem_quiet s s' \<longleftrightarrow>
     revision s' = revision s \<and> eventLog s' = eventLog s \<and> eventLogMax s' = eventLogMax s \<and>
     mem_view s' = mem_view s"

definition mem_commit :: "MemoryStore \<Rightarrow> MemoryStore \<Rightarrow> GroupVersionKind \<Rightarrow> Event \<Rightarrow> bool" where
  "mem_commit s s' gvk e \<longleftrightarrow>
     revision s' = revision s + 1 \<and> eventLogMax s' = eventLogMax s \<and>
     eventLog s' = last_n (nat (eventLogMax s))
       (eventLog s @ [\<lparr>le_revision = revision s + 1, le_gvk = gvk, le_event = e\<rparr>]) \<and>
     GetResourceVersion (ev_Object e) = FormatInt (revision s + 1) \<and> event_ok (mem_view s gvk) e \<and>
     mem_view s' = (mem_view s)(gvk := apply_event e (mem_view s gvk)) \<and>
     wheap s' = (\<lambda>i. if i \<in> set (watchers s gvk) then memw_send (wheap s i) e else wheap s i) \<and>
     watchers s' = (watchers s)(gvk := filter (\<lambda>i. \<not> w_closed (wheap s i)) (watchers s gvk)) \<and>
     nextWatcher s' = nextWatcher s"

lemma mem_notifyLoop_spec:
  "distinct is \<Longrightarrow>
   mem_notifyLoop is e h a =
     (\<lambda>i. if i \<in> set is then memw_send (h i) e else h i, a @ filter (\<lambda>i. \<not> w_closed (h i)) is)"
proof (induction "is" arbitrary: h a)
  case Nil
  then show ?case by simp
next
  case (Cons i "is")
  have "filter (\<lambda>j. \<not> w_closed ((h(i := x)) j)) is = filter (\<lambda>j. \<not> w_closed (h j)) is" for x
    using Cons.prems by (intro filter_cong) auto
  with Cons show ?case
    by (auto simp: fun_eq_iff memw_isStopped_def memw_send_def)
qed

lemma memw_send_fields [simp]:
  "w_gvk (memw_send w e) = w_gvk w" "w_cap (memw_send w e) = w_cap w"
  by (simp_all add: memw_send_def chan_send_def)

lemma memw_send_bound:
  "length (w_ch w) \<le> w_cap w \<Longrightarrow> length (w_ch (memw_send w e)) \<le> w_cap w"
  by (simp add: memw_send_def chan_send_def)

lemma mem_map_ok_mono: "mem_map_ok sch r gvk m \<Longrightarrow> r \<le> r' \<Longrightarrow> mem_map_ok sch r' gvk m"
  by (fastforce simp: mem_map_ok_def mem_obj_ok_def)

lemma mem_log_ok_append:
  assumes "mem_log_ok s" and "revision s < MaxInt64"
    and "GetResourceVersion (ev_Object e) = FormatInt (revision s + 1)"
    and "revision s' = revision s + 1" and "eventLogMax s' = eventLogMax s"
    and log: "eventLog s' = last_n (nat (eventLogMax s))
       (eventLog s @ [\<lparr>le_revision = revision s + 1, le_gvk = gvk, le_event = e\<rparr>])"
  shows "mem_log_ok s'"
proof -
  have "contiguous (eventLog s @ [\<lparr>le_revision = revision s + 1, le_gvk = gvk, le_event = e\<rparr>])
      (revision s + 1)"
    using assms(1) by (intro contiguous_snoc) (auto simp: mem_log_ok_def)
  then have "contiguous (eventLog s') (revision s')"
    using assms(4) by (simp add: log contiguous_last_n)
  moreover have "set (eventLog s') \<subseteq>
      insert \<lparr>le_revision = revision s + 1, le_gvk = gvk, le_event = e\<rparr> (set (eventLog s))"
    using set_mono_suffix [OF suffix_last_n] unfolding log by fastforce
  moreover have "int (length (eventLog s')) \<le> eventLogMax s'"
    using assms(1,5) by (auto simp: log mem_log_ok_def min_def)
  ultimately show ?thesis
    using assms(1-5) by (auto simp: mem_log_ok_def)
qed

lemma mem_watchers_ok_notify:
  assumes ok: "mem_watchers_ok s"
    and h: "wheap s' = (\<lambda>i. if i \<in> set (watchers s gvk) then memw_send (wheap s i) e else wheap s i)"
    and w: "watchers s' = (watchers s)(gvk := filter (\<lambda>i. \<not> w_closed (wheap s i)) (watchers s gvk))"
    and n: "nextWatcher s' = nextWatcher s"
  shows "mem_watchers_ok s'"
proof -
  have "w_gvk (wheap s' i) = w_gvk (wheap s i)" "w_cap (wheap s' i) = w_cap (wheap s i)"
      "set (watchers s' g) \<subseteq> set (watchers s g)" "distinct (watchers s' g)"
      "length (w_ch (wheap s' i)) \<le> w_cap (wheap s i)" for i g
    using ok by (auto simp: mem_watchers_ok_def h w memw_send_bound)
  with ok n show ?thesis
    unfolding mem_watchers_ok_def by (metis (no_types, lifting) subsetD)
qed

lemma mem_emit_commit:
  assumes inv: "mem_inv sch s" and bound: "revision s < MaxInt64"
    and s1: "revision s1 = revision s + 1" "eventLog s1 = eventLog s" "eventLogMax s1 = eventLogMax s"
      "watchers s1 = watchers s" "wheap s1 = wheap s" "nextWatcher s1 = nextWatcher s"
    and m': "objects s1 = (objects s)(gvk \<mapsto> m')" "mem_map_ok sch (revision s + 1) gvk m'"
      "map_of m' = apply_event e (mem_view s gvk)"
    and rv: "GetResourceVersion (ev_Object e) = FormatInt (revision s + 1)"
    and truth: "event_ok (mem_view s gvk) e"
  obtains s2 where "mem_emit s1 gvk (revision s + 1) e = Some s2"
    and "mem_inv sch s2" and "mem_commit s s2 gvk e"
proof -
  have max: "0 \<le> eventLogMax s1"
    using inv s1(3) by (simp add: mem_inv_def mem_log_ok_def)
  obtain s' where s': "mem_logEvent s1 gvk (revision s + 1) e = Some s'"
    and log': "eventLog s' = last_n (nat (eventLogMax s))
       (eventLog s @ [\<lparr>le_revision = revision s + 1, le_gvk = gvk, le_event = e\<rparr>])"
    and rest: "revision s' = revision s + 1" "eventLogMax s' = eventLogMax s"
    using memlog.log_event_log [OF max, of gvk "revision s + 1" e] s1 by auto
  from s' have frame: "objects s' = objects s1" "watchers s' = watchers s1" "wheap s' = wheap s1"
      "nextWatcher s' = nextWatcher s1"
    by (auto simp: mem_logEvent_def Let_def split: if_splits)
  define s2 where "s2 = mem_notifyWatchers s' gvk e"
  have dist: "distinct (watchers s gvk)"
    using inv by (simp add: mem_inv_def mem_watchers_ok_def)
  have notify: "wheap s2 = (\<lambda>i. if i \<in> set (watchers s gvk) then memw_send (wheap s i) e else wheap s i)"
      "watchers s2 = (watchers s)(gvk := filter (\<lambda>i. \<not> w_closed (wheap s i)) (watchers s gvk))"
      "objects s2 = objects s1" "revision s2 = revision s + 1" "eventLog s2 = eventLog s'"
      "eventLogMax s2 = eventLogMax s" "nextWatcher s2 = nextWatcher s"
    using dist frame s1 rest
    by (simp_all add: s2_def mem_notifyWatchers_def mem_notifyLoop_spec Let_def)
  have "mem_emit s1 gvk (revision s + 1) e = Some s2"
    by (simp add: mem_emit_def s' s2_def)
  moreover have "mem_commit s s2 gvk e"
    using notify log' rv m' truth
    by (auto simp: mem_commit_def mem_view_def fun_eq_iff)
  moreover have "mem_inv sch s2"
    unfolding mem_inv_def
  proof (intro conjI allI impI)
    show "mem_log_ok s2"
      using inv bound rv notify log' by (intro mem_log_ok_append [of s e s2 gvk]) (auto simp: mem_inv_def)
    show "mem_watchers_ok s2"
      using inv notify by (intro mem_watchers_ok_notify [of s s2 gvk e]) (auto simp: mem_inv_def)
    fix gvk' m
    assume "objects s2 gvk' = Some m"
    then show "mem_map_ok sch (revision s2) gvk' m"
      using inv m'(1,2) notify(3,4) mem_map_ok_mono [of sch "revision s" gvk' m "revision s + 1"]
      by (auto simp: mem_inv_def split: if_splits)
  qed
  ultimately show thesis using that by blast
qed

lemma mem_quiet_refl [simp]: "mem_quiet s s"
  by (simp add: mem_quiet_def)

section \<open>Create\<close>

definition mem_newUID :: "MemoryStore \<Rightarrow> object \<Rightarrow> string" where
  "mem_newUID s obj =
     (if GetUID obj = [] then ''uid-'' @ FormatInt (add64 (uidCounter s) 1) else GetUID obj)"

definition mem_created :: "MemoryStore \<Rightarrow> object \<Rightarrow> object" where
  "mem_created s obj =
     SetResourceVersion (FormatInt (revision s + 1)) (SetGeneration 1 (SetUID (mem_newUID s obj) obj))"

lemma mem_created_simps [simp]:
  "GetResourceVersion (mem_created s obj) = FormatInt (revision s + 1)"
  "GetGeneration (mem_created s obj) = 1"
  "GetUID (mem_created s obj) = mem_newUID s obj"
  "Body (mem_created s obj) = Body obj"
  "GoType (mem_created s obj) = GoType obj"
  "ObjectKeyFromObject (mem_created s obj) = ObjectKeyFromObject obj"
  by (simp_all add: mem_created_def)

lemma mem_gvkForObject_GoType: "GoType a = GoType b \<Longrightarrow> mem_gvkForObject sch a = mem_gvkForObject sch b"
  by (simp add: mem_gvkForObject_def split: sum.split list.split)

lemma mem_obj_okI:
  "ObjectKeyFromObject o1 = k \<Longrightarrow> mem_gvkForObject sch o1 = Inr gvk \<Longrightarrow>
   GetResourceVersion o1 = FormatInt r \<Longrightarrow> 0 < r \<Longrightarrow> mem_obj_ok sch r gvk k o1"
  by (auto simp: mem_obj_ok_def)

lemma mem_revision_bounds:
  "mem_inv sch s \<Longrightarrow> 0 \<le> revision s \<and> revision s \<le> MaxInt64"
  by (simp add: mem_inv_def mem_log_ok_def)

lemma mem_rv_next: "mem_inv sch s \<Longrightarrow> revision s < MaxInt64 \<Longrightarrow> add64 (revision s) 1 = revision s + 1"
  by (simp add: add64_Suc mem_revision_bounds)

lemma mem_map_ok_update:
  assumes "mem_map_ok sch r gvk m" and "r \<le> r'" and "mem_obj_ok sch r' gvk k o1"
  shows "mem_map_ok sch r' gvk (AList.update k o1 m)"
proof -
  have "mem_map_ok sch r' gvk m" using assms(1,2) by (rule mem_map_ok_mono)
  then have ok: "distinct (map fst m)" "\<forall>(k, o1) \<in> set m. mem_obj_ok sch r' gvk k o1"
    by (auto simp: mem_map_ok_def)
  have "set (AList.update k o1 m) \<subseteq> insert (k, o1) (set m)"
    by (induction m) auto
  with ok assms(3) show ?thesis
    by (auto simp: mem_map_ok_def)
qed

lemma mem_map_ok_delete:
  assumes "mem_map_ok sch r gvk m" and "r \<le> r'"
  shows "mem_map_ok sch r' gvk (AList.delete k m)"
proof -
  have "mem_map_ok sch r' gvk m" using assms by (rule mem_map_ok_mono)
  moreover have "set (AList.delete k m) \<subseteq> set m"
    by (auto simp: AList.delete_eq)
  ultimately show ?thesis
    by (auto simp: mem_map_ok_def)
qed

lemma mem_map_ok_Nil [simp]: "mem_map_ok sch r gvk []"
  by (simp add: mem_map_ok_def)

text \<open>A stored object: what \<open>Get\<close> would find.\<close>

lemma mem_view_Some:
  assumes "mem_inv sch s" and "mem_view s gvk key = Some stored"
  obtains m where "objects s gvk = Some m" and "map_of m key = Some stored"
    and "mem_view s gvk = map_of m" and "mem_map_ok sch (revision s) gvk m"
    and "mem_obj_ok sch (revision s) gvk key stored"
proof -
  obtain m where m: "objects s gvk = Some m" "map_of m key = Some stored"
    using assms(2) by (auto simp: mem_view_def split: option.splits)
  moreover have "mem_map_ok sch (revision s) gvk m"
    using assms(1) m(1) by (simp add: mem_inv_def)
  ultimately show thesis
    using that by (fastforce simp: mem_view_def mem_map_ok_def dest: map_of_SomeD)
qed

lemma mem_next_rv_less:
  assumes "mem_inv sch s" and "revision s < MaxInt64" and "mem_view s gvk key = Some old"
  shows "rv_less (GetResourceVersion old) (FormatInt (revision s + 1))"
proof -
  have "mem_obj_ok sch (revision s) gvk key old" using assms(1,3) by (rule mem_view_Some)
  then obtain r where "0 < r" "r \<le> revision s" "GetResourceVersion old = FormatInt r"
    by (auto simp: mem_obj_ok_def)
  with assms(2) show ?thesis
    unfolding rv_less_def
    by (intro exI [of _ r] exI [of _ "revision s + 1"]) (auto simp: is_int64_def MinInt64_def)
qed

lemma mem_put_commit:
  assumes inv: "mem_inv sch s" and bound: "revision s < MaxInt64"
    and s1: "revision s1 = revision s + 1" "eventLog s1 = eventLog s" "eventLogMax s1 = eventLogMax s"
      "watchers s1 = watchers s" "wheap s1 = wheap s" "nextWatcher s1 = nextWatcher s"
      "objects s1 = (objects s)(gvk \<mapsto> AList.update key o1 m)"
    and m: "mem_view s gvk = map_of m" "mem_map_ok sch (revision s) gvk m"
    and o1: "ObjectKeyFromObject o1 = key" "mem_gvkForObject sch o1 = Inr gvk"
      "GetResourceVersion o1 = FormatInt (revision s + 1)"
    and e: "e = \<lparr>ev_Type = EventAdded, ev_Object = o1\<rparr> \<and> mem_view s gvk key = None \<or>
        e = \<lparr>ev_Type = EventModified, ev_Object = o1\<rparr> \<and> mem_view s gvk key \<noteq> None"
  obtains s2 where "mem_emit s1 gvk (revision s + 1) e = Some s2"
    and "mem_inv sch s2" and "mem_commit s s2 gvk e"
proof -
  have "mem_map_ok sch (revision s + 1) gvk (AList.update key o1 m)"
    using m(2) o1 mem_revision_bounds [OF inv] by (intro mem_map_ok_update mem_obj_okI) auto
  moreover have "map_of (AList.update key o1 m) = apply_event e (mem_view s gvk)"
    using e o1(1) m(1) by (auto simp: apply_event_cases)
  moreover have "GetResourceVersion (ev_Object e) = FormatInt (revision s + 1)"
    using e o1(3) by auto
  moreover have "event_ok (mem_view s gvk) e"
    using e mem_next_rv_less [OF inv bound] o1(1,3) by (auto simp: event_ok_def)
  ultimately show thesis
    using mem_emit_commit [OF inv bound s1] that by blast
qed

lemma mem_Create_commit:
  assumes inv: "mem_inv sch s" and bound: "revision s < MaxInt64"
    and gvk: "mem_gvkForObject sch obj = Inr gvk"
    and absent: "mem_view s gvk (ObjectKeyFromObject obj) = None"
  obtains s' where
    "mem_Create sch s obj = mem_copyBack sch s' (mem_created s obj) (mem_created s obj)"
    and "mem_inv sch s'"
    and "mem_commit s s' gvk \<lparr>ev_Type = EventAdded, ev_Object = mem_created s obj\<rparr>"
proof -
  let ?key = "ObjectKeyFromObject obj"
  let ?e = "\<lparr>ev_Type = EventAdded, ev_Object = mem_created s obj\<rparr>"
  define m where "m = (case objects s gvk of None \<Rightarrow> [] | Some m \<Rightarrow> m)"
  define m' where "m' = AList.update ?key (mem_created s obj) m"
  define n where "n = (if GetUID obj = [] then add64 (uidCounter s) 1 else uidCounter s)"
  define s1 where
    "s1 = s\<lparr>uidCounter := n, revision := revision s + 1, objects := (objects s)(gvk \<mapsto> m')\<rparr>"
  have view: "mem_view s gvk = map_of m"
    by (simp add: mem_view_def m_def split: option.split)
  have ok: "mem_map_ok sch (revision s) gvk m"
    using inv by (auto simp: mem_inv_def m_def split: option.split)
  obtain s2 where s2: "mem_emit s1 gvk (revision s + 1) ?e = Some s2"
      "mem_inv sch s2" "mem_commit s s2 gvk ?e"
    by (rule mem_put_commit [OF inv bound _ _ _ _ _ _ _ view ok, of s1 ?key "mem_created s obj" ?e])
      (use gvk absent mem_gvkForObject_GoType [of "mem_created s obj" obj] in \<open>auto simp: s1_def m'_def\<close>)
  have "mem_Create sch s obj = mem_copyBack sch s2 (mem_created s obj) (mem_created s obj)"
  proof (cases "GetUID obj = []")
    case True
    then have "mem_created s obj = SetResourceVersion (FormatInt (revision s + 1))
        (SetGeneration 1 (SetUID (''uid-'' @ FormatInt n) obj))"
      by (simp add: mem_created_def mem_newUID_def n_def)
    with True gvk absent s2(1) mem_rv_next [OF inv bound] show ?thesis
      by (simp add: mem_Create_def m_def [symmetric] view mem_generateUID_def n_def Let_def m'_def s1_def)
  next
    case False
    then have "mem_created s obj = SetResourceVersion (FormatInt (revision s + 1))
        (SetGeneration 1 (SetUID (GetUID obj) obj))"
      and "s1 = s\<lparr>revision := revision s + 1, objects := (objects s)(gvk \<mapsto> m')\<rparr>"
      by (simp_all add: mem_created_def mem_newUID_def n_def s1_def)
    with False gvk absent s2(1) mem_rv_next [OF inv bound] show ?thesis
      by (simp add: mem_Create_def m_def [symmetric] view Let_def m'_def)
  qed
  with s2(2,3) show thesis using that by blast
qed

lemma mem_Create_exists:
  assumes inv: "mem_inv sch s" and gvk: "mem_gvkForObject sch obj = Inr gvk"
    and present: "mem_view s gvk (ObjectKeyFromObject obj) \<noteq> None"
  shows "mem_Create sch s obj = (s, obj, Some (AlreadyExistsError (ObjectKey_String (ObjectKeyFromObject obj))))"
proof -
  obtain m where m: "objects s gvk = Some m" "map_of m (ObjectKeyFromObject obj) \<noteq> None"
    using present by (auto simp: mem_view_def split: option.splits)
  then have "s\<lparr>objects := (objects s)(gvk \<mapsto> m)\<rparr> = s" by (simp add: fun_upd_idem)
  with m gvk show ?thesis by (auto simp: mem_Create_def Let_def)
qed

section \<open>Update and UpdateStatus\<close>

text \<open>
  What the two update methods make of the stored object and the input before they compare, and
  the object they store when it differs.
\<close>

definition mem_mergedSpec :: "scheme \<Rightarrow> object \<Rightarrow> object \<Rightarrow> error + object" where
  "mem_mergedSpec sch stored obj =
     map_sum id (\<lambda>o1. SetUID (GetUID stored) (SetResourceVersion (GetResourceVersion stored) o1))
       (unmarshalInto sch (mem_mergeSpec (marshal Compact stored) (marshal Compact obj)) obj)"

definition mem_mergedStatus :: "scheme \<Rightarrow> object \<Rightarrow> object \<Rightarrow> error + object" where
  "mem_mergedStatus sch stored obj =
     map_sum id (\<lambda>o1. SetGeneration (GetGeneration stored)
         (SetUID (GetUID stored) (SetResourceVersion (GetResourceVersion stored) o1)))
       (unmarshalInto sch (mem_mergeStatus (marshal Compact stored) (marshal Compact obj)) obj)"

definition mem_nextGeneration :: "object \<Rightarrow> object \<Rightarrow> int" where
  "mem_nextGeneration stored obj =
     (if GetSpec stored = GetSpec obj then GetGeneration stored else add64 (GetGeneration stored) 1)"

definition mem_updated :: "MemoryStore \<Rightarrow> object \<Rightarrow> object \<Rightarrow> object \<Rightarrow> object" where
  "mem_updated s stored obj merged =
     SetResourceVersion (FormatInt (revision s + 1)) (SetGeneration (mem_nextGeneration stored obj) merged)"

lemma bytes_Equal_Compact [simp]:
  "bytes_Equal (map_option (Pair Compact) a) (map_option (Pair Compact) b) \<longleftrightarrow> a = b"
  by (cases a; cases b) auto

lemma meta_into_key:
  assumes "ObjectKeyFromObject a = ObjectKeyFromObject b"
  shows "Name (meta_into (Meta a) (Meta b)) = Name (Meta b)"
    and "Namespace (meta_into (Meta a) (Meta b)) = Namespace (Meta b)"
  using assms by (auto simp: ObjectKeyFromObject_def meta_into_def keep_def)

lemma mem_mergedSpec_Inr:
  assumes "mem_mergedSpec sch stored obj = Inr m"
  obtains o1 where
    "unmarshalInto sch (mem_mergeSpec (marshal Compact stored) (marshal Compact obj)) obj = Inr o1"
    and "m = SetUID (GetUID stored) (SetResourceVersion (GetResourceVersion stored) o1)"
  using assms by (cases "unmarshalInto sch (mem_mergeSpec (marshal Compact stored) (marshal Compact obj)) obj")
    (auto simp: mem_mergedSpec_def)

lemma mem_mergedStatus_Inr:
  assumes "mem_mergedStatus sch stored obj = Inr m"
  obtains o1 where
    "unmarshalInto sch (mem_mergeStatus (marshal Compact stored) (marshal Compact obj)) obj = Inr o1"
    and "m = SetGeneration (GetGeneration stored)
      (SetUID (GetUID stored) (SetResourceVersion (GetResourceVersion stored) o1))"
  using assms by (cases "unmarshalInto sch (mem_mergeStatus (marshal Compact stored) (marshal Compact obj)) obj")
    (auto simp: mem_mergedStatus_def)

lemma key_of_meta_into:
  assumes "Meta o1 = meta_into (Meta a) (Meta b)" and "ObjectKeyFromObject a = ObjectKeyFromObject b"
  shows "ObjectKeyFromObject o1 = ObjectKeyFromObject b"
  using assms meta_into_key [OF assms(2)] by (simp add: ObjectKeyFromObject_def)

lemma mem_mergedSpec_key:
  assumes "mem_mergedSpec sch stored obj = Inr m"
  shows "ObjectKeyFromObject m = ObjectKeyFromObject obj" and "GoType m = GoType obj"
proof -
  obtain o1 where o1:
    "unmarshalInto sch (mem_mergeSpec (marshal Compact stored) (marshal Compact obj)) obj = Inr o1"
    and m: "m = SetUID (GetUID stored) (SetResourceVersion (GetResourceVersion stored) o1)"
    using assms by (rule mem_mergedSpec_Inr)
  from unmarshalInto_Inr(1,2) [OF o1] have "GoType o1 = GoType obj" "Meta o1 = meta_into (Meta obj) (Meta obj)"
    by (simp_all add: mem_mergeSpec_def)
  then show "ObjectKeyFromObject m = ObjectKeyFromObject obj" "GoType m = GoType obj"
    by (simp_all add: m ObjectKeyFromObject_def setter_defs)
qed

lemma mem_mergedStatus_key:
  assumes "mem_mergedStatus sch stored obj = Inr m"
    and "ObjectKeyFromObject stored = ObjectKeyFromObject obj"
  shows "ObjectKeyFromObject m = ObjectKeyFromObject obj" and "GoType m = GoType obj"
proof -
  obtain o1 where o1:
    "unmarshalInto sch (mem_mergeStatus (marshal Compact stored) (marshal Compact obj)) obj = Inr o1"
    and m: "m = SetGeneration (GetGeneration stored)
      (SetUID (GetUID stored) (SetResourceVersion (GetResourceVersion stored) o1))"
    using assms(1) by (rule mem_mergedStatus_Inr)
  from unmarshalInto_Inr(1,2) [OF o1]
  have "GoType o1 = GoType obj" and meta: "Meta o1 = meta_into (Meta stored) (Meta obj)"
    by (simp_all add: mem_mergeStatus_def)
  then show "ObjectKeyFromObject m = ObjectKeyFromObject obj" "GoType m = GoType obj"
    using key_of_meta_into [OF meta assms(2)] by (simp_all add: m)
qed

text \<open>
  The merged object for documents that say all of their objects. \<open>Update\<close> takes everything from the
  input but the status, the UID and the resource version; if the stored object has no status, the
  input's survives, because the target of the decoding is a copy of the input. \<open>UpdateStatus\<close> takes
  the status from the input and everything else from the stored object, except for what the
  stored document does not mention: there the input shines through.
\<close>

lemma mem_mergedSpec_full:
  assumes "full_doc sch obj" and "full_doc sch stored" and "GoType stored = GoType obj"
    and "decodable sch (GoType obj) (rm_Body (mem_mergeSpec (marshal Compact stored) (marshal Compact obj)))"
  obtains m where "mem_mergedSpec sch stored obj = Inr m"
    and "Meta m = (Meta obj)\<lparr>ResourceVersion := GetResourceVersion stored, UID := GetUID stored\<rparr>"
    and "ApiVersion m = ApiVersion obj" and "TypeKind m = TypeKind obj" and "GoType m = GoType obj"
    and "\<forall>k. fmlookup (Body m) k =
      (if k = ''status'' \<and> GetStatus stored \<noteq> None then GetStatus stored else fmlookup (Body obj) k)"
proof -
  let ?rm = "mem_mergeSpec (marshal Compact stored) (marshal Compact obj)"
  obtain o1 where o1: "unmarshalInto sch ?rm obj = Inr o1"
    using unmarshalInto_decodable assms(4) by blast
  let ?m = "SetUID (GetUID stored) (SetResourceVersion (GetResourceVersion stored) o1)"
  have "fmlookup (Body o1) k =
      (if k = ''status'' \<and> GetStatus stored \<noteq> None then GetStatus stored else fmlookup (Body obj) k)" for k
    using unmarshalInto_Inr(3) [OF o1, of k] assms(1-3)
    by (auto simp: mem_mergeSpec_def full_doc_def split: option.splits if_splits)
  moreover have "Meta o1 = Meta obj" "ApiVersion o1 = ApiVersion obj" "TypeKind o1 = TypeKind obj" "GoType o1 = GoType obj"
    using o1 by (auto simp: unmarshalInto_def mem_mergeSpec_def split: option.splits)
  ultimately show thesis
    using o1 by (intro that [of ?m]) (simp_all add: mem_mergedSpec_def setter_defs)
qed

lemma mem_mergedStatus_full:
  assumes "full_doc sch obj" and "full_doc sch stored" and "GoType stored = GoType obj"
    and "decodable sch (GoType obj) (rm_Body (mem_mergeStatus (marshal Compact stored) (marshal Compact obj)))"
  obtains m where "mem_mergedStatus sch stored obj = Inr m"
    and "Meta m = (meta_into (Meta stored) (Meta obj))\<lparr>Generation := GetGeneration stored,
           ResourceVersion := GetResourceVersion stored, UID := GetUID stored\<rparr>"
    and "GoType m = GoType obj"
    and "\<forall>k. fmlookup (Body m) k =
      (if k = ''status'' then GetStatus obj
       else case fmlookup (Body stored) k of Some j \<Rightarrow> Some j | None \<Rightarrow> fmlookup (Body obj) k)"
proof -
  let ?rm = "mem_mergeStatus (marshal Compact stored) (marshal Compact obj)"
  obtain o1 where o1: "unmarshalInto sch ?rm obj = Inr o1"
    using unmarshalInto_decodable assms(4) by blast
  let ?m = "SetGeneration (GetGeneration stored)
    (SetUID (GetUID stored) (SetResourceVersion (GetResourceVersion stored) o1))"
  have "fmlookup (Body o1) k =
      (if k = ''status'' then GetStatus obj
       else case fmlookup (Body stored) k of Some j \<Rightarrow> Some j | None \<Rightarrow> fmlookup (Body obj) k)" for k
    using unmarshalInto_Inr(3) [OF o1, of k] assms(1-3)
    by (auto simp: mem_mergeStatus_def full_doc_def split: option.splits if_splits)
  moreover have "Meta o1 = meta_into (Meta stored) (Meta obj)" "GoType o1 = GoType obj"
    using unmarshalInto_Inr(1,2) [OF o1] by (auto simp: mem_mergeStatus_def)
  ultimately show thesis
    using o1 by (intro that [of ?m]) (simp_all add: mem_mergedStatus_def setter_defs)
qed

lemma mem_view_None:
  "mem_view s gvk key = None \<Longrightarrow> objects s gvk = None \<or> (\<exists>m. objects s gvk = Some m \<and> map_of m key = None)"
  by (auto simp: mem_view_def split: option.splits)

lemma mem_Update_eq:
  assumes inv: "mem_inv sch s" and bound: "revision s < MaxInt64"
    and gvk: "mem_gvkForObject sch obj = Inr gvk"
    and stored: "mem_view s gvk (ObjectKeyFromObject obj) = Some stored"
    and rv: "GetResourceVersion obj = GetResourceVersion stored"
    and merged: "mem_mergedSpec sch stored obj = Inr merged"
  shows "mem_contentEqual stored merged \<Longrightarrow> mem_Update sch s obj = mem_copyBack sch s stored obj"
    and "\<not> mem_contentEqual stored merged \<Longrightarrow>
      \<exists>s'. mem_Update sch s obj = mem_copyBack sch s' (mem_updated s stored obj merged) obj \<and>
           mem_inv sch s' \<and>
           mem_commit s s' gvk \<lparr>ev_Type = EventModified, ev_Object = mem_updated s stored obj merged\<rparr>"
proof -
  let ?key = "ObjectKeyFromObject obj"
  let ?o = "mem_updated s stored obj merged"
  let ?e = "\<lparr>ev_Type = EventModified, ev_Object = ?o\<rparr>"
  obtain m where m: "objects s gvk = Some m" "map_of m ?key = Some stored"
      "mem_view s gvk = map_of m" "mem_map_ok sch (revision s) gvk m"
    using inv stored by (rule mem_view_Some)
  obtain o1 where o1:
    "unmarshalInto sch (mem_mergeSpec (marshal Compact stored) (marshal Compact obj)) obj = Inr o1"
    and m1: "merged = SetUID (GetUID stored) (SetResourceVersion (GetResourceVersion stored) o1)"
    using merged by (rule mem_mergedSpec_Inr)
  show "mem_contentEqual stored merged \<Longrightarrow> mem_Update sch s obj = mem_copyBack sch s stored obj"
    using gvk m(1,2) rv o1 m1 by (simp add: mem_Update_def Let_def)
  define s1 where "s1 = s\<lparr>revision := revision s + 1, objects := (objects s)(gvk \<mapsto> AList.update ?key ?o m)\<rparr>"
  obtain s2 where s2: "mem_emit s1 gvk (revision s + 1) ?e = Some s2"
      "mem_inv sch s2" "mem_commit s s2 gvk ?e"
    by (rule mem_put_commit [OF inv bound _ _ _ _ _ _ _ m(3,4), of s1 ?key ?o ?e])
      (use gvk stored mem_mergedSpec_key [OF merged] mem_gvkForObject_GoType [of ?o obj]
       in \<open>auto simp: s1_def mem_updated_def\<close>)
  have "?o = SetResourceVersion (FormatInt (revision s + 1))
      (SetGeneration (if \<not> bytes_Equal (map_option (Pair Compact) (GetSpec stored))
         (map_option (Pair Compact) (GetSpec obj))
         then add64 (GetGeneration stored) 1 else GetGeneration stored) merged)"
    by (simp add: mem_updated_def mem_nextGeneration_def)
  then show "\<exists>s'. mem_Update sch s obj = mem_copyBack sch s' ?o obj \<and> mem_inv sch s' \<and> mem_commit s s' gvk ?e"
    if "\<not> mem_contentEqual stored merged"
    using that gvk m(1,2) rv o1 m1 s2 mem_rv_next [OF inv bound]
    by (intro exI [of _ s2]) (simp add: mem_Update_def Let_def s1_def del: bytes_Equal_Compact)
qed

lemma mem_UpdateStatus_eq:
  assumes inv: "mem_inv sch s" and bound: "revision s < MaxInt64"
    and gvk: "mem_gvkForObject sch obj = Inr gvk"
    and stored: "mem_view s gvk (ObjectKeyFromObject obj) = Some stored"
    and rv: "GetResourceVersion obj = GetResourceVersion stored"
    and merged: "mem_mergedStatus sch stored obj = Inr merged"
  defines "new \<equiv> SetResourceVersion (FormatInt (revision s + 1)) merged"
  shows "mem_contentEqual stored merged \<Longrightarrow> mem_UpdateStatus sch s obj = mem_copyBack sch s stored obj"
    and "\<not> mem_contentEqual stored merged \<Longrightarrow>
      \<exists>s'. mem_UpdateStatus sch s obj = mem_copyBack sch s' new obj \<and> mem_inv sch s' \<and>
           mem_commit s s' gvk \<lparr>ev_Type = EventModified, ev_Object = new\<rparr>"
proof -
  let ?key = "ObjectKeyFromObject obj"
  let ?e = "\<lparr>ev_Type = EventModified, ev_Object = new\<rparr>"
  obtain m where m: "objects s gvk = Some m" "map_of m ?key = Some stored"
      "mem_view s gvk = map_of m" "mem_map_ok sch (revision s) gvk m"
    and ok: "mem_obj_ok sch (revision s) gvk ?key stored"
    using inv stored by (rule mem_view_Some)
  obtain o1 where o1:
    "unmarshalInto sch (mem_mergeStatus (marshal Compact stored) (marshal Compact obj)) obj = Inr o1"
    and m1: "merged = SetGeneration (GetGeneration stored)
      (SetUID (GetUID stored) (SetResourceVersion (GetResourceVersion stored) o1))"
    using merged by (rule mem_mergedStatus_Inr)
  show "mem_contentEqual stored merged \<Longrightarrow> mem_UpdateStatus sch s obj = mem_copyBack sch s stored obj"
    using gvk m(1,2) rv o1 m1 by (simp add: mem_UpdateStatus_def Let_def)
  define s1 where "s1 = s\<lparr>revision := revision s + 1, objects := (objects s)(gvk \<mapsto> AList.update ?key new m)\<rparr>"
  obtain s2 where s2: "mem_emit s1 gvk (revision s + 1) ?e = Some s2"
      "mem_inv sch s2" "mem_commit s s2 gvk ?e"
    by (rule mem_put_commit [OF inv bound _ _ _ _ _ _ _ m(3,4), of s1 ?key new ?e])
      (use gvk ok stored mem_mergedStatus_key [OF merged] mem_gvkForObject_GoType [of new obj]
       in \<open>auto simp: s1_def new_def mem_obj_ok_def\<close>)
  show "\<exists>s'. mem_UpdateStatus sch s obj = mem_copyBack sch s' new obj \<and> mem_inv sch s' \<and> mem_commit s s' gvk ?e"
    if "\<not> mem_contentEqual stored merged"
    using that gvk m(1,2) rv o1 m1 s2 mem_rv_next [OF inv bound]
    by (intro exI [of _ s2]) (simp add: mem_UpdateStatus_def Let_def s1_def new_def)
qed

section \<open>Delete\<close>

lemma mem_Delete_commit:
  assumes inv: "mem_inv sch s" and bound: "revision s < MaxInt64"
    and gvk: "mem_gvkForObject sch obj = Inr gvk"
    and stored: "mem_view s gvk (ObjectKeyFromObject obj) = Some stored"
    and rv: "GetResourceVersion obj = [] \<or> GetResourceVersion obj = GetResourceVersion stored"
  defines "del \<equiv> SetResourceVersion (FormatInt (revision s + 1)) stored"
  obtains s' where "mem_Delete sch s obj = (s', None)" and "mem_inv sch s'"
    and "mem_commit s s' gvk \<lparr>ev_Type = EventDeleted, ev_Object = del\<rparr>"
proof -
  let ?key = "ObjectKeyFromObject obj"
  let ?e = "\<lparr>ev_Type = EventDeleted, ev_Object = del\<rparr>"
  obtain m where m: "objects s gvk = Some m" "map_of m ?key = Some stored"
      "mem_view s gvk = map_of m" "mem_map_ok sch (revision s) gvk m"
    and ok: "mem_obj_ok sch (revision s) gvk ?key stored"
    using inv stored by (rule mem_view_Some)
  define s1 where "s1 = s\<lparr>revision := revision s + 1, objects := (objects s)(gvk \<mapsto> AList.delete ?key m)\<rparr>"
  have "mem_map_ok sch (revision s + 1) gvk (AList.delete ?key m)"
    using m(4) by (rule mem_map_ok_delete) simp
  moreover have "map_of (AList.delete ?key m) = apply_event ?e (mem_view s gvk)"
    using ok m(3) by (simp add: apply_event_cases del_def mem_obj_ok_def)
  moreover have "event_ok (mem_view s gvk) ?e"
    using stored ok mem_next_rv_less [OF inv bound stored] by (simp add: event_ok_def del_def mem_obj_ok_def)
  ultimately obtain s2 where s2: "mem_emit s1 gvk (revision s + 1) ?e = Some s2"
      "mem_inv sch s2" "mem_commit s s2 gvk ?e"
    by (rule_tac mem_emit_commit [OF inv bound, of s1 gvk "AList.delete ?key m" ?e]) (auto simp: s1_def del_def)
  then have "mem_Delete sch s obj = (s2, None)"
    using gvk m(1,2) rv mem_rv_next [OF inv bound] by (auto simp: mem_Delete_def Let_def s1_def del_def)
  with s2 show thesis using that by blast
qed

section \<open>Errors leave the store as it was\<close>

lemma mem_write_gvk_error:
  assumes "mem_gvkForObject sch obj = Inl e"
  shows "mem_Create sch s obj = (s, obj, Some e)" "mem_Update sch s obj = (s, obj, Some e)"
    "mem_UpdateStatus sch s obj = (s, obj, Some e)" "mem_Delete sch s obj = (s, Some e)"
  using assms by (simp_all add: mem_Create_def mem_Update_def mem_UpdateStatus_def mem_Delete_def)

lemma mem_write_not_found:
  assumes "mem_gvkForObject sch obj = Inr gvk" and "mem_view s gvk (ObjectKeyFromObject obj) = None"
  defines "err \<equiv> Some (NotFoundError (ObjectKey_String (ObjectKeyFromObject obj)))"
  shows "mem_Update sch s obj = (s, obj, err)" "mem_UpdateStatus sch s obj = (s, obj, err)"
    "mem_Delete sch s obj = (s, err)"
  using assms(1) mem_view_None [OF assms(2)]
  by (auto simp: err_def mem_Update_def mem_UpdateStatus_def mem_Delete_def Let_def)

lemma mem_write_conflict:
  assumes "mem_gvkForObject sch obj = Inr gvk"
    and "mem_view s gvk (ObjectKeyFromObject obj) = Some stored"
    and "GetResourceVersion obj \<noteq> GetResourceVersion stored"
  defines "err \<equiv> Some (ConflictError (ObjectKey_String (ObjectKeyFromObject obj)))"
  shows "mem_Update sch s obj = (s, obj, err)" "mem_UpdateStatus sch s obj = (s, obj, err)"
    "GetResourceVersion obj \<noteq> [] \<Longrightarrow> mem_Delete sch s obj = (s, err)"
  using assms
  by (auto simp: mem_view_def mem_Update_def mem_UpdateStatus_def mem_Delete_def Let_def split: option.splits)

lemma merged_Inl:
  "mem_mergedSpec sch stored obj = Inl e \<Longrightarrow>
   unmarshalInto sch (mem_mergeSpec (marshal Compact stored) (marshal Compact obj)) obj = Inl e"
  "mem_mergedStatus sch stored obj = Inl e \<Longrightarrow>
   unmarshalInto sch (mem_mergeStatus (marshal Compact stored) (marshal Compact obj)) obj = Inl e"
  by (cases "unmarshalInto sch (mem_mergeSpec (marshal Compact stored) (marshal Compact obj)) obj";
      simp add: mem_mergedSpec_def)
    (cases "unmarshalInto sch (mem_mergeStatus (marshal Compact stored) (marshal Compact obj)) obj";
      simp add: mem_mergedStatus_def)

lemma mem_update_decode_error:
  assumes "mem_gvkForObject sch obj = Inr gvk"
    and "mem_view s gvk (ObjectKeyFromObject obj) = Some stored"
    and "GetResourceVersion obj = GetResourceVersion stored"
  shows "mem_mergedSpec sch stored obj = Inl e \<Longrightarrow> fst (mem_Update sch s obj) = s"
    and "mem_mergedStatus sch stored obj = Inl e \<Longrightarrow> fst (mem_UpdateStatus sch s obj) = s"
proof -
  obtain m where m: "objects s gvk = Some m" "map_of m (ObjectKeyFromObject obj) = Some stored"
    using assms(2) by (auto simp: mem_view_def split: option.splits)
  show "mem_mergedSpec sch stored obj = Inl e \<Longrightarrow> fst (mem_Update sch s obj) = s"
    using assms(1,3) m by (drule_tac merged_Inl(1)) (simp add: mem_Update_def Let_def)
  show "mem_mergedStatus sch stored obj = Inl e \<Longrightarrow> fst (mem_UpdateStatus sch s obj) = s"
    using assms(1,3) m by (drule_tac merged_Inl(2)) (simp add: mem_UpdateStatus_def Let_def)
qed

lemma mem_copyBack_state [simp]: "fst (mem_copyBack sch s a b) = s"
  by (simp add: mem_copyBack_def split: sum.split)

section \<open>Watchers\<close>

lemma mem_preload_spec:
  "length (w_ch w) + length es \<le> w_cap w \<Longrightarrow> mem_preload w es = Some (w\<lparr>w_ch := w_ch w @ es\<rparr>)"
  by (induction es arbitrary: w) (simp_all add: chan_send_def)

lemma watchBufSize_fits: "length replay \<le> watchBufSize replay"
  by (simp add: watchBufSize_def)

lemma mem_preload_new:
  "mem_preload (newMemoryWatcher gvk (watchBufSize replay)) replay =
   Some \<lparr>w_gvk = gvk, w_ch = replay, w_cap = watchBufSize replay, w_closed = False\<rparr>"
  by (simp add: mem_preload_spec newMemoryWatcher_def watchBufSize_fits)

text \<open>The replay of a watch before the selector filters it.\<close>

definition mem_replay :: "MemoryStore \<Rightarrow> ListOption list \<Rightarrow> GroupVersionKind \<Rightarrow> error + Event list" where
  "mem_replay s opts gvk =
     (case watchFrom opts None of None \<Rightarrow> Inr [] | Some r \<Rightarrow> mem_eventsSince s r gvk)"

lemma mem_Watch_eq:
  assumes "mem_gvkForList sch lst = Inr gvk" and "mem_replay s opts gvk = Inr es"
  defines "replay \<equiv> mem_replayFilter (applyListOptions opts) es"
  shows "mem_Watch sch s lst opts =
    (s\<lparr>wheap := (wheap s)(nextWatcher s :=
         \<lparr>w_gvk = gvk, w_ch = replay, w_cap = watchBufSize replay, w_closed = False\<rparr>),
       nextWatcher := Suc (nextWatcher s),
       watchers := (watchers s)(gvk := watchers s gvk @ [nextWatcher s])\<rparr>, Inr (nextWatcher s))"
  using assms(1,2) by (simp add: mem_Watch_def mem_replay_def replay_def mem_preload_new Let_def)

lemma mem_Watch_error:
  "mem_gvkForList sch lst = Inl e \<Longrightarrow> mem_Watch sch s lst opts = (s, Inl e)"
  "mem_gvkForList sch lst = Inr gvk \<Longrightarrow> mem_replay s opts gvk = Inl e \<Longrightarrow>
   mem_Watch sch s lst opts = (s, Inl e)"
  by (simp_all add: mem_Watch_def mem_replay_def Let_def)

lemma mem_Watch_quiet:
  assumes inv: "mem_inv sch s"
  shows "mem_inv sch (fst (mem_Watch sch s lst opts)) \<and> mem_quiet s (fst (mem_Watch sch s lst opts))"
proof (cases "mem_gvkForList sch lst")
  case (Inl e)
  with inv show ?thesis by (simp add: mem_Watch_error)
next
  case (Inr gvk)
  show ?thesis
  proof (cases "mem_replay s opts gvk")
    case (Inl e)
    with Inr inv show ?thesis by (simp add: mem_Watch_error)
  next
    case (Inr es)
    let ?s' = "fst (mem_Watch sch s lst opts)"
    have "mem_watchers_ok ?s'"
      using inv by (auto simp: mem_Watch_eq [OF \<open>mem_gvkForList sch lst = Inr gvk\<close> Inr] mem_inv_def
          mem_watchers_ok_def watchBufSize_fits intro: less_SucI)
    with inv show ?thesis
      by (auto simp: mem_Watch_eq [OF \<open>mem_gvkForList sch lst = Inr gvk\<close> Inr] mem_inv_def mem_log_ok_def
          mem_quiet_def mem_view_def fun_eq_iff)
  qed
qed

lemma mem_Stop_quiet:
  assumes "mem_inv sch s"
  shows "mem_inv sch (mem_Stop s i) \<and> mem_quiet s (mem_Stop s i)"
  using assms
  by (auto simp: mem_Stop_def mem_removeWatcher_def mem_inv_def mem_log_ok_def mem_watchers_ok_def
      mem_quiet_def mem_view_def Let_def fun_eq_iff)

lemma mem_Recv_quiet:
  assumes "mem_inv sch s"
  shows "mem_inv sch (fst (mem_Recv s i)) \<and> mem_quiet s (fst (mem_Recv s i))"
proof -
  have "length (w_ch (wheap s i)) \<le> w_cap (wheap s i)"
    using assms by (simp add: mem_inv_def mem_watchers_ok_def)
  then have "w_gvk (fst (memw_Recv (wheap s i))) = w_gvk (wheap s i)"
    and "length (w_ch (fst (memw_Recv (wheap s i)))) \<le> w_cap (fst (memw_Recv (wheap s i)))"
    by (auto simp: memw_Recv_def split: list.split)
  with assms show ?thesis
    by (auto simp: mem_Recv_def mem_inv_def mem_log_ok_def mem_watchers_ok_def mem_quiet_def
        mem_view_def Let_def fun_eq_iff)
qed

end
