(* ===== verification/Memory_Run.thy ===== *)
theory Memory_Run
  imports Memory_Inv
begin

text \<open>
  Runs of the memory store. An operation is one critical section of a client; the interleaving of
  any number of clients is a list of operations. The lemmas here give the history of a run: the
  log entries it appends, the view they produce and what each watcher has received of them.
\<close>

section \<open>Operations and runs\<close>

datatype mem_op =
    OpCreate object
  | OpUpdate object
  | OpUpdateStatus object
  | OpDelete object
  | OpWatch object_list "ListOption list"
  | OpRecv watcher_id
  | OpStop watcher_id

fun mem_exec :: "scheme \<Rightarrow> mem_op \<Rightarrow> MemoryStore \<Rightarrow> MemoryStore" where
  "mem_exec sch (OpCreate o1) s = fst (mem_Create sch s o1)"
| "mem_exec sch (OpUpdate o1) s = fst (mem_Update sch s o1)"
| "mem_exec sch (OpUpdateStatus o1) s = fst (mem_UpdateStatus sch s o1)"
| "mem_exec sch (OpDelete o1) s = fst (mem_Delete sch s o1)"
| "mem_exec sch (OpWatch l opts) s = fst (mem_Watch sch s l opts)"
| "mem_exec sch (OpRecv i) s = fst (mem_Recv s i)"
| "mem_exec sch (OpStop i) s = mem_Stop s i"

fun mem_execs :: "scheme \<Rightarrow> mem_op list \<Rightarrow> MemoryStore \<Rightarrow> MemoryStore" where
  "mem_execs sch [] s = s"
| "mem_execs sch (op # ops) s = mem_execs sch ops (mem_exec sch op s)"

text \<open>
  The step relation of the store and the states it reaches from \<open>NewStore\<close>. The guard bounds the
  runs considered: the counter is 64 bits wide, and a store that has used up all revisions wraps.
\<close>

inductive mem_step :: "scheme \<Rightarrow> MemoryStore \<Rightarrow> MemoryStore \<Rightarrow> bool" for sch where
  step: "revision s < MaxInt64 \<Longrightarrow> mem_step sch s (mem_exec sch op s)"

inductive mem_reachable :: "scheme \<Rightarrow> int \<Rightarrow> MemoryStore \<Rightarrow> bool" for sch n where
  init: "mem_reachable sch n (mem_NewStore [mem_WithEventLogSize n])"
| more: "mem_reachable sch n s \<Longrightarrow> mem_step sch s s' \<Longrightarrow> mem_reachable sch n s'"

inductive_cases mem_stepE: "mem_step sch s s'"

section \<open>The effect of one operation\<close>

fun is_write :: "mem_op \<Rightarrow> bool" where
  "is_write (OpCreate _) = True"
| "is_write (OpUpdate _) = True"
| "is_write (OpUpdateStatus _) = True"
| "is_write (OpDelete _) = True"
| "is_write _ = False"

lemma mem_Create_effect:
  fixes obj :: object
  assumes "mem_inv sch s" and "revision s < MaxInt64"
  defines "s' \<equiv> fst (mem_Create sch s obj)"
  shows "mem_inv sch s' \<and> (s' = s \<or> (\<exists>gvk e. mem_commit s s' gvk e))"
proof (cases "mem_gvkForObject sch obj")
  case (Inl e)
  with assms(1) show ?thesis by (simp add: s'_def mem_write_gvk_error)
next
  case (Inr gvk)
  show ?thesis
  proof (cases "mem_view s gvk (ObjectKeyFromObject obj) = None")
    case True
    obtain t where "mem_Create sch s obj = mem_copyBack sch t (mem_created s obj) (mem_created s obj)"
        "mem_inv sch t" "mem_commit s t gvk \<lparr>ev_Type = EventAdded, ev_Object = mem_created s obj\<rparr>"
      using assms(1,2) Inr True by (rule mem_Create_commit)
    then show ?thesis by (auto simp: s'_def)
  next
    case False
    with mem_Create_exists [OF assms(1) Inr] assms(1) show ?thesis by (simp add: s'_def)
  qed
qed

lemma mem_Delete_effect:
  fixes obj :: object
  assumes "mem_inv sch s" and "revision s < MaxInt64"
  defines "s' \<equiv> fst (mem_Delete sch s obj)"
  shows "mem_inv sch s' \<and> (s' = s \<or> (\<exists>gvk e. mem_commit s s' gvk e))"
proof (cases "mem_gvkForObject sch obj")
  case (Inl e)
  with assms(1) show ?thesis by (simp add: s'_def mem_write_gvk_error)
next
  case (Inr gvk)
  show ?thesis
  proof (cases "mem_view s gvk (ObjectKeyFromObject obj)")
    case None
    with mem_write_not_found(3) [OF Inr None] assms(1) show ?thesis by (simp add: s'_def)
  next
    case (Some stored)
    show ?thesis
    proof (cases "GetResourceVersion obj = [] \<or> GetResourceVersion obj = GetResourceVersion stored")
      case True
      show ?thesis
        by (rule mem_Delete_commit [OF assms(1,2) Inr Some True]) (auto simp: s'_def)
    next
      case False
      with mem_write_conflict(3) [OF Inr Some] assms(1) show ?thesis by (simp add: s'_def)
    qed
  qed
qed

lemma mem_Update_effect:
  fixes obj :: object
  assumes "mem_inv sch s" and "revision s < MaxInt64"
  defines "s' \<equiv> fst (mem_Update sch s obj)"
  shows "mem_inv sch s' \<and> (s' = s \<or> (\<exists>gvk e. mem_commit s s' gvk e))"
proof (cases "mem_gvkForObject sch obj")
  case (Inl e)
  with assms(1) show ?thesis by (simp add: s'_def mem_write_gvk_error)
next
  case (Inr gvk)
  show ?thesis
  proof (cases "mem_view s gvk (ObjectKeyFromObject obj)")
    case None
    with mem_write_not_found(1) [OF Inr None] assms(1) show ?thesis by (simp add: s'_def)
  next
    case (Some stored)
    show ?thesis
    proof (cases "GetResourceVersion obj = GetResourceVersion stored")
      case rv: True
      show ?thesis
      proof (cases "mem_mergedSpec sch stored obj")
        case (Inl e)
        with mem_update_decode_error(1) [OF Inr Some rv] assms(1) show ?thesis by (simp add: s'_def)
      next
        case m: (Inr merged)
        from mem_Update_eq [OF assms(1,2) Inr Some rv m] assms(1) show ?thesis
          by (cases "mem_contentEqual stored merged") (auto simp: s'_def)
      qed
    next
      case False
      with mem_write_conflict(1) [OF Inr Some] assms(1) show ?thesis by (simp add: s'_def)
    qed
  qed
qed

lemma mem_UpdateStatus_effect:
  fixes obj :: object
  assumes "mem_inv sch s" and "revision s < MaxInt64"
  defines "s' \<equiv> fst (mem_UpdateStatus sch s obj)"
  shows "mem_inv sch s' \<and> (s' = s \<or> (\<exists>gvk e. mem_commit s s' gvk e))"
proof (cases "mem_gvkForObject sch obj")
  case (Inl e)
  with assms(1) show ?thesis by (simp add: s'_def mem_write_gvk_error)
next
  case (Inr gvk)
  show ?thesis
  proof (cases "mem_view s gvk (ObjectKeyFromObject obj)")
    case None
    with mem_write_not_found(2) [OF Inr None] assms(1) show ?thesis by (simp add: s'_def)
  next
    case (Some stored)
    show ?thesis
    proof (cases "GetResourceVersion obj = GetResourceVersion stored")
      case rv: True
      show ?thesis
      proof (cases "mem_mergedStatus sch stored obj")
        case (Inl e)
        with mem_update_decode_error(2) [OF Inr Some rv] assms(1) show ?thesis by (simp add: s'_def)
      next
        case m: (Inr merged)
        from mem_UpdateStatus_eq [OF assms(1,2) Inr Some rv m] assms(1) show ?thesis
          by (cases "mem_contentEqual stored merged") (auto simp: s'_def)
      qed
    next
      case False
      with mem_write_conflict(2) [OF Inr Some] assms(1) show ?thesis by (simp add: s'_def)
    qed
  qed
qed

lemma mem_write_effect:
  assumes "mem_inv sch s" and "revision s < MaxInt64" and "is_write op"
  shows "mem_inv sch (mem_exec sch op s) \<and>
    (mem_exec sch op s = s \<or> (\<exists>gvk e. mem_commit s (mem_exec sch op s) gvk e))"
  using assms mem_Create_effect mem_Update_effect mem_UpdateStatus_effect mem_Delete_effect
  by (cases op) auto

lemma mem_exec_effect:
  assumes "mem_inv sch s" and "revision s < MaxInt64"
  shows "mem_inv sch (mem_exec sch op s) \<and>
    (mem_quiet s (mem_exec sch op s) \<or> (\<exists>gvk e. mem_commit s (mem_exec sch op s) gvk e))"
proof (cases "is_write op")
  case True
  with mem_write_effect [OF assms True] show ?thesis by auto
next
  case False
  with assms(1) mem_Watch_quiet mem_Recv_quiet mem_Stop_quiet show ?thesis
    by (cases op) auto
qed

section \<open>The history of a run\<close>

definition events_for :: "GroupVersionKind \<Rightarrow> eventLogEntry list \<Rightarrow> Event list" where
  "events_for gvk h = map le_event (filter (\<lambda>en. le_gvk en = gvk) h)"

lemma events_for_simps [simp]:
  "events_for gvk [] = []"
  "events_for gvk (h @ h') = events_for gvk h @ events_for gvk h'"
  "events_for gvk [\<lparr>le_revision = r, le_gvk = gvk', le_event = e\<rparr>] = (if gvk' = gvk then [e] else [])"
  by (simp_all add: events_for_def)

definition mem_extends :: "MemoryStore \<Rightarrow> eventLogEntry list \<Rightarrow> MemoryStore \<Rightarrow> bool" where
  "mem_extends t h s \<longleftrightarrow>
     revision s = revision t + int (length h) \<and> contiguous (eventLog t @ h) (revision s) \<and>
     eventLogMax s = eventLogMax t \<and> eventLog s = last_n (nat (eventLogMax t)) (eventLog t @ h) \<and>
     (\<forall>gvk. mem_view s gvk = apply_events (events_for gvk h) (mem_view t gvk)) \<and>
     (\<forall>gvk. valid_events (mem_view t gvk) (events_for gvk h)) \<and>
     (\<forall>en \<in> set h. GetResourceVersion (ev_Object (le_event en)) = FormatInt (le_revision en))"

lemma mem_extends_refl: "mem_inv sch s \<Longrightarrow> mem_extends s [] s"
  using last_n_all [of "eventLog s" "nat (eventLogMax s)"]
  by (auto simp: mem_extends_def mem_inv_def mem_log_ok_def)

lemma mem_extends_quiet: "mem_extends t h s \<Longrightarrow> mem_quiet s s' \<Longrightarrow> mem_extends t h s'"
  by (auto simp: mem_extends_def mem_quiet_def)

lemma mem_extends_commit:
  assumes "mem_extends t h s" and "mem_commit s s' gvk e"
  shows "mem_extends t (h @ [\<lparr>le_revision = revision s + 1, le_gvk = gvk, le_event = e\<rparr>]) s'"
proof -
  let ?en = "\<lparr>le_revision = revision s + 1, le_gvk = gvk, le_event = e\<rparr>"
  have "contiguous (eventLog t @ h) (revision s)"
    using assms(1) unfolding mem_extends_def by blast
  then have "contiguous ((eventLog t @ h) @ [?en]) (revision s + 1)"
    by (rule contiguous_snoc) simp
  moreover have "eventLog s' = last_n (nat (eventLogMax t)) ((eventLog t @ h) @ [?en])"
    using assms by (simp add: mem_extends_def mem_commit_def last_n_snoc del: append_assoc)
  ultimately show ?thesis
    using assms by (auto simp: mem_extends_def mem_commit_def)
qed

lemma mem_extends_step:
  assumes "mem_inv sch s" and "revision s < MaxInt64" and "mem_extends t h s"
  obtains h' where "mem_extends t (h @ h') (mem_exec sch op s)" and "length h' \<le> 1"
proof -
  have "mem_quiet s (mem_exec sch op s) \<or> (\<exists>gvk e. mem_commit s (mem_exec sch op s) gvk e)"
    using mem_exec_effect [OF assms(1,2)] by blast
  then show thesis
  proof
    assume "mem_quiet s (mem_exec sch op s)"
    with assms(3) have "mem_extends t (h @ []) (mem_exec sch op s)"
      by (simp add: mem_extends_quiet)
    then show thesis by (rule that) simp
  next
    assume "\<exists>gvk e. mem_commit s (mem_exec sch op s) gvk e"
    then obtain gvk e where "mem_commit s (mem_exec sch op s) gvk e" by blast
    from mem_extends_commit [OF assms(3) this] show thesis by (rule that) simp
  qed
qed

lemma mem_execs_extends:
  assumes "mem_inv sch s" and "mem_extends t h s"
    and "revision s + int (length ops) \<le> MaxInt64"
  shows "mem_inv sch (mem_execs sch ops s) \<and>
    (\<exists>h'. mem_extends t (h @ h') (mem_execs sch ops s) \<and> length h' \<le> length ops)"
  using assms
proof (induction ops arbitrary: s h)
  case Nil
  then show ?case by (auto intro: exI [of _ "[]"])
next
  case (Cons op ops)
  let ?s1 = "mem_exec sch op s"
  have lt: "revision s < MaxInt64" using Cons.prems(3) by simp
  obtain h' where h': "mem_extends t (h @ h') ?s1" "length h' \<le> 1"
    using Cons.prems(1) lt Cons.prems(2) by (rule mem_extends_step)
  have "revision ?s1 \<le> revision s + 1"
    using h' Cons.prems(2) by (auto simp: mem_extends_def)
  then have "revision ?s1 + int (length ops) \<le> MaxInt64"
    using Cons.prems(3) by simp
  with Cons.IH [OF _ h'(1)] mem_exec_effect [OF Cons.prems(1) lt, of op]
  obtain h'' where "mem_inv sch (mem_execs sch ops ?s1)"
      "mem_extends t ((h @ h') @ h'') (mem_execs sch ops ?s1)" "length h'' \<le> length ops" by blast
  with h'(2) show ?case by (auto intro!: exI [of _ "h' @ h''"])
qed

lemma mem_run_history:
  assumes "mem_inv sch t" and "revision t + int (length ops) \<le> MaxInt64"
  obtains h where "mem_inv sch (mem_execs sch ops t)" and "mem_extends t h (mem_execs sch ops t)"
    and "length h \<le> length ops"
  using mem_execs_extends [OF assms(1) mem_extends_refl [OF assms(1)] assms(2)] by auto

text \<open>What \<open>eventsSince\<close> answers about a run, by the contract of the log.\<close>

lemma mem_extends_since:
  assumes "mem_inv sch s" and "mem_inv sch t" and "mem_extends t h s"
  shows "mem_eventsSince s (revision t) gvk =
    (if int (length h) \<le> eventLogMax t then Inr (events_for gvk h)
     else Inl (RevisionTooOldError (revision t)
       (if eventLogMax t = 0 then add64 (revision s) 1 else revision s - eventLogMax t + 1)))"
proof -
  have bounds: "is_int64 (revision s)" "is_int64 (revision t)" "0 \<le> eventLogMax t"
    using assms(1,2) by (auto simp: mem_inv_def mem_log_ok_def is_int64_def MinInt64_def)
  from assms(3) have ext: "eventLog s = last_n (nat (eventLogMax t)) (eventLog t @ h)"
      "contiguous (eventLog t @ h) (revision s)" "revision s = revision t + int (length h)"
    unfolding mem_extends_def by blast+
  have "length h \<le> nat (eventLogMax t) \<longleftrightarrow> int (length h) \<le> eventLogMax t"
    using bounds(3) by linarith
  with memlog.since_spec [OF ext bounds(1,2)] bounds(3) show ?thesis
    by (simp add: events_for_def)
qed

lemma mem_NewStore_inv: "0 \<le> n \<Longrightarrow> mem_inv sch (mem_NewStore [mem_WithEventLogSize n])"
  by (simp add: mem_NewStore_def mem_WithEventLogSize_def mem_inv_def mem_log_ok_def mem_watchers_ok_def
      nil_watcher_def MaxInt64_def)

lemma mem_reachable_inv:
  assumes "mem_reachable sch n s" and "0 \<le> n"
  shows "mem_inv sch s"
  using assms
proof (induction rule: mem_reachable.induct)
  case init
  then show ?case by (rule mem_NewStore_inv)
next
  case (more s s')
  then show ?case by (auto elim!: mem_stepE dest: mem_exec_effect)
qed

end
