(* ===== verification/Memory_Watch.thy ===== *)
theory Memory_Watch
  imports Memory_Run
begin

text \<open>
  What a watcher of the memory store delivers. \<open>mem_received\<close> is the sequence of events that the
  receives of a run took from one watcher. The invariant \<open>mem_watch_ok\<close> ties it to the history of
  the run: received and buffered events together are a prefix of the replay followed by the
  history of the kind, and all of it as long as the channel is open.
\<close>

section \<open>Received events\<close>

fun mem_took :: "watcher_id \<Rightarrow> mem_op \<Rightarrow> MemoryStore \<Rightarrow> Event list" where
  "mem_took i (OpRecv j) s =
     (if j = i then (case snd (mem_Recv s i) of Received e \<Rightarrow> [e] | _ \<Rightarrow> []) else [])"
| "mem_took i _ s = []"

fun mem_received :: "scheme \<Rightarrow> watcher_id \<Rightarrow> mem_op list \<Rightarrow> MemoryStore \<Rightarrow> Event list" where
  "mem_received sch i [] s = []"
| "mem_received sch i (op # ops) s = mem_took i op s @ mem_received sch i ops (mem_exec sch op s)"

definition mem_watch_ok ::
  "watcher_id \<Rightarrow> GroupVersionKind \<Rightarrow> Event list \<Rightarrow> Event list \<Rightarrow> MemoryStore \<Rightarrow> bool" where
  "mem_watch_ok i gvk all q s \<longleftrightarrow>
     i < nextWatcher s \<and> w_gvk (wheap s i) = gvk \<and> prefix (q @ w_ch (wheap s i)) all \<and>
     (\<not> w_closed (wheap s i) \<longrightarrow> q @ w_ch (wheap s i) = all \<and> i \<in> set (watchers s gvk))"

section \<open>One step\<close>

lemma memw_send_cases:
  "w_closed w \<Longrightarrow> memw_send w e = w"
  "\<not> w_closed w \<Longrightarrow> length (w_ch w) < w_cap w \<Longrightarrow> memw_send w e = w\<lparr>w_ch := w_ch w @ [e]\<rparr>"
  "\<not> w_closed w \<Longrightarrow> \<not> length (w_ch w) < w_cap w \<Longrightarrow> memw_send w e = w\<lparr>w_closed := True\<rparr>"
  by (simp_all add: memw_send_def chan_send_def)

lemma mem_watch_ok_commit:
  assumes inv: "mem_inv sch s" and ok: "mem_watch_ok i gvk all q s" and c: "mem_commit s s' gvk' e"
  shows "mem_watch_ok i gvk (all @ (if gvk' = gvk then [e] else [])) q s'"
proof (cases "i \<in> set (watchers s gvk')")
  case True
  then have "gvk' = gvk"
    using inv ok by (auto simp: mem_inv_def mem_watchers_ok_def mem_watch_ok_def)
  moreover have h: "wheap s' i = memw_send (wheap s i) e" "nextWatcher s' = nextWatcher s"
      "watchers s' gvk' = filter (\<lambda>i. \<not> w_closed (wheap s i)) (watchers s gvk')"
    using c True by (auto simp: mem_commit_def)
  consider "w_closed (wheap s i)" | "\<not> w_closed (wheap s i)" "length (w_ch (wheap s i)) < w_cap (wheap s i)"
    | "\<not> w_closed (wheap s i)" "\<not> length (w_ch (wheap s i)) < w_cap (wheap s i)" by blast
  then have "mem_watch_ok i gvk (all @ [e]) q s'"
    by cases (use ok h True \<open>gvk' = gvk\<close> in \<open>auto simp: mem_watch_ok_def memw_send_cases intro: prefix_prefix\<close>)
  with \<open>gvk' = gvk\<close> show ?thesis by simp
next
  case False
  then have h: "wheap s' i = wheap s i" "nextWatcher s' = nextWatcher s"
    using c by (auto simp: mem_commit_def)
  show ?thesis
  proof (cases "gvk' = gvk")
    case True
    then have "w_closed (wheap s i)" using ok False by (auto simp: mem_watch_ok_def)
    with True ok h show ?thesis by (auto simp: mem_watch_ok_def intro: prefix_prefix)
  next
    case neq: False
    then have "watchers s' gvk = watchers s gvk" using c by (auto simp: mem_commit_def)
    with neq ok h show ?thesis by (auto simp: mem_watch_ok_def)
  qed
qed

lemma mem_watch_ok_Watch:
  assumes "mem_watch_ok i gvk all q s"
  shows "mem_watch_ok i gvk all q (fst (mem_Watch sch s lst opts))"
proof (cases "mem_gvkForList sch lst")
  case (Inl e)
  with assms show ?thesis by (simp add: mem_Watch_error)
next
  case (Inr g)
  with assms show ?thesis
    by (cases "mem_replay s opts g")
      (auto simp: mem_Watch_error mem_Watch_eq mem_watch_ok_def)
qed

lemma mem_watch_ok_Recv:
  "mem_watch_ok i gvk all q s \<Longrightarrow>
   mem_watch_ok i gvk all (q @ mem_took i (OpRecv j) s) (fst (mem_Recv s j))"
  by (auto simp: mem_watch_ok_def mem_Recv_def memw_Recv_def Let_def split: list.split)

lemma mem_watch_ok_Stop:
  "mem_watch_ok i gvk all q s \<Longrightarrow> mem_watch_ok i gvk all q (mem_Stop s j)"
  by (auto simp: mem_watch_ok_def mem_Stop_def mem_removeWatcher_def Let_def)

lemma mem_watch_step:
  assumes "mem_inv sch s" and "revision s < MaxInt64"
    and "mem_extends t h s" and "mem_watch_ok i gvk all q s"
  obtains h' where "mem_extends t (h @ h') (mem_exec sch op s)" and "length h' \<le> 1"
    and "mem_watch_ok i gvk (all @ events_for gvk h') (q @ mem_took i op s) (mem_exec sch op s)"
proof (cases "is_write op")
  case True
  then have took: "mem_took i op s = []" by (cases op) auto
  consider "mem_exec sch op s = s" | g e where "mem_commit s (mem_exec sch op s) g e"
    using mem_write_effect [OF assms(1,2) True] by blast
  then show thesis
  proof cases
    case 1
    with assms took show thesis by (intro that [of "[]"]) simp_all
  next
    case (2 g e)
    from mem_extends_commit [OF assms(3) 2] mem_watch_ok_commit [OF assms(1,4) 2] took show thesis
      by (intro that [of "[\<lparr>le_revision = revision s + 1, le_gvk = g, le_event = e\<rparr>]"]) simp_all
  qed
next
  case False
  then have "mem_quiet s (mem_exec sch op s)"
    using assms(1) mem_Watch_quiet mem_Recv_quiet mem_Stop_quiet by (cases op) auto
  moreover have "mem_watch_ok i gvk all (q @ mem_took i op s) (mem_exec sch op s)"
    using False assms(4) mem_watch_ok_Watch mem_watch_ok_Recv mem_watch_ok_Stop by (cases op) auto
  ultimately show thesis
    using assms(3) by (intro that [of "[]"]) (simp_all add: mem_extends_quiet)
qed

section \<open>Runs\<close>

lemma mem_watch_run:
  assumes "mem_inv sch s" and "mem_extends t h s" and "mem_watch_ok i gvk all q s"
    and "revision s + int (length ops) \<le> MaxInt64"
  shows "\<exists>h'. mem_extends t (h @ h') (mem_execs sch ops s) \<and>
    mem_watch_ok i gvk (all @ events_for gvk h') (q @ mem_received sch i ops s) (mem_execs sch ops s)"
  using assms
proof (induction ops arbitrary: s h all q)
  case Nil
  then show ?case by (intro exI [of _ "[]"]) simp
next
  case (Cons op ops)
  let ?s1 = "mem_exec sch op s"
  have lt: "revision s < MaxInt64" using Cons.prems(4) by simp
  obtain h' where h': "mem_extends t (h @ h') ?s1" "length h' \<le> 1"
      "mem_watch_ok i gvk (all @ events_for gvk h') (q @ mem_took i op s) ?s1"
    using Cons.prems(1) lt Cons.prems(2,3) by (rule mem_watch_step)
  have "revision ?s1 \<le> revision s + 1"
    using h'(1,2) Cons.prems(2) by (auto simp: mem_extends_def)
  then have "revision ?s1 + int (length ops) \<le> MaxInt64"
    using Cons.prems(4) by simp
  moreover have "mem_inv sch ?s1"
    using mem_exec_effect [OF Cons.prems(1) lt] by blast
  ultimately obtain h'' where "mem_extends t ((h @ h') @ h'') (mem_execs sch ops ?s1)"
      "mem_watch_ok i gvk ((all @ events_for gvk h') @ events_for gvk h'')
         ((q @ mem_took i op s) @ mem_received sch i ops ?s1) (mem_execs sch ops ?s1)"
    using Cons.IH [OF _ h'(1,3)] by blast
  then show ?case by (intro exI [of _ "h' @ h''"]) simp
qed

lemma mem_Watch_watch_ok:
  assumes "mem_gvkForList sch lst = Inr gvk" and "mem_replay s opts gvk = Inr es"
  shows "mem_watch_ok (nextWatcher s) gvk (mem_replayFilter (applyListOptions opts) es) []
    (fst (mem_Watch sch s lst opts))"
  using assms by (simp add: mem_Watch_eq mem_watch_ok_def)

text \<open>
  List, run, watch from the listed revision, run: the pieces of the protocol that a client follows.
  The log must still hold what happened between the two calls.
\<close>

lemma mem_list_then_watch:
  assumes inv: "mem_inv sch t" and gvk: "mem_gvkForList sch lst = Inr gvk"
    and ops: "revision t + int (length ops1) + int (length ops2) \<le> MaxInt64"
    and t1: "t1 = mem_execs sch ops1 t" and opts: "watchFrom opts None = Some (revision t)"
    and log: "revision t1 - revision t \<le> eventLogMax t"
    and nosel: "lo_LabelSelector (applyListOptions opts) = None"
  obtains h where
    "snd (mem_Watch sch t1 lst opts) = Inr (nextWatcher t1)"
    and "mem_extends t h (mem_execs sch ops2 (fst (mem_Watch sch t1 lst opts)))"
    and "mem_watch_ok (nextWatcher t1) gvk (events_for gvk h)
      (mem_received sch (nextWatcher t1) ops2 (fst (mem_Watch sch t1 lst opts)))
      (mem_execs sch ops2 (fst (mem_Watch sch t1 lst opts)))"
proof -
  let ?w = "mem_Watch sch t1 lst opts" and ?i = "nextWatcher t1"
  obtain h1 where inv1: "mem_inv sch t1" and h1: "mem_extends t h1 t1" and len: "length h1 \<le> length ops1"
    using inv ops unfolding t1 by (rule_tac mem_run_history [of sch t ops1]) auto
  have "mem_replay t1 opts gvk = Inr (events_for gvk h1)"
    using mem_extends_since [OF inv1 inv h1, of gvk] h1 log by (simp add: mem_replay_def opts mem_extends_def)
  note watch = gvk this
  have "snd ?w = Inr ?i" by (simp add: mem_Watch_eq [OF watch])
  moreover have "mem_watch_ok ?i gvk (events_for gvk h1) [] (fst ?w)"
    using mem_Watch_watch_ok [OF watch] nosel by (simp add: mem_replayFilter_def)
  moreover have w: "mem_inv sch (fst ?w)" "mem_quiet t1 (fst ?w)"
    using mem_Watch_quiet [OF inv1] by auto
  moreover have "mem_extends t h1 (fst ?w)" using h1 w(2) by (rule mem_extends_quiet)
  moreover have "revision (fst ?w) + int (length ops2) \<le> MaxInt64"
    using h1 len ops w(2) by (simp add: mem_extends_def mem_quiet_def)
  ultimately obtain h' where "mem_extends t (h1 @ h') (mem_execs sch ops2 (fst ?w))"
      "mem_watch_ok ?i gvk (events_for gvk h1 @ events_for gvk h') ([] @ mem_received sch ?i ops2 (fst ?w))
         (mem_execs sch ops2 (fst ?w))"
    using mem_watch_run [of sch "fst ?w" t h1 ?i gvk "events_for gvk h1" "[]" ops2] by blast
  with \<open>snd ?w = Inr ?i\<close> show thesis by (intro that [of "h1 @ h'"]) simp_all
qed

end
