(* ===== verification/Conformance_Types.thy ===== *)
theory Conformance_Types
  imports Store_API
begin

text \<open>
  The object types of the conformance suite (\<open>storetest/storetest.go\<close>): widgets with a spec and a
  status, gadgets with neither, the scheme that registers them, and how \<open>encoding/json\<close> decodes
  their fields. This scheme instantiates the parameter \<open>scheme\<close> of every component.
\<close>

definition widgetGVK :: GroupVersionKind where
  "widgetGVK = \<lparr>Group = ''widget.storetest.dev'', Version = ''v1'', Kind = ''testWidget''\<rparr>"

definition gadgetGVK :: GroupVersionKind where
  "gadgetGVK = \<lparr>Group = ''gadget.storetest.dev'', Version = ''v1'', Kind = ''testGadget''\<rparr>"

definition testWidgetSpec :: "string \<Rightarrow> int \<Rightarrow> json" where
  "testWidgetSpec color sz = JObj [(''color'', JStr color), (''size'', JNum sz)]"

definition testWidgetStatus :: "bool \<Rightarrow> string \<Rightarrow> json" where
  "testWidgetStatus ready phase = JObj [(''ready'', JBool ready), (''phase'', JStr phase)]"

definition emptyMeta :: ObjectMeta where
  "emptyMeta = \<lparr>Name = [], Namespace = [], UID = [], ResourceVersion = [], Generation = 0,
     Labels = fmempty, Annotations = fmempty, ManagedFields = []\<rparr>"

text \<open>The zero value \<open>testWidget{}\<close>: both structs are emitted with their zero fields.\<close>

definition zeroWidget :: object where
  "zeroWidget = \<lparr>GoType = ''storetest.testWidget'', ApiVersion = [], TypeKind = [], Meta = emptyMeta,
     Body = fmap_of_list [(''spec'', testWidgetSpec [] 0), (''status'', testWidgetStatus False [])]\<rparr>"

definition zeroGadget :: object where
  "zeroGadget = \<lparr>GoType = ''storetest.testGadget'', ApiVersion = [], TypeKind = [], Meta = emptyMeta,
     Body = fmempty\<rparr>"

definition zeroWidgetList :: object_list where
  "zeroWidgetList = \<lparr>ListType = ''storetest.testWidgetList'', ListApiVersion = [], ListKind = [],
     ListResourceVersion = [], Items = []\<rparr>"

definition zeroGadgetList :: object_list where
  "zeroGadgetList = \<lparr>ListType = ''storetest.testGadgetList'', ListApiVersion = [], ListKind = [],
     ListResourceVersion = [], Items = []\<rparr>"

definition newTestWidget :: "string \<Rightarrow> string \<Rightarrow> int \<Rightarrow> object" where
  "newTestWidget name color sz =
     zeroWidget\<lparr>ApiVersion := ''widget.storetest.dev/v1'', TypeKind := ''Widget'',
       Meta := emptyMeta\<lparr>Name := name, Namespace := ''default''\<rparr>,
       Body := fmap_of_list [(''spec'', testWidgetSpec color sz), (''status'', testWidgetStatus False [])]\<rparr>"

text \<open>
  Decoding a JSON object into a struct sets the fields that the document has, in the order of the
  struct; \<open>null\<close> leaves the target alone.
\<close>

definition struct_field :: "json option \<Rightarrow> string \<times> json \<Rightarrow> json" where
  "struct_field old fz =
     (case old of
        Some (JObj os) \<Rightarrow> (case map_of os (fst fz) of Some v \<Rightarrow> v | None \<Rightarrow> snd fz)
      | _ \<Rightarrow> snd fz)"

definition decode_struct :: "(string \<times> json) list \<Rightarrow> json \<Rightarrow> json option \<Rightarrow> json" where
  "decode_struct zeros j old =
     (case j of
        JObj fs \<Rightarrow> JObj (map (\<lambda>fz. (fst fz, case map_of fs (fst fz) of Some v \<Rightarrow> v | None \<Rightarrow> struct_field old fz)) zeros)
      | _ \<Rightarrow> JObj (map (\<lambda>fz. (fst fz, struct_field old fz)) zeros))"

fun same_shape :: "json \<Rightarrow> json \<Rightarrow> bool" where
  "same_shape (JStr _) (JStr _) = True"
| "same_shape (JNum _) (JNum _) = True"
| "same_shape (JBool _) (JBool _) = True"
| "same_shape JNull _ = True"
| "same_shape _ _ = False"

definition struct_ok :: "(string \<times> json) list \<Rightarrow> RawMessage option \<Rightarrow> bool" where
  "struct_ok zeros r =
     (case r of
        None \<Rightarrow> True
      | Some (_, JNull) \<Rightarrow> True
      | Some (_, JObj fs) \<Rightarrow>
          list_all (\<lambda>fz. case map_of fs (fst fz) of None \<Rightarrow> True | Some v \<Rightarrow> same_shape v (snd fz)) zeros
      | Some _ \<Rightarrow> False)"

definition specZeros :: "(string \<times> json) list" where
  "specZeros = [(''color'', JStr []), (''size'', JNum 0)]"

definition statusZeros :: "(string \<times> json) list" where
  "statusZeros = [(''ready'', JBool False), (''phase'', JStr [])]"

definition widgetUnmarshal :: "string \<Rightarrow> json \<Rightarrow> json option \<Rightarrow> json" where
  "widgetUnmarshal k j old =
     (if k = ''spec'' then decode_struct specZeros j old
      else if k = ''status'' then decode_struct statusZeros j old else j)"

definition testScheme :: scheme where
  "testScheme =
     \<lparr>sch_ObjectKinds = (\<lambda>ty.
        if ty = ''storetest.testWidget'' then Inr [widgetGVK]
        else if ty = ''storetest.testWidgetList'' then Inr [widgetGVK\<lparr>Kind := ''testWidgetList''\<rparr>]
        else if ty = ''storetest.testGadget'' then Inr [gadgetGVK]
        else if ty = ''storetest.testGadgetList'' then Inr [gadgetGVK\<lparr>Kind := ''testGadgetList''\<rparr>]
        else Inl (Error (''no kind is registered for the type '' @ ty))),
      sch_New = (\<lambda>gvk.
        if gvk = widgetGVK then Inr (RObject zeroWidget)
        else if gvk = widgetGVK\<lparr>Kind := ''testWidgetList''\<rparr> then Inr (RList zeroWidgetList)
        else if gvk = gadgetGVK then Inr (RObject zeroGadget)
        else if gvk = gadgetGVK\<lparr>Kind := ''testGadgetList''\<rparr> then Inr (RList zeroGadgetList)
        else Inl (Error (''no kind is registered for '' @ Kind gvk))),
      sch_itemsField = (\<lambda>ty.
        if ty = ''storetest.testWidgetList'' then ItemsOf ''storetest.testWidget''
        else if ty = ''storetest.testGadgetList'' then ItemsOf ''storetest.testGadget''
        else NoItemsField),
      sch_unmarshal = (\<lambda>ty k j old. if ty = ''storetest.testWidget'' then widgetUnmarshal k j old else j),
      sch_unmarshalErr = (\<lambda>ty b.
        if ty = ''storetest.testWidget'' \<and>
           \<not> (struct_ok specZeros (fmlookup b ''spec'') \<and> struct_ok statusZeros (fmlookup b ''status''))
        then Some (Error ''json: cannot unmarshal'') else None)\<rparr>"

lemma testWidgetSpec_full: "decode_struct specZeros (testWidgetSpec c n) old = testWidgetSpec c n"
  by (simp add: decode_struct_def specZeros_def testWidgetSpec_def)

lemma testWidgetStatus_full: "decode_struct statusZeros (testWidgetStatus r p) old = testWidgetStatus r p"
  by (simp add: decode_struct_def statusZeros_def testWidgetStatus_def)

text \<open>What a value of the Go type \<open>testWidget\<close> looks like.\<close>

definition is_testWidget :: "object \<Rightarrow> bool" where
  "is_testWidget o1 \<longleftrightarrow> GoType o1 = ''storetest.testWidget'' \<and>
     (\<exists>c n r p. Body o1 = fmap_of_list [(''spec'', testWidgetSpec c n), (''status'', testWidgetStatus r p)])"

lemma testWidget_full_doc: "is_testWidget o1 \<Longrightarrow> full_doc testScheme o1"
  by (auto simp: is_testWidget_def full_doc_def testScheme_def widgetUnmarshal_def
      testWidgetSpec_full testWidgetStatus_full fmlookup_of_list split: if_splits)

lemma testWidget_decodable:
  "is_testWidget o1 \<Longrightarrow> decodable testScheme (GoType o1) (fmmap (Pair l) (Body o1))"
  by (auto simp: is_testWidget_def decodable_def testScheme_def struct_ok_def fmlookup_of_list
      specZeros_def statusZeros_def testWidgetSpec_def testWidgetStatus_def)

lemma newTestWidget_is: "is_testWidget (newTestWidget name c n)"
  by (auto simp: is_testWidget_def newTestWidget_def zeroWidget_def)

section \<open>Deep copies\<close>

text \<open>
  \<open>DeepCopyObject\<close> of the suite's types; a nil receiver is \<open>None\<close>. A slice that is nil and an empty
  one are both \<open>[]\<close>.
\<close>

definition copyField :: "string \<Rightarrow> object \<Rightarrow> object \<Rightarrow> object" where
  "copyField k w out =
     out\<lparr>Body := (case fmlookup (Body w) k of Some j \<Rightarrow> fmupd k j (Body out) | None \<Rightarrow> fmdrop k (Body out))\<rparr>"

definition testWidget_DeepCopyObject :: "object option \<Rightarrow> object option" where
  "testWidget_DeepCopyObject r =
     map_option (\<lambda>w. copyField ''status'' w (copyField ''spec'' w (BaseObject_DeepCopyInto w zeroWidget))) r"

definition testWidgetList_DeepCopyObject :: "object_list option \<Rightarrow> object_list option" where
  "testWidgetList_DeepCopyObject r =
     map_option (\<lambda>w. (BaseList_DeepCopyInto w zeroWidgetList)
       \<lparr>Items := map (\<lambda>i. the (testWidget_DeepCopyObject (Some i))) (Items w)\<rparr>) r"

definition testGadget_DeepCopyObject :: "object option \<Rightarrow> object option" where
  "testGadget_DeepCopyObject r = map_option (\<lambda>g. BaseObject_DeepCopyInto g zeroGadget) r"

definition testGadgetList_DeepCopyObject :: "object_list option \<Rightarrow> object_list option" where
  "testGadgetList_DeepCopyObject r =
     map_option (\<lambda>g. (BaseList_DeepCopyInto g zeroGadgetList)
       \<lparr>Items := map (\<lambda>i. the (testGadget_DeepCopyObject (Some i))) (Items g)\<rparr>) r"

text \<open>Of a value of the type, the deep copy is the value.\<close>

lemma testWidget_deep_copy:
  assumes "is_testWidget w"
  shows "testWidget_DeepCopyObject (Some w) = Some w"
proof -
  obtain c n r p where "GoType w = ''storetest.testWidget''"
    and b: "Body w = fmap_of_list [(''spec'', testWidgetSpec c n), (''status'', testWidgetStatus r p)]"
    using assms unfolding is_testWidget_def by blast
  moreover have "fmupd ''status'' (testWidgetStatus r p) (fmupd ''spec'' (testWidgetSpec c n) (Body zeroWidget)) = Body w"
    by (rule fmap_ext) (auto simp: b zeroWidget_def fmlookup_of_list)
  ultimately show ?thesis
    by (simp add: testWidget_DeepCopyObject_def copyField_def BaseObject_DeepCopyInto_def fmlookup_of_list)
      (simp add: zeroWidget_def b)
qed

lemma testGadget_deep_copy:
  "GoType g = ''storetest.testGadget'' \<Longrightarrow> Body g = fmempty \<Longrightarrow> testGadget_DeepCopyObject (Some g) = Some g"
  by (simp add: testGadget_DeepCopyObject_def BaseObject_DeepCopyInto_def zeroGadget_def)

lemma testWidgetList_deep_copy:
  assumes "ListType l = ''storetest.testWidgetList''" and "\<forall>i \<in> set (Items l). is_testWidget i"
  shows "testWidgetList_DeepCopyObject (Some l) = Some l"
proof -
  have "map (\<lambda>i. the (testWidget_DeepCopyObject (Some i))) (Items l) = Items l"
    using assms(2) by (simp add: testWidget_deep_copy map_idI)
  with assms(1) show ?thesis
    by (simp add: testWidgetList_DeepCopyObject_def BaseList_DeepCopyInto_def zeroWidgetList_def)
qed

lemma testGadgetList_deep_copy:
  assumes "ListType l = ''storetest.testGadgetList''"
    and "\<forall>i \<in> set (Items l). GoType i = ''storetest.testGadget'' \<and> Body i = fmempty"
  shows "testGadgetList_DeepCopyObject (Some l) = Some l"
proof -
  have "map (\<lambda>i. the (testGadget_DeepCopyObject (Some i))) (Items l) = Items l"
    using assms(2) by (simp add: testGadget_deep_copy map_idI)
  with assms(1) show ?thesis
    by (simp add: testGadgetList_DeepCopyObject_def BaseList_DeepCopyInto_def zeroGadgetList_def)
qed

end
