(* ===== verification/Memory_Props.thy ===== *)
theory Memory_Props
  imports Memory_Watch Conformance_Types
begin

text \<open>
  What the memory store promises to its clients, on every reachable state and for every
  interleaving of operations: the invariant, resumption and watching without gaps, optimistic
  concurrency, and the exact effect of each method. The witnesses run the store on the objects of
  the conformance suite.
\<close>

section \<open>A concrete store\<close>

definition widget1 :: object where
  "widget1 = newTestWidget ''w1'' ''blue'' 1"

definition empty5 :: MemoryStore where
  "empty5 = mem_NewStore [mem_WithEventLogSize 5]"

lemma empty5_inv: "mem_inv testScheme empty5"
  by (simp add: empty5_def mem_NewStore_inv)

lemma empty5_simps [simp]:
  "revision empty5 = 0" "eventLogMax empty5 = 5" "nextWatcher empty5 = 0" "objects empty5 = Map.empty"
  "mem_view empty5 gvk = Map.empty"
  by (simp_all add: empty5_def mem_NewStore_def mem_WithEventLogSize_def mem_view_def)

lemma gvk_widget [simp]:
  "GoType o1 = ''storetest.testWidget'' \<Longrightarrow> mem_gvkForObject testScheme o1 = Inr widgetGVK"
  "mem_gvkForList testScheme zeroWidgetList = Inr widgetGVK"
  by (simp_all add: mem_gvkForObject_def mem_gvkForList_def testScheme_def zeroWidgetList_def
      widgetGVK_def TrimListSuffix_def HasListSuffix_def)

lemma widget1_simps [simp]: "GoType widget1 = ''storetest.testWidget''" "GetUID widget1 = []"
  "GetResourceVersion widget1 = []" "is_testWidget widget1"
  by (simp_all add: widget1_def newTestWidget_is)
    (simp_all add: newTestWidget_def zeroWidget_def emptyMeta_def)

definition store1 :: MemoryStore where
  "store1 = fst (mem_Create testScheme empty5 widget1)"

definition created1 :: object where
  "created1 = mem_created empty5 widget1"

text \<open>The object as a client sends it back: another colour, and a status that it made up.\<close>

definition red1 :: object where
  "red1 = created1\<lparr>Body := fmap_of_list [(''spec'', testWidgetSpec ''red'' 1), (''status'', testWidgetStatus True ''Ready'')]\<rparr>"

abbreviation key1 :: ObjectKey where
  "key1 \<equiv> ObjectKeyFromObject widget1"

lemma created1_simps [simp]:
  "GoType created1 = ''storetest.testWidget''" "GetResourceVersion created1 = FormatInt 1"
  "ObjectKeyFromObject created1 = key1" "is_testWidget created1" "GetUID created1 = ''uid-1''"
  "GetSpec created1 = Some (testWidgetSpec ''blue'' 1)" "GetGeneration created1 = 1"
  "GetStatus created1 = Some (testWidgetStatus False [])"
  by (simp_all add: created1_def mem_created_def)
    (auto simp: is_testWidget_def widget1_def newTestWidget_def zeroWidget_def mem_newUID_def
      empty5_def mem_NewStore_def mem_WithEventLogSize_def emptyMeta_def add64_exact is_int64_def MinInt64_def
      MaxInt64_def FormatInt_def digits.simps digit_char_def fmlookup_of_list)

lemma red1_simps [simp]:
  "GoType red1 = ''storetest.testWidget''" "GetResourceVersion red1 = FormatInt 1" "Meta red1 = Meta created1"
  "ObjectKeyFromObject red1 = key1" "is_testWidget red1" "GetSpec red1 = Some (testWidgetSpec ''red'' 1)"
  "GetStatus red1 = Some (testWidgetStatus True ''Ready'')"
  using created1_simps(3) by (auto simp: red1_def is_testWidget_def fmlookup_of_list ObjectKeyFromObject_def)

lemma store1: "mem_inv testScheme store1" "revision store1 = 1" "mem_view store1 widgetGVK key1 = Some created1"
  "mem_view store1 widgetGVK = [key1 \<mapsto> created1]" "mem_view store1 = (\<lambda>_. Map.empty)(widgetGVK := [key1 \<mapsto> created1])"
proof -
  obtain s' where "mem_Create testScheme empty5 widget1 =
      mem_copyBack testScheme s' (mem_created empty5 widget1) (mem_created empty5 widget1)"
    "mem_inv testScheme s'"
    "mem_commit empty5 s' widgetGVK \<lparr>ev_Type = EventAdded, ev_Object = mem_created empty5 widget1\<rparr>"
    by (rule mem_Create_commit [OF empty5_inv, of widget1 widgetGVK]) (simp_all add: MaxInt64_def)
  then show "mem_inv testScheme store1" "revision store1 = 1" "mem_view store1 widgetGVK key1 = Some created1"
      "mem_view store1 widgetGVK = [key1 \<mapsto> created1]" "mem_view store1 = (\<lambda>_. Map.empty)(widgetGVK := [key1 \<mapsto> created1])"
    by (simp_all add: store1_def created1_def mem_commit_def apply_event_cases fun_eq_iff)
qed

lemma store1_bound: "revision store1 < MaxInt64" "revision store1 + 1 \<le> MaxInt64"
  by (simp_all add: store1(2) MaxInt64_def)

lemma widget_merge_decodable:
  assumes "is_testWidget a" and "is_testWidget b"
  shows "decodable testScheme (GoType b) (rm_Body (mem_mergeSpec (marshal Compact a) (marshal Compact b)))"
    and "decodable testScheme (GoType b) (rm_Body (mem_mergeStatus (marshal Compact a) (marshal Compact b)))"
  using assms
  by (auto simp: is_testWidget_def decodable_def testScheme_def struct_ok_def fmlookup_of_list mem_mergeSpec_def
      mem_mergeStatus_def specZeros_def statusZeros_def testWidgetSpec_def testWidgetStatus_def)

text \<open>The object with a label more.\<close>

definition labelled1 :: object where
  "labelled1 = created1\<lparr>Meta := (Meta created1)\<lparr>Labels := fmap_of_list [(''tier'', ''a'')]\<rparr>\<rparr>"

lemma labelled1_simps [simp]:
  "GoType labelled1 = ''storetest.testWidget''" "is_testWidget labelled1" "ObjectKeyFromObject labelled1 = key1"
  "GetResourceVersion labelled1 = FormatInt 1" "GetSpec labelled1 = GetSpec created1" "GetLabels created1 = fmempty"
  "fmlookup (GetLabels labelled1) ''tier'' = Some ''a''" "GetLabels labelled1 \<noteq> GetLabels created1"
  "GetLabels labelled1 \<noteq> fmempty"
proof -
  show "is_testWidget labelled1" using created1_simps(4) by (simp add: labelled1_def is_testWidget_def)
  show "ObjectKeyFromObject labelled1 = key1" using created1_simps(3) by (simp add: labelled1_def ObjectKeyFromObject_def)
  show "GetLabels created1 = fmempty"
    by (simp add: created1_def mem_created_def widget1_def newTestWidget_def zeroWidget_def emptyMeta_def setter_defs)
  then show "GetLabels labelled1 \<noteq> GetLabels created1"
    by (simp add: labelled1_def)
qed (simp_all add: labelled1_def fmlookup_of_list)

lemmas update_witness =
  store1(1) store1_bound(1) gvk_widget(1) [OF red1_simps(1)] store1(3) [folded red1_simps(4)]
  trans [OF red1_simps(2) created1_simps(2) [symmetric]]
  testWidget_full_doc [OF red1_simps(5)] testWidget_full_doc [OF created1_simps(4)]
  trans [OF created1_simps(1) red1_simps(1) [symmetric]]

section \<open>The invariant\<close>

text \<open>
  C1. In every state the store reaches from \<open>NewStore\<close>, whatever clients do: the revision is a
  non-negative 64-bit number; the event log is a gapless run of revisions that ends at the current
  one and is never longer than its bound; every stored object sits under its own key and kind and
  carries a positive resource version that does not exceed the revision; every registered watcher
  is registered once, under its own kind, and no channel holds more than its capacity.
\<close>

theorem mem_store_invariant:
  assumes "mem_reachable sch n s" and "0 \<le> n"
  shows "0 \<le> revision s \<and> revision s \<le> MaxInt64 \<and>
    map le_revision (eventLog s) = [revision s - int (length (eventLog s)) + 1 .. revision s] \<and>
    int (length (eventLog s)) \<le> eventLogMax s \<and>
    (\<forall>gvk k o1. mem_view s gvk k = Some o1 \<longrightarrow>
       ObjectKeyFromObject o1 = k \<and> mem_gvkForObject sch o1 = Inr gvk \<and>
       (\<exists>r. 0 < r \<and> r \<le> revision s \<and> GetResourceVersion o1 = FormatInt r)) \<and>
    (\<forall>gvk. distinct (watchers s gvk) \<and> (\<forall>i \<in> set (watchers s gvk). w_gvk (wheap s i) = gvk)) \<and>
    (\<forall>i. length (w_ch (wheap s i)) \<le> w_cap (wheap s i))"
proof -
  have inv: "mem_inv sch s" using assms by (rule mem_reachable_inv)
  then have "mem_obj_ok sch (revision s) gvk k o1" if "mem_view s gvk k = Some o1" for gvk k o1
    using that by (rule mem_view_Some)
  with inv show ?thesis
    by (auto simp: mem_inv_def mem_log_ok_def contiguous_def mem_watchers_ok_def mem_obj_ok_def)
qed

text \<open>Witness of C1: the store after one \<open>Create\<close>.\<close>

theorem mem_store_invariant_witness:
  "0 \<le> revision (mem_exec testScheme (OpCreate widget1) (mem_NewStore [mem_WithEventLogSize 5]))"
proof -
  have "mem_step testScheme (mem_NewStore [mem_WithEventLogSize 5])
      (mem_exec testScheme (OpCreate widget1) (mem_NewStore [mem_WithEventLogSize 5]))"
    by (rule mem_step.step) (simp add: mem_NewStore_def mem_WithEventLogSize_def MaxInt64_def)
  then have "mem_reachable testScheme 5
      (mem_exec testScheme (OpCreate widget1) (mem_NewStore [mem_WithEventLogSize 5]))"
    by (rule mem_reachable.more [OF mem_reachable.init])
  from mem_store_invariant [OF this] show ?thesis by simp
qed

section \<open>Resumption\<close>

text \<open>
  C2. Take any state \<open>t\<close> and any run \<open>ops\<close> from it. If at most \<open>eventLogMax\<close> revisions were committed
  since, \<open>eventsSince\<close> at the revision of \<open>t\<close> returns events that turn the view a client had at \<open>t\<close>
  into the store's present view; otherwise it reports \<open>RevisionTooOldError\<close>, never a partial replay.
\<close>

theorem mem_resume_complete:
  assumes "mem_inv sch t" and "revision t + int (length ops) \<le> MaxInt64"
    and "s = mem_execs sch ops t"
  shows "if revision s - revision t \<le> eventLogMax t
    then \<exists>es. mem_eventsSince s (revision t) gvk = Inr es \<and>
              apply_events es (mem_view t gvk) = mem_view s gvk
    else \<exists>oldest. mem_eventsSince s (revision t) gvk = Inl (RevisionTooOldError (revision t) oldest)"
proof -
  obtain h where "mem_inv sch s" and h: "mem_extends t h s"
    using mem_run_history [OF assms(1,2)] assms(3) by blast
  from mem_extends_since [OF this(1) assms(1) h] h show ?thesis
    by (auto simp: mem_extends_def)
qed

text \<open>Witness of C2: resuming from the empty store after one \<open>Create\<close>.\<close>

theorem mem_resume_complete_witness:
  "let s = mem_execs testScheme [OpCreate widget1] empty5 in
   if revision s - revision empty5 \<le> eventLogMax empty5
   then \<exists>es. mem_eventsSince s (revision empty5) widgetGVK = Inr es \<and>
             apply_events es (mem_view empty5 widgetGVK) = mem_view s widgetGVK
   else \<exists>oldest. mem_eventsSince s (revision empty5) widgetGVK = Inl (RevisionTooOldError (revision empty5) oldest)"
  unfolding Let_def
  by (rule mem_resume_complete [OF empty5_inv _ refl]) (simp add: MaxInt64_def)

section \<open>Watching\<close>



section \<open>Optimistic concurrency\<close>

lemma apply_events_provenance:
  "apply_events es m k = m k \<or> apply_events es m k = None \<or>
   (\<exists>e \<in> set es. apply_events es m k = Some (ev_Object e))"
proof (induction es arbitrary: m)
  case Nil
  then show ?case by simp
next
  case (Cons e es)
  have "apply_event e m k = m k \<or> apply_event e m k = None \<or> apply_event e m k = Some (ev_Object e)"
    by (simp add: apply_event.simps split: EventType.split)
  with Cons [of "apply_event e m"] show ?case by auto
qed

lemma set_events_for: "e \<in> set (events_for gvk h) \<Longrightarrow> \<exists>en \<in> set h. e = le_event en"
  by (auto simp: events_for_def)

text \<open>An object that changed since \<open>t\<close> carries a resource version that no object had at \<open>t\<close>.\<close>

lemma mem_changed_rv:
  assumes "mem_inv sch t" and "mem_inv sch s" and h: "mem_extends t h s"
    and old: "mem_view t gvk k = Some old" and new: "mem_view s gvk k = Some new" and "new \<noteq> old"
  shows "GetResourceVersion new \<noteq> GetResourceVersion old"
proof -
  from h have v: "mem_view s gvk = apply_events (events_for gvk h) (mem_view t gvk)"
    and con: "contiguous (eventLog t @ h) (revision s)" and rev: "revision s = revision t + int (length h)"
    and rvs: "\<forall>en \<in> set h. GetResourceVersion (ev_Object (le_event en)) = FormatInt (le_revision en)"
    unfolding mem_extends_def by blast+
  then obtain e where "e \<in> set (events_for gvk h)" "new = ev_Object e"
    using apply_events_provenance [of "events_for gvk h" "mem_view t gvk" k] old new \<open>new \<noteq> old\<close> by auto
  then obtain en where en: "en \<in> set h" "new = ev_Object (le_event en)"
    by (auto dest: set_events_for)
  have "contiguous h (revision s)"
    using contiguous_drop [OF con, of "length (eventLog t)"] by simp
  then have later: "revision t < le_revision en" "le_revision en \<le> revision s"
    using contiguous_bounds [of h "revision s" en] en(1) rev by auto
  have "mem_obj_ok sch (revision t) gvk k old" using assms(1) old by (rule mem_view_Some)
  then obtain r where r: "0 < r" "r \<le> revision t" "GetResourceVersion old = FormatInt r"
    by (auto simp: mem_obj_ok_def)
  have "is_int64 r" "is_int64 (le_revision en)"
    using r later mem_revision_bounds [OF assms(2)] rev by (auto simp: is_int64_def MinInt64_def)
  then show ?thesis
    using FormatInt_inject [of "le_revision en" r] rvs en r later by auto
qed

text \<open>
  C4. No lost update: if the object that a client read at \<open>t\<close> has since been changed or deleted by
  anyone, then an \<open>Update\<close>, an \<open>UpdateStatus\<close> and a \<open>Delete\<close> that carry the resource version it read
  are refused (conflict, or not found) and leave the store exactly as it is.
\<close>

theorem mem_no_lost_update:
  assumes "mem_inv sch t" and "revision t + int (length ops) \<le> MaxInt64" and "s = mem_execs sch ops t"
    and "mem_gvkForObject sch obj = Inr gvk" and "key = ObjectKeyFromObject obj"
    and "mem_view t gvk key = Some old" and "GetResourceVersion obj = GetResourceVersion old"
    and "mem_view s gvk key \<noteq> Some old"
  shows "\<exists>err. (err = NotFoundError (ObjectKey_String key) \<or> err = ConflictError (ObjectKey_String key)) \<and>
    mem_Update sch s obj = (s, obj, Some err) \<and> mem_UpdateStatus sch s obj = (s, obj, Some err) \<and>
    mem_Delete sch s obj = (s, Some err)"
proof (cases "mem_view s gvk key")
  case None
  with mem_write_not_found [OF assms(4)] assms(5) show ?thesis by auto
next
  case (Some new)
  obtain h where h: "mem_inv sch s" "mem_extends t h s"
    using mem_run_history [OF assms(1,2)] assms(3) by blast
  have "GetResourceVersion new \<noteq> GetResourceVersion old"
    using assms(1) h assms(6) Some assms(8) Some by (intro mem_changed_rv [of sch t s h gvk key]) auto
  moreover have "GetResourceVersion old \<noteq> []"
  proof -
    have "mem_obj_ok sch (revision t) gvk key old" using assms(1,6) by (rule mem_view_Some)
    then show ?thesis by (auto simp: mem_obj_ok_def)
  qed
  ultimately show ?thesis
    using mem_write_conflict [OF assms(4), of s new] assms(5,7) Some by auto
qed

text \<open>Witness of C4: the object is deleted after it was read.\<close>

theorem mem_no_lost_update_witness:
  "let s = mem_execs testScheme [OpDelete red1] store1 in
   \<exists>err. (err = NotFoundError (ObjectKey_String key1) \<or> err = ConflictError (ObjectKey_String key1)) \<and>
     mem_Update testScheme s red1 = (s, red1, Some err) \<and> mem_UpdateStatus testScheme s red1 = (s, red1, Some err) \<and>
     mem_Delete testScheme s red1 = (s, Some err)"
proof -
  obtain s' where "mem_Delete testScheme store1 red1 = (s', None)"
      "mem_commit store1 s' widgetGVK
         \<lparr>ev_Type = EventDeleted, ev_Object = SetResourceVersion (FormatInt (revision store1 + 1)) created1\<rparr>"
    using update_witness(1-4) by (rule mem_Delete_commit) simp
  then have "mem_view (mem_execs testScheme [OpDelete red1] store1) widgetGVK key1 = None"
    by (simp add: mem_commit_def apply_event_cases)
  then show ?thesis
    unfolding Let_def
    by (intro mem_no_lost_update [OF store1(1) _ refl update_witness(3), of _ key1 created1])
      (simp_all add: store1 MaxInt64_def)
qed

section \<open>Updates\<close>

lemma mem_contentEqual_iff:
  "mem_contentEqual stored m \<longleftrightarrow>
   marshal Compact stored =
     marshal Compact (SetUID (GetUID stored) (SetResourceVersion (GetResourceVersion stored) m))"
  by (simp add: mem_contentEqual_def Let_def)

lemma mem_contentEqual_fields:
  "mem_contentEqual stored m \<longleftrightarrow>
   ApiVersion m = ApiVersion stored \<and> TypeKind m = TypeKind stored \<and> Body m = Body stored \<and>
   (Meta m)\<lparr>ResourceVersion := GetResourceVersion stored, UID := GetUID stored\<rparr> = Meta stored"
  by (auto simp: mem_contentEqual_iff marshal_def setter_defs dest: fmmap_Pair_inject)

lemma mem_contentEqual_merged:
  assumes "GetResourceVersion m = GetResourceVersion stored" and "GetUID m = GetUID stored"
  shows "mem_contentEqual stored m \<longleftrightarrow>
    ApiVersion m = ApiVersion stored \<and> TypeKind m = TypeKind stored \<and> Body m = Body stored \<and> Meta m = Meta stored"
proof -
  have "(Meta m)\<lparr>ResourceVersion := GetResourceVersion stored, UID := GetUID stored\<rparr> = Meta m"
    unfolding assms [symmetric] by simp
  then show ?thesis by (simp add: mem_contentEqual_fields)
qed

lemma mem_commit_not_same: "mem_commit s s' gvk e \<Longrightarrow> s' \<noteq> s"
  by (auto simp: mem_commit_def)

lemma mem_commit_put:
  assumes "mem_commit s s' gvk \<lparr>ev_Type = EventModified, ev_Object = new\<rparr>"
  shows "revision s' = revision s + 1" "GetResourceVersion new = FormatInt (revision s')"
    "mem_view s' = (mem_view s)(gvk := (mem_view s gvk)(ObjectKeyFromObject new \<mapsto> new))"
  using assms by (auto simp: mem_commit_def apply_event_cases)

lemma view_upd_same:
  "mem_view s gvk k = Some o1 \<Longrightarrow> (mem_view s)(gvk := (mem_view s gvk)(k \<mapsto> o1)) = mem_view s"
  by (simp add: fun_upd_idem)

lemma labelled1_commit:
  assumes "mem_inv testScheme s" and "revision s < MaxInt64" and "mem_view s widgetGVK key1 = Some created1"
  obtains new where "mem_commit s (fst (mem_Update testScheme s labelled1)) widgetGVK \<lparr>ev_Type = EventModified, ev_Object = new\<rparr>"
    and "ObjectKeyFromObject new = key1" and "GetLabels new = GetLabels labelled1"
proof -
  have v: "mem_view s widgetGVK (ObjectKeyFromObject labelled1) = Some created1" using assms(3) by simp
  obtain m where m: "mem_mergedSpec testScheme created1 labelled1 = Inr m"
      "Meta m = (Meta labelled1)\<lparr>ResourceVersion := GetResourceVersion created1, UID := GetUID created1\<rparr>"
    by (rule mem_mergedSpec_full [OF testWidget_full_doc testWidget_full_doc _
          widget_merge_decodable(1) [OF created1_simps(4) labelled1_simps(2)]]) simp_all
  have "GetLabels m = GetLabels labelled1" "ObjectKeyFromObject m = key1"
    using labelled1_simps(3) by (simp_all add: m(2) ObjectKeyFromObject_def)
  moreover from this have "\<not> mem_contentEqual created1 m"
    unfolding mem_contentEqual_fields by (metis ObjectMeta.ext_inject ObjectMeta.surjective ObjectMeta.update_convs(3,4) labelled1_simps(8))
  then obtain s' where "mem_Update testScheme s labelled1 = mem_copyBack testScheme s' (mem_updated s created1 labelled1 m) labelled1"
      "mem_commit s s' widgetGVK \<lparr>ev_Type = EventModified, ev_Object = mem_updated s created1 labelled1 m\<rparr>"
    using mem_Update_eq(2) [OF assms(1,2) gvk_widget(1) v _ m(1)] by auto
  ultimately show thesis
    by (intro that [of "mem_updated s created1 labelled1 m"]) (simp_all add: mem_copyBack_state mem_updated_def)
qed



text \<open>
  C6. \<open>Update\<close> is suppressed exactly when nothing that it would write differs: same type metadata,
  same object metadata up to the UID (the generation of the input included), same fields other than
  the status, and no status smuggled in where the stored object has none.
\<close>

theorem mem_update_noop_iff:
  assumes "mem_inv sch s" and "revision s < MaxInt64"
    and "mem_gvkForObject sch obj = Inr gvk" and "mem_view s gvk (ObjectKeyFromObject obj) = Some stored"
    and "GetResourceVersion obj = GetResourceVersion stored"
    and "full_doc sch obj" and "full_doc sch stored" and "GoType stored = GoType obj"
    and "decodable sch (GoType obj) (rm_Body (mem_mergeSpec (marshal Compact stored) (marshal Compact obj)))"
  shows "fst (mem_Update sch s obj) = s \<longleftrightarrow>
    ApiVersion obj = ApiVersion stored \<and> TypeKind obj = TypeKind stored \<and>
    (Meta obj)\<lparr>UID := GetUID stored\<rparr> = Meta stored \<and>
    (\<forall>k. k \<noteq> ''status'' \<longrightarrow> fmlookup (Body obj) k = fmlookup (Body stored) k) \<and>
    (GetStatus stored = None \<longrightarrow> GetStatus obj = None)"
proof -
  obtain m where m: "mem_mergedSpec sch stored obj = Inr m"
      "Meta m = (Meta obj)\<lparr>ResourceVersion := GetResourceVersion stored, UID := GetUID stored\<rparr>"
      "ApiVersion m = ApiVersion obj" "TypeKind m = TypeKind obj"
      "\<forall>k. fmlookup (Body m) k =
        (if k = ''status'' \<and> GetStatus stored \<noteq> None then GetStatus stored else fmlookup (Body obj) k)"
    using assms(6-9) by (rule mem_mergedSpec_full)
  have "Body m = Body stored \<longleftrightarrow> (\<forall>k. fmlookup (Body m) k = fmlookup (Body stored) k)"
    by (metis fmap_ext)
  also have "\<dots> \<longleftrightarrow> (\<forall>k. k \<noteq> ''status'' \<longrightarrow> fmlookup (Body obj) k = fmlookup (Body stored) k) \<and>
      (GetStatus stored = None \<longrightarrow> GetStatus obj = None)"
    by (auto simp: m(5)) metis
  finally have body: "Body m = Body stored \<longleftrightarrow> \<dots>" .
  have meta: "Meta m = (Meta obj)\<lparr>UID := GetUID stored\<rparr>"
    unfolding m(2) assms(5) [symmetric] by simp
  have mf: "GetResourceVersion m = GetResourceVersion stored" "GetUID m = GetUID stored"
    by (simp_all add: m(2))
  have c: "mem_contentEqual stored m \<longleftrightarrow> ApiVersion obj = ApiVersion stored \<and> TypeKind obj = TypeKind stored \<and>
      (Meta obj)\<lparr>UID := GetUID stored\<rparr> = Meta stored \<and> Body m = Body stored"
    unfolding mem_contentEqual_merged [OF mf] meta m(3,4) by blast
  have u: "fst (mem_Update sch s obj) = s \<longleftrightarrow> mem_contentEqual stored m"
    using mem_Update_eq [OF assms(1-5) m(1)] mem_commit_not_same by (cases "mem_contentEqual stored m") auto
  show ?thesis unfolding u c body by (rule refl)
qed

text \<open>Witness of C6: recolouring is not suppressed.\<close>

theorem mem_update_noop_iff_witness: "fst (mem_Update testScheme store1 red1) \<noteq> store1"
proof
  assume "fst (mem_Update testScheme store1 red1) = store1"
  then have "\<forall>k. k \<noteq> ''status'' \<longrightarrow> fmlookup (Body red1) k = fmlookup (Body created1) k"
    using mem_update_noop_iff [OF update_witness widget_merge_decodable(1) [OF created1_simps(4) red1_simps(5)]]
    by blast
  then have "''spec'' \<noteq> ''status'' \<longrightarrow> GetSpec red1 = GetSpec created1" by (rule spec)
  then have "GetSpec red1 = GetSpec created1" by simp
  then show False unfolding created1_simps(6) red1_simps(6) by (simp add: testWidgetSpec_def)
qed



section \<open>Create, Get, List and Delete\<close>

lemma meta_into_empty [simp]: "meta_into m emptyMeta = m"
  by (simp add: meta_into_def emptyMeta_def)

lemma unmarshalInto_fresh:
  assumes "full_doc sch src" and "decodable sch (GoType src) (fmmap (Pair l) (Body src))"
    and "GoType dst = GoType src" and "Meta dst = emptyMeta" and "ApiVersion dst = []" and "TypeKind dst = []"
    and "fset (fmdom (Body dst)) \<subseteq> fset (fmdom (Body src))"
  shows "unmarshalInto sch (marshal l src) dst = Inr src"
proof -
  obtain o1 where o1: "unmarshalInto sch (marshal l src) dst = Inr o1"
    using unmarshalInto_decodable [of sch dst "marshal l src"] assms(2,3) by auto
  have "Body o1 = Body src" using assms(1,3,7) o1 by (rule unmarshalInto_full_body)
  moreover have "GoType o1 = GoType src" "Meta o1 = Meta src" "ApiVersion o1 = ApiVersion src" "TypeKind o1 = TypeKind src"
    using o1 assms(3-6) by (auto simp: unmarshalInto_def split: option.splits)
  ultimately show ?thesis using o1 by simp
qed

lemma mem_Get_view:
  assumes "mem_gvkForObject sch obj = Inr gvk"
  shows "mem_Get sch s key obj =
    (case mem_view s gvk key of
       None \<Rightarrow> (obj, Some (NotFoundError (ObjectKey_String key)))
     | Some stored \<Rightarrow> snd (mem_copyBack sch s stored obj))"
  using assms by (simp add: mem_Get_def mem_view_def split: option.split)

lemma full_doc_same: "Body a = Body b \<Longrightarrow> GoType a = GoType b \<Longrightarrow> full_doc sch a = full_doc sch b"
  by (simp add: full_doc_def)

text \<open>
  C8. Round trip: creating an object whose key is free succeeds, hands the caller an object with a
  UID, generation 1 and the next revision as its resource version, changes nothing but that key,
  and a \<open>Get\<close> of the key into a zero value then returns that very object.
\<close>

theorem mem_create_then_get:
  assumes "mem_inv sch s" and "revision s < MaxInt64" and "mem_gvkForObject sch obj = Inr gvk"
    and "key = ObjectKeyFromObject obj" and "mem_view s gvk key = None"
    and "full_doc sch obj" and "decodable sch (GoType obj) (fmmap (Pair Compact) (Body obj))"
    and "GoType dst = GoType obj" and "Meta dst = emptyMeta" and "ApiVersion dst = []" and "TypeKind dst = []"
    and "fset (fmdom (Body dst)) \<subseteq> fset (fmdom (Body obj))"
    and "mem_Create sch s obj = (s', out, err)"
  shows "err = None \<and> GetUID out \<noteq> [] \<and> (GetUID obj \<noteq> [] \<longrightarrow> GetUID out = GetUID obj) \<and>
    GetGeneration out = 1 \<and> Body out = Body obj \<and>
    revision s' = revision s + 1 \<and> GetResourceVersion out = FormatInt (revision s') \<and>
    mem_view s' = (mem_view s)(gvk := (mem_view s gvk)(key \<mapsto> out)) \<and>
    mem_Get sch s' key dst = (out, None)"
proof -
  let ?o = "mem_created s obj"
  have full: "full_doc sch ?o" "decodable sch (GoType ?o) (fmmap (Pair Compact) (Body ?o))"
    using assms(6,7) full_doc_same [of ?o obj sch] by simp_all
  obtain t where t: "mem_Create sch s obj = mem_copyBack sch t ?o ?o" "mem_inv sch t"
      "mem_commit s t gvk \<lparr>ev_Type = EventAdded, ev_Object = ?o\<rparr>"
    by (rule mem_Create_commit [OF assms(1-3)]) (use assms(4,5) in auto)
  have "mem_copyBack sch t ?o ?o = (t, ?o, None)"
    using unmarshalInto_marshal_self [OF full] by (simp add: mem_copyBack_def mem_copyObject_def)
  with t(1) assms(13) have r: "s' = t" "out = ?o" "err = None" by auto
  have view: "mem_view t = (mem_view s)(gvk := (mem_view s gvk)(key \<mapsto> ?o))" and rev: "revision t = revision s + 1"
    using t(3) assms(4) by (auto simp: mem_commit_def apply_event_cases)
  have "mem_gvkForObject sch dst = Inr gvk"
    using assms(3,8) mem_gvkForObject_GoType by metis
  moreover have "unmarshalInto sch (marshal Compact ?o) dst = Inr ?o"
    using assms(8-12) by (intro unmarshalInto_fresh [OF full]) simp_all
  ultimately have "mem_Get sch t key dst = (?o, None)"
    by (simp add: mem_Get_view view mem_copyBack_def mem_copyObject_def)
  with r view rev show ?thesis by (simp add: mem_newUID_def)
qed

text \<open>Witness of C8: a widget is created in the empty store and read back.\<close>

theorem mem_create_then_get_witness:
  "\<exists>s' out err. mem_Create testScheme empty5 widget1 = (s', out, err) \<and> err = None \<and>
     revision s' = 1 \<and> GetResourceVersion out = ''1'' \<and> mem_Get testScheme s' key1 zeroWidget = (out, None)"
proof -
  obtain s' out err where c: "mem_Create testScheme empty5 widget1 = (s', out, err)"
    by (rule prod_cases3)
  have dom: "fset (fmdom (Body zeroWidget)) \<subseteq> fset (fmdom (Body widget1))"
    by (simp add: zeroWidget_def widget1_def newTestWidget_def)
  have "err = None \<and> revision s' = revision empty5 + 1 \<and> GetResourceVersion out = FormatInt (revision s') \<and>
      mem_Get testScheme s' key1 zeroWidget = (out, None)"
    using mem_create_then_get [OF empty5_inv _ gvk_widget(1) [OF widget1_simps(1)] refl _
        testWidget_full_doc [OF widget1_simps(4)] testWidget_decodable [OF widget1_simps(4)] _ _ _ _ dom c]
    by (simp add: MaxInt64_def zeroWidget_def)
  with c show ?thesis by (auto simp: FormatInt_def digits.simps digit_char_def)
qed

lemma mem_list_items:
  assumes "mem_inv sch s" and "mem_gvkForList sch lst = Inr gvk" and "sch_itemsField sch (ListType lst) = ItemsOf ty"
    and "\<forall>k o1. mem_view s gvk k = Some o1 \<longrightarrow> GoType o1 = ty" and "lo = applyListOptions opts"
  shows "\<exists>out. mem_List sch s lst opts = (out, None) \<and>
    ParseInt (ListResourceVersion out) = (revision s, None) \<and> distinct (map ObjectKeyFromObject (Items out)) \<and>
    set (Items out) = {o1. \<exists>k. mem_view s gvk k = Some o1 \<and>
       (lo_Namespace lo \<noteq> [] \<longrightarrow> key_Namespace k = lo_Namespace lo) \<and>
       (case lo_LabelSelector lo of None \<Rightarrow> True | Some sel \<Rightarrow> sel_Matches sel (GetLabels o1))}"
proof -
  define m where "m = (case objects s gvk of None \<Rightarrow> [] | Some m \<Rightarrow> m)"
  define fm where "fm = filter (\<lambda>(key, obj). mem_listMatches lo key obj) m"
  have view: "mem_view s gvk = map_of m"
    by (simp add: mem_view_def m_def split: option.split)
  have ok: "mem_map_ok sch (revision s) gvk m"
    using assms(1) by (auto simp: mem_inv_def m_def split: option.split)
  then have d: "distinct (map fst m)" and keys: "\<forall>(k, o1) \<in> set m. ObjectKeyFromObject o1 = k"
    by (auto simp: mem_map_ok_def mem_obj_ok_def)
  have in_m: "(k, o1) \<in> set m \<longleftrightarrow> mem_view s gvk k = Some o1" for k o1
    unfolding view by (rule set_map_of [OF d])
  have sel: "o1 \<in> set (map snd fm) \<longleftrightarrow> (\<exists>k. (k, o1) \<in> set m \<and> mem_listMatches lo k o1)" for o1
    by (force simp: fm_def)
  have "list_all (\<lambda>i. GoType i = ty) (map snd fm)"
    using assms(4) by (auto simp: list_all_iff fm_def in_m)
  then have "mem_List sch s lst opts =
      (lst\<lparr>ListResourceVersion := FormatInt (revision s), Items := map snd fm\<rparr>, None)"
    using assms(2,3)
    by (simp add: mem_List_def m_def [symmetric] fm_def assms(5) mem_populateListItems_def Let_def)
  moreover have "map ObjectKeyFromObject (map snd fm) = map fst fm"
    using keys by (auto simp: fm_def)
  moreover have "distinct (map fst fm)"
    using d by (simp add: fm_def distinct_map_filter)
  moreover have "set (map snd fm) = {o1. \<exists>k. mem_view s gvk k = Some o1 \<and>
       (lo_Namespace lo \<noteq> [] \<longrightarrow> key_Namespace k = lo_Namespace lo) \<and>
       (case lo_LabelSelector lo of None \<Rightarrow> True | Some sel \<Rightarrow> sel_Matches sel (GetLabels o1))}"
    unfolding set_eq_iff sel mem_Collect_eq in_m by (simp add: mem_listMatches_def) blast
  moreover have "is_int64 (revision s)"
    using mem_revision_bounds [OF assms(1)] by (simp add: is_int64_def MinInt64_def)
  ultimately show ?thesis
    by (intro exI [of _ "lst\<lparr>ListResourceVersion := FormatInt (revision s), Items := map snd fm\<rparr>"])
      (simp del: map_map set_map)
qed

text \<open>
  C9. \<open>List\<close> returns a snapshot: exactly the stored objects of the kind that pass the namespace and
  label filters, each once, with a list resource version that parses back to the store's revision,
  the point from which a watch misses nothing.
\<close>

theorem mem_list_snapshot:
  assumes "mem_inv sch s" and "mem_gvkForList sch lst = Inr gvk" and "sch_itemsField sch (ListType lst) = ItemsOf ty"
    and "\<forall>k o1. mem_view s gvk k = Some o1 \<longrightarrow> GoType o1 = ty" and "lo = applyListOptions opts"
  shows "\<exists>out. mem_List sch s lst opts = (out, None) \<and>
    ParseInt (ListResourceVersion out) = (revision s, None) \<and> distinct (map ObjectKeyFromObject (Items out)) \<and>
    set (Items out) = {o1. \<exists>k. mem_view s gvk k = Some o1 \<and>
       (lo_Namespace lo \<noteq> [] \<longrightarrow> key_Namespace k = lo_Namespace lo) \<and>
       (case lo_LabelSelector lo of None \<Rightarrow> True | Some sel \<Rightarrow> sel_Matches sel (GetLabels o1))}"
  using assms by (rule mem_list_items)

text \<open>Witness of C9: listing the store that holds one widget.\<close>

theorem mem_list_snapshot_witness:
  "\<exists>out. mem_List testScheme store1 zeroWidgetList [] = (out, None) \<and>
     ParseInt (ListResourceVersion out) = (1, None) \<and> set (Items out) = {created1}"
proof -
  have "sch_itemsField testScheme (ListType zeroWidgetList) = ItemsOf ''storetest.testWidget''"
    by (simp add: testScheme_def zeroWidgetList_def)
  moreover have "\<forall>k o1. mem_view store1 widgetGVK k = Some o1 \<longrightarrow> GoType o1 = ''storetest.testWidget''"
    by (simp add: store1(4))
  ultimately show ?thesis
    using mem_list_snapshot [OF store1(1) gvk_widget(2) _ _ refl, of "''storetest.testWidget''" "[]"]
    by (auto simp: store1 applyListOptions_def emptyListOptions_def)
qed

text \<open>
  C10. \<open>Delete\<close>, unconditional or with the current resource version, removes exactly that object and
  publishes one \<open>DELETED\<close> event that carries the object's last state under the new revision: it is the
  last entry of the log (unless the log has size 0), and an open watcher of the kind with room in
  its channel has it as its last buffered event.
\<close>

theorem mem_delete_publishes:
  assumes "mem_inv sch s" and "revision s < MaxInt64" and "mem_gvkForObject sch obj = Inr gvk"
    and "key = ObjectKeyFromObject obj" and "mem_view s gvk key = Some stored"
    and "GetResourceVersion obj = [] \<or> GetResourceVersion obj = GetResourceVersion stored"
    and "e = \<lparr>ev_Type = EventDeleted, ev_Object = SetResourceVersion (FormatInt (revision s + 1)) stored\<rparr>"
  shows "\<exists>s'. mem_Delete sch s obj = (s', None) \<and> revision s' = revision s + 1 \<and>
    mem_view s' = (mem_view s)(gvk := (mem_view s gvk)(key := None)) \<and>
    (0 < eventLogMax s \<longrightarrow> last (eventLog s') = \<lparr>le_revision = revision s + 1, le_gvk = gvk, le_event = e\<rparr>) \<and>
    (\<forall>i \<in> set (watchers s gvk). \<not> w_closed (wheap s i) \<longrightarrow> length (w_ch (wheap s i)) < w_cap (wheap s i) \<longrightarrow>
       w_ch (wheap s' i) = w_ch (wheap s i) @ [e] \<and> i \<in> set (watchers s' gvk))"
proof -
  obtain s' where s': "mem_Delete sch s obj = (s', None)" "mem_commit s s' gvk e"
    unfolding assms(7) by (rule mem_Delete_commit [OF assms(1-3)]) (use assms(4-6) in auto)
  have "mem_obj_ok sch (revision s) gvk key stored" using assms(1,5) by (rule mem_view_Some)
  then have "ObjectKeyFromObject (ev_Object e) = key" by (simp add: assms(7) mem_obj_ok_def)
  with s' show ?thesis
    by (intro exI [of _ s']) (auto simp: mem_commit_def assms(7) apply_event_cases last_n_def memw_send_cases)
qed

text \<open>Witness of C10: the widget is deleted without a resource version.\<close>

theorem mem_delete_publishes_witness:
  "\<exists>s'. mem_Delete testScheme store1 widget1 = (s', None) \<and> revision s' = 2 \<and> mem_view s' widgetGVK key1 = None"
  using mem_delete_publishes [OF store1(1) store1_bound(1) gvk_widget(1) [OF widget1_simps(1)] refl store1(3) _ refl]
  by (auto simp: store1(2))

text \<open>
  C11. The errors of the write methods are decided by the presence of the key and the resource
  version alone: \<open>Create\<close> of a present key, any other write of an absent key, and an update with
  another resource version than the stored one (or a delete with one that is not empty) return the
  typed error for it, leave the object of the caller alone and the store as it is.
\<close>

theorem mem_write_errors:
  assumes "mem_inv sch s" and "mem_gvkForObject sch obj = Inr gvk" and "key = ObjectKeyFromObject obj"
  shows "(mem_view s gvk key \<noteq> None \<longrightarrow>
      mem_Create sch s obj = (s, obj, Some (AlreadyExistsError (ObjectKey_String key)))) \<and>
    (mem_view s gvk key = None \<longrightarrow>
      mem_Update sch s obj = (s, obj, Some (NotFoundError (ObjectKey_String key))) \<and>
      mem_UpdateStatus sch s obj = (s, obj, Some (NotFoundError (ObjectKey_String key))) \<and>
      mem_Delete sch s obj = (s, Some (NotFoundError (ObjectKey_String key)))) \<and>
    (\<forall>stored. mem_view s gvk key = Some stored \<and> GetResourceVersion obj \<noteq> GetResourceVersion stored \<longrightarrow>
      mem_Update sch s obj = (s, obj, Some (ConflictError (ObjectKey_String key))) \<and>
      mem_UpdateStatus sch s obj = (s, obj, Some (ConflictError (ObjectKey_String key))) \<and>
      (GetResourceVersion obj \<noteq> [] \<longrightarrow> mem_Delete sch s obj = (s, Some (ConflictError (ObjectKey_String key)))))"
  using mem_Create_exists [OF assms(1,2)] mem_write_not_found [OF assms(2)] mem_write_conflict [OF assms(2)]
  unfolding assms(3) by blast

text \<open>Witness of C11: creating the widget twice, and updating it without a resource version.\<close>

theorem mem_write_errors_witness:
  "mem_Create testScheme store1 widget1 = (store1, widget1, Some (AlreadyExistsError ''default/w1'')) \<and>
   mem_Update testScheme store1 widget1 = (store1, widget1, Some (ConflictError ''default/w1''))"
proof -
  have "ObjectKey_String key1 = ''default/w1''"
    by (simp add: ObjectKey_String_def ObjectKeyFromObject_def widget1_def newTestWidget_def)
  then show ?thesis
    using mem_write_errors [OF store1(1) gvk_widget(1) [OF widget1_simps(1)] refl] store1(3) by simp
qed

section \<open>Where the code and its documentation differ\<close>

text \<open>
  \<open>UpdateStatus\<close> says that it ignores the metadata of the input, but a label that only the input
  has ends up in the store: the stored document is decoded over a copy of the input, and decoding
  into a Go map keeps the entries that the document does not mention.
\<close>

lemma mem_updateStatus_adopts_labels:
  "\<exists>new. mem_view (fst (mem_UpdateStatus testScheme store1
        (red1\<lparr>Meta := (Meta red1)\<lparr>Labels := fmupd ''team'' ''blue'' fmempty\<rparr>\<rparr>))) widgetGVK key1 = Some new \<and>
     GetLabels created1 = fmempty \<and> fmlookup (GetLabels new) ''team'' = Some ''blue''"
proof -
  let ?in = "red1\<lparr>Meta := (Meta red1)\<lparr>Labels := fmupd ''team'' ''blue'' fmempty\<rparr>\<rparr>"
  have w: "is_testWidget ?in" using red1_simps(5) by (simp add: is_testWidget_def)
  have k: "ObjectKeyFromObject ?in = key1"
    using red1_simps(4) by (simp add: ObjectKeyFromObject_def)
  have "GetLabels created1 = fmempty"
    by (simp add: created1_def mem_created_def setter_defs widget1_def newTestWidget_def emptyMeta_def)
  moreover obtain m where m: "mem_mergedStatus testScheme created1 ?in = Inr m"
      "Meta m = (meta_into (Meta created1) (Meta ?in))\<lparr>Generation := GetGeneration created1,
         ResourceVersion := GetResourceVersion created1, UID := GetUID created1\<rparr>"
    by (rule mem_mergedStatus_full [OF testWidget_full_doc [OF w] testWidget_full_doc [OF created1_simps(4)] _
          widget_merge_decodable(2) [OF created1_simps(4) w]]) simp
  have lab: "GetLabels m = fmadd (fmupd ''team'' ''blue'' fmempty) (GetLabels created1)"
    by (simp add: m(2) meta_into_def)
  have "\<not> mem_contentEqual created1 m"
    using lab \<open>GetLabels created1 = fmempty\<close> mem_contentEqual_fields [of created1 m]
    by (metis ObjectMeta.select_convs(6) ObjectMeta.update_convs(3,4) ObjectMeta.surjective fmadd_empty(2) fmempty_lookup fmupd_lookup option.simps(3))
  with mem_UpdateStatus_eq(2) [OF store1(1) store1_bound(1) gvk_widget(1) _ _ m(1)] k
  obtain t where t: "mem_UpdateStatus testScheme store1 ?in =
        mem_copyBack testScheme t (SetResourceVersion (FormatInt (revision store1 + 1)) m) ?in"
      "mem_commit store1 t widgetGVK \<lparr>ev_Type = EventModified, ev_Object = SetResourceVersion (FormatInt (revision store1 + 1)) m\<rparr>"
    using store1(3) by auto
  have "ObjectKeyFromObject m = key1"
    using mem_mergedStatus_key(1) [OF m(1)] k by simp
  with t mem_commit_put(3) [OF t(2)] lab \<open>GetLabels created1 = fmempty\<close> show ?thesis by simp
qed

end
