(* ===== verification/Cache_Memory.thy ===== *)
theory Cache_Memory
  imports Cache_Follow Memory_Props
begin

text \<open>
  The memory store keeps the contract of \<open>watched_store\<close>, so a cache over it converges.
\<close>

section \<open>The vocabulary of the contract\<close>

text \<open>One Go type per kind, as \<open>AddKnownTypes\<close> registers them.\<close>

definition kind_ok :: "scheme \<Rightarrow> GroupVersionKind \<Rightarrow> string \<Rightarrow> bool" where
  "kind_ok sch gvk ty \<longleftrightarrow> (\<forall>o1. mem_gvkForObject sch o1 = Inr gvk \<longrightarrow> GoType o1 = ty)"

definition mem_ok :: "scheme \<Rightarrow> GroupVersionKind \<Rightarrow> string \<Rightarrow> MemoryStore \<Rightarrow> bool" where
  "mem_ok sch gvk ty s \<longleftrightarrow> mem_inv sch s \<and> kind_ok sch gvk ty"

definition mem_list_ok :: "scheme \<Rightarrow> GroupVersionKind \<Rightarrow> string \<Rightarrow> object_list \<Rightarrow> bool" where
  "mem_list_ok sch gvk ty l \<longleftrightarrow>
     mem_gvkForList sch l = Inr gvk \<and> sch_itemsField sch (ListType l) = ItemsOf ty"

definition mem_history :: "MemoryStore \<Rightarrow> int \<Rightarrow> eventLogEntry list \<Rightarrow> bool" where
  "mem_history s r h \<longleftrightarrow>
     0 \<le> r \<and> revision s = r + int (length h) \<and>
     (\<exists>pre. contiguous (pre @ h) (revision s) \<and> eventLog s = last_n (nat (eventLogMax s)) (pre @ h)) \<and>
     (\<forall>en \<in> set h. GetResourceVersion (ev_Object (le_event en)) = FormatInt (le_revision en))"

definition mem_follows :: "GroupVersionKind \<Rightarrow> MemoryStore \<Rightarrow> int \<Rightarrow> view \<Rightarrow> Event list \<Rightarrow> bool" where
  "mem_follows gvk s r b es \<longleftrightarrow>
     (\<exists>h. mem_history s r h \<and> es = events_for gvk h) \<and>
     mem_view s gvk = apply_events es b \<and> valid_events b es"

definition mem_fresh :: "MemoryStore \<Rightarrow> int \<Rightarrow> bool" where
  "mem_fresh s r \<longleftrightarrow> revision s \<le> r"

definition mem_subscribed :: "GroupVersionKind \<Rightarrow> MemoryStore \<Rightarrow> watcher_id \<Rightarrow> Event list \<Rightarrow> bool" where
  "mem_subscribed gvk s x es \<longleftrightarrow> mem_watch_ok x gvk es [] s"

definition mem_live :: "GroupVersionKind \<Rightarrow> MemoryStore \<Rightarrow> watcher_id \<Rightarrow> Event list \<Rightarrow> bool" where
  "mem_live gvk s x es \<longleftrightarrow> mem_subscribed gvk s x es \<and> \<not> w_closed (wheap s x)"

definition mem_env :: "scheme \<Rightarrow> watcher_id option \<Rightarrow> MemoryStore \<Rightarrow> MemoryStore \<Rightarrow> bool" where
  "mem_env sch ox s s' \<longleftrightarrow>
     revision s < MaxInt64 \<and>
     (\<exists>op. s' = mem_exec sch op s \<and> (\<forall>j. ox = Some j \<longrightarrow> op \<noteq> OpRecv j \<and> op \<noteq> OpStop j))"

section \<open>Histories\<close>

lemma mem_history_quiet: "mem_history s r h \<Longrightarrow> mem_quiet s s' \<Longrightarrow> mem_history s' r h"
  unfolding mem_history_def mem_quiet_def by metis

lemma mem_follows_quiet: "mem_follows gvk s r b es \<Longrightarrow> mem_quiet s s' \<Longrightarrow> mem_follows gvk s' r b es"
  unfolding mem_follows_def using mem_history_quiet by (metis mem_quiet_def)

lemma mem_history_commit:
  assumes "mem_history s r h" and "mem_commit s s' gvk e"
  shows "mem_history s' r (h @ [\<lparr>le_revision = revision s + 1, le_gvk = gvk, le_event = e\<rparr>])"
proof -
  let ?en = "\<lparr>le_revision = revision s + 1, le_gvk = gvk, le_event = e\<rparr>"
  obtain pre where pre: "contiguous (pre @ h) (revision s)" "eventLog s = last_n (nat (eventLogMax s)) (pre @ h)"
    using assms(1) by (auto simp: mem_history_def)
  have "contiguous ((pre @ h) @ [?en]) (revision s + 1)"
    using pre(1) by (rule contiguous_snoc) simp
  moreover have "eventLog s' = last_n (nat (eventLogMax s')) ((pre @ h) @ [?en])"
    using assms(2) pre(2) by (simp add: mem_commit_def last_n_snoc del: append_assoc)
  ultimately show ?thesis
    using assms by (auto simp: mem_history_def mem_commit_def intro!: exI [of _ pre])
qed

lemma mem_follows_commit:
  assumes "mem_follows gvk s r b es" and "mem_commit s s' gvk' e"
  shows "mem_follows gvk s' r b (es @ (if gvk' = gvk then [e] else []))"
proof -
  let ?en = "\<lparr>le_revision = revision s + 1, le_gvk = gvk', le_event = e\<rparr>"
  obtain h where h: "mem_history s r h" "es = events_for gvk h"
    using assms(1) by (auto simp: mem_follows_def)
  have "es @ (if gvk' = gvk then [e] else []) = events_for gvk (h @ [?en])"
    by (simp add: h(2))
  with mem_history_commit [OF h(1) assms(2)] assms show ?thesis
    unfolding mem_follows_def by (auto simp: mem_commit_def)
qed

lemma events_for_Cons:
  assumes "events_for gvk h = e # es"
  obtains h1 en h2 where "h = h1 @ en # h2" and "events_for gvk h1 = []" and "le_event en = e" and "events_for gvk h2 = es"
proof -
  from assms obtain en rest where f: "filter (\<lambda>en. le_gvk en = gvk) h = en # rest" "le_event en = e" "map le_event rest = es"
    by (auto simp: events_for_def map_eq_Cons_conv)
  from f(1) obtain h1 h2 where "h = h1 @ en # h2" "\<forall>x \<in> set h1. le_gvk x \<noteq> gvk" "rest = filter (\<lambda>en. le_gvk en = gvk) h2"
    by (auto simp: filter_eq_Cons_iff)
  with f show thesis by (intro that [of h1 en h2]) (auto simp: events_for_def filter_empty_conv)
qed

lemma mem_follows_next:
  assumes "mem_inv sch s" and "mem_follows gvk s r b (e # es)"
  shows "mem_follows gvk s (eventRV r e) (apply_event e b) es"
proof -
  obtain h where h: "mem_history s r h" "events_for gvk h = e # es"
    using assms(2) by (auto simp: mem_follows_def)
  obtain h1 en h2 where h12: "h = h1 @ en # h2" "le_event en = e" "events_for gvk h2 = es"
    using h(2) by (rule events_for_Cons)
  obtain pre where pre: "contiguous (pre @ h) (revision s)" "eventLog s = last_n (nat (eventLogMax s)) (pre @ h)"
    using h(1) by (auto simp: mem_history_def)
  have "contiguous (en # h2) (revision s)"
    using contiguous_drop [OF pre(1), of "length pre + length h1"] by (simp add: h12(1))
  then have rv: "le_revision en = revision s - int (length h2)"
    by (rule contiguous_hd)
  have r: "0 \<le> r" "revision s = r + int (length h1) + 1 + int (length h2)"
    using h(1) by (auto simp: mem_history_def h12(1))
  have "GetResourceVersion (ev_Object e) = FormatInt (le_revision en)"
    using h(1) h12 by (auto simp: mem_history_def)
  moreover have "is_int64 (le_revision en)"
    using rv r mem_revision_bounds [OF assms(1)] by (auto simp: is_int64_def MinInt64_def)
  ultimately have "eventRV r e = le_revision en"
    using rv r by (simp add: eventRV_def)
  moreover have "mem_history s (le_revision en) h2"
    using h(1) pre rv r unfolding mem_history_def
    by (auto simp: h12(1) intro!: exI [of _ "pre @ h1 @ [en]"])
  ultimately show ?thesis
    using assms(2) h12(3) unfolding mem_follows_def by auto
qed

lemma mem_follows_since:
  assumes "mem_inv sch s" and "mem_follows gvk s r b es"
  shows "mem_eventsSince s r gvk = Inr es \<or>
    (r < revision s \<and> (\<exists>old. mem_eventsSince s r gvk = Inl (RevisionTooOldError r old)))"
proof -
  obtain h where h: "mem_history s r h" "es = events_for gvk h"
    using assms(2) by (auto simp: mem_follows_def)
  obtain pre where pre: "contiguous (pre @ h) (revision s)" "eventLog s = last_n (nat (eventLogMax s)) (pre @ h)"
    using h(1) by (auto simp: mem_history_def)
  have r: "revision s = r + int (length h)" "0 \<le> r" using h(1) by (auto simp: mem_history_def)
  have "is_int64 (revision s)" "is_int64 r"
    using r mem_revision_bounds [OF assms(1)] by (auto simp: is_int64_def MinInt64_def)
  from memlog.since_spec [OF pre(2,1) r(1) this, of gvk] h(2) r show ?thesis
    by (auto simp: events_for_def)
qed

section \<open>The contract holds\<close>

lemma watchFrom_plain: "watchFrom opts None = None \<Longrightarrow> watchFrom opts acc = acc"
proof (induction opts acc rule: watchFrom.induct)
  case (2 rv opts acc)
  have "watchFrom opts (Some rv) \<noteq> None" for opts rv
    by (induction opts "Some rv" arbitrary: rv rule: watchFrom.induct) auto
  with 2 show ?case by simp
qed auto

lemma mem_watch_contract:
  assumes ok: "mem_ok sch gvk ty s" and l: "mem_list_ok sch gvk ty l" and plain: "plain_opts opts"
    and f: "mem_follows gvk s r b es"
  shows "(\<exists>e. mem_Watch sch s l (WatchFromRevision r # opts) = (s, Inl e) \<and> isRevisionTooOld e \<and> \<not> mem_fresh s r) \<or>
    (\<exists>s' x. mem_Watch sch s l (WatchFromRevision r # opts) = (s', Inr x) \<and> mem_ok sch gvk ty s' \<and>
       mem_view s' gvk = mem_view s gvk \<and> mem_follows gvk s' r b es \<and> mem_live gvk s' x es)"
proof -
  let ?opts = "WatchFromRevision r # opts"
  have inv: "mem_inv sch s" using ok by (simp add: mem_ok_def)
  have gvk: "mem_gvkForList sch l = Inr gvk" using l by (simp add: mem_list_ok_def)
  have replay: "mem_replay s ?opts gvk = mem_eventsSince s r gvk"
    using plain watchFrom_plain [of opts "Some r"] by (simp add: mem_replay_def plain_opts_def)
  have nosel: "lo_LabelSelector (applyListOptions ?opts) = None"
    using plain by (simp add: plain_opts_def applyListOptions_def)
  show ?thesis
  proof (cases "mem_eventsSince s r gvk")
    case (Inl e)
    with mem_follows_since [OF inv f] replay mem_Watch_error(2) [OF gvk, of s ?opts e] show ?thesis
      by (auto simp: mem_fresh_def)
  next
    case (Inr es')
    with mem_follows_since [OF inv f] have "es' = es" by auto
    then have eq: "mem_replay s ?opts gvk = Inr es" using Inr replay by simp
    obtain s' where w: "mem_Watch sch s l ?opts = (s', Inr (nextWatcher s))" "\<not> w_closed (wheap s' (nextWatcher s))"
      using mem_Watch_eq [OF gvk eq] by simp
    have "mem_inv sch s'" "mem_quiet s s'" using mem_Watch_quiet [OF inv, of l ?opts] w by simp_all
    moreover have "mem_watch_ok (nextWatcher s) gvk es [] s'"
      using mem_Watch_watch_ok [OF gvk eq] w nosel by (simp add: mem_replayFilter_def)
    ultimately show ?thesis
      using w ok mem_follows_quiet [OF f, of s']
      by (auto simp: mem_ok_def mem_live_def mem_subscribed_def mem_quiet_def)
  qed
qed

lemma mem_list_contract:
  assumes ok: "mem_ok sch gvk ty s" and l: "mem_list_ok sch gvk ty l" and plain: "plain_opts opts"
  shows "\<exists>l' r. mem_List sch s l opts = (l', None) \<and> mem_list_ok sch gvk ty l' \<and>
    distinct (map ObjectKeyFromObject (Items l')) \<and>
    (\<forall>k o1. mem_view s gvk k = Some o1 \<longleftrightarrow> o1 \<in> set (Items l') \<and> ObjectKeyFromObject o1 = k) \<and>
    ParseInt (ListResourceVersion l') = (r, None) \<and> mem_follows gvk s r (mem_view s gvk) [] \<and> mem_fresh s r"
proof -
  have inv: "mem_inv sch s" using ok by (simp add: mem_ok_def)
  have obj: "mem_obj_ok sch (revision s) gvk k o1" if "mem_view s gvk k = Some o1" for k o1
    using inv that by (rule mem_view_Some)
  then have "\<forall>k o1. mem_view s gvk k = Some o1 \<longrightarrow> GoType o1 = ty"
    using ok unfolding mem_ok_def kind_ok_def mem_obj_ok_def by blast
  then obtain out where out: "mem_List sch s l opts = (out, None)" "ParseInt (ListResourceVersion out) = (revision s, None)"
      "distinct (map ObjectKeyFromObject (Items out))" "set (Items out) = {o1. \<exists>k. mem_view s gvk k = Some o1}"
    using mem_list_items [OF inv _ _ _ refl, of l gvk ty opts] l plain
    by (auto simp: mem_list_ok_def plain_opts_def)
  have "ListType out = ListType l"
    using out(1) l by (auto simp: mem_List_def mem_list_ok_def mem_populateListItems_def Let_def split: if_splits)
  then have "mem_list_ok sch gvk ty out"
    using l by (simp only: mem_list_ok_def mem_gvkForList_def)
  moreover have "mem_history s (revision s) []"
    using inv unfolding mem_history_def
    by (auto simp: mem_inv_def mem_log_ok_def last_n_all nat_le_iff intro!: exI [of _ "eventLog s"])
  then have "mem_follows gvk s (revision s) (mem_view s gvk) []"
    unfolding mem_follows_def by (auto intro!: exI [of _ "[]"])
  ultimately show ?thesis
    using out obj by (intro exI [of _ out] exI [of _ "revision s"]) (auto simp: mem_fresh_def mem_obj_ok_def)
qed

lemma mem_recv_contract:
  assumes "mem_ok sch gvk ty s" and sub: "mem_subscribed gvk s x es" and recv: "mem_Recv s x = (s', Received e)"
  shows "\<exists>es'. es = e # es' \<and> mem_ok sch gvk ty s' \<and> mem_view s' gvk = mem_view s gvk \<and> mem_subscribed gvk s' x es' \<and>
    (mem_live gvk s x es \<longrightarrow> mem_live gvk s' x es') \<and>
    (\<forall>r b fs. mem_follows gvk s r b fs \<longrightarrow> mem_follows gvk s' r b fs)"
proof -
  have q: "mem_inv sch s'" "mem_quiet s s'" "kind_ok sch gvk ty"
    using mem_Recv_quiet [of sch s x] assms(1) recv by (auto simp: mem_ok_def)
  obtain ch where ch: "w_ch (wheap s x) = e # ch" "wheap s' x = (wheap s x)\<lparr>w_ch := ch\<rparr>"
      "watchers s' = watchers s" "nextWatcher s' = nextWatcher s"
    using recv by (auto simp: mem_Recv_def memw_Recv_def Let_def split: list.splits if_splits)
  obtain es' where "es = e # es'"
    using sub ch(1) by (cases es) (auto simp: mem_subscribed_def mem_watch_ok_def)
  moreover have "mem_subscribed gvk s' x es'" "mem_live gvk s x es \<longrightarrow> mem_live gvk s' x es'"
    using sub ch \<open>es = e # es'\<close> by (auto simp: mem_live_def mem_subscribed_def mem_watch_ok_def)
  moreover have "\<forall>r b fs. mem_follows gvk s r b fs \<longrightarrow> mem_follows gvk s' r b fs"
    using mem_follows_quiet q(2) by blast
  ultimately show ?thesis
    using q by (auto simp: mem_ok_def mem_quiet_def)
qed

lemma mem_recv_other:
  assumes "mem_subscribed gvk s x es"
  shows "mem_Recv s x = (s', ChanClosed) \<Longrightarrow> s' = s \<and> \<not> mem_live gvk s x es"
    and "mem_Recv s x = (s', WouldBlock) \<Longrightarrow> s' = s \<and> es = []"
    and "mem_live gvk s x [] \<Longrightarrow> mem_Recv s x = (s, WouldBlock)"
  using assms
  by (auto simp: mem_Recv_def memw_Recv_def mem_live_def mem_subscribed_def mem_watch_ok_def Let_def split: list.splits if_splits)

lemma mem_env_contract:
  assumes ok: "mem_ok sch gvk ty s" and env: "mem_env sch ox s s'"
  shows "mem_ok sch gvk ty s' \<and>
    (\<exists>es'. (\<forall>r b es. mem_follows gvk s r b es \<longrightarrow> mem_follows gvk s' r b (es @ es')) \<and>
       (\<forall>y es. ox = Some y \<longrightarrow> mem_subscribed gvk s y es \<longrightarrow> mem_subscribed gvk s' y (es @ es')))"
proof -
  obtain op where op: "s' = mem_exec sch op s" "\<forall>j. ox = Some j \<longrightarrow> op \<noteq> OpRecv j \<and> op \<noteq> OpStop j"
    and bound: "revision s < MaxInt64"
    using env by (auto simp: mem_env_def)
  have inv: "mem_inv sch s" and ok': "mem_ok sch gvk ty s'"
    using ok mem_exec_effect [of sch s op] bound by (auto simp: mem_ok_def op(1))
  show ?thesis
  proof (cases "is_write op")
    case True
    consider "s' = s" | g e where "mem_commit s s' g e"
      using mem_write_effect [OF inv bound True] op(1) by blast
    then show ?thesis
    proof cases
      case 1
      with ok' show ?thesis by (intro conjI exI [of _ "[]"]) auto
    next
      case (2 g e)
      with ok' mem_follows_commit mem_watch_ok_commit [OF inv _ 2] show ?thesis
        by (intro conjI exI [of _ "if g = gvk then [e] else []"]) (auto simp: mem_subscribed_def)
    qed
  next
    case False
    then have "mem_quiet s s'"
      using inv mem_Watch_quiet mem_Recv_quiet mem_Stop_quiet op(1) by (cases op) auto
    moreover have "mem_subscribed gvk s' y es" if "ox = Some y" "mem_subscribed gvk s y es" for y es
    proof (cases op)
      case (OpRecv j)
      then have "mem_took y (OpRecv j) s = []" using op(2) that(1) by simp
      with OpRecv op(1) mem_watch_ok_Recv [of y gvk es "[]" s j] that(2) show ?thesis
        by (simp add: mem_subscribed_def)
    qed (use False op(1) that(2) in \<open>simp_all add: mem_subscribed_def mem_watch_ok_Watch mem_watch_ok_Stop\<close>)
    ultimately show ?thesis
      using ok' mem_follows_quiet by (intro conjI exI [of _ "[]"]) auto
  qed
qed

lemma mem_stop_contract:
  assumes "mem_ok sch gvk ty s"
  shows "mem_ok sch gvk ty (mem_Stop s x) \<and> mem_view (mem_Stop s x) gvk = mem_view s gvk \<and>
    (\<forall>r b es. mem_follows gvk s r b es \<longrightarrow> mem_follows gvk (mem_Stop s x) r b es) \<and>
    (\<forall>y es. mem_subscribed gvk s y es \<longrightarrow> mem_subscribed gvk (mem_Stop s x) y es)"
proof -
  have "mem_inv sch (mem_Stop s x)" "mem_quiet s (mem_Stop s x)"
    using mem_Stop_quiet assms by (auto simp: mem_ok_def)
  with assms mem_follows_quiet mem_watch_ok_Stop show ?thesis by (auto simp: mem_ok_def mem_quiet_def mem_subscribed_def)
qed

interpretation memwatch: watched_store "memStore sch" "mem_ok sch gvk ty" "\<lambda>s. mem_view s gvk"
  "mem_list_ok sch gvk ty" "mem_follows gvk" mem_fresh "mem_subscribed gvk" "mem_live gvk" "mem_env sch" for sch gvk ty
  apply unfold_locales
  subgoal by (simp add: mem_follows_def)
  subgoal using mem_follows_next by (auto simp: mem_ok_def)
  subgoal using mem_list_contract by fastforce
  subgoal using mem_watch_contract by simp
  subgoal by (simp add: mem_live_def)
  subgoal using mem_recv_contract by simp
  subgoal using mem_recv_other(1) by simp
  subgoal using mem_recv_other(2) by simp
  subgoal using mem_recv_other(3) unfolding memStore_simps mem_live_def by blast
  subgoal using mem_stop_contract by simp
  subgoal by (rule mem_env_contract)
  done

section \<open>The cache over the memory store\<close>

text \<open>
  The whole system for one kind: the watch loop of the informer and any number of other clients of
  the store, interleaved step by step.
\<close>

datatype sys_step = Loop watch_choice | Client mem_op

fun sys_exec :: "scheme \<Rightarrow> apilib \<Rightarrow> sys_step \<Rightarrow> MemoryStore \<times> storeInformer \<times> watchLoop \<Rightarrow> MemoryStore \<times> storeInformer \<times> watchLoop" where
  "sys_exec sch al (Loop ch) c = watch_step (memStore sch) al ch c"
| "sys_exec sch al (Client op) (s, i, w) = (mem_exec sch op s, i, w)"

fun sys_run :: "scheme \<Rightarrow> apilib \<Rightarrow> sys_step list \<Rightarrow> MemoryStore \<times> storeInformer \<times> watchLoop \<Rightarrow> MemoryStore \<times> storeInformer \<times> watchLoop" where
  "sys_run sch al [] c = c"
| "sys_run sch al (x # xs) c = sys_run sch al xs (sys_exec sch al x c)"

text \<open>
  The context is not cancelled, nobody else receives from or stops the loop's watcher, and the
  store has revisions left.
\<close>

fun sys_allowed :: "sys_step \<Rightarrow> MemoryStore \<times> storeInformer \<times> watchLoop \<Rightarrow> bool" where
  "sys_allowed (Loop ch) c = (ch \<noteq> CtxDone)"
| "sys_allowed (Client op) (s, i, w) =
     (revision s < MaxInt64 \<and> (\<forall>j. watching (wl_phase w) = Some j \<longrightarrow> op \<noteq> OpRecv j \<and> op \<noteq> OpStop j))"

fun sys_run_allowed :: "scheme \<Rightarrow> apilib \<Rightarrow> sys_step list \<Rightarrow> MemoryStore \<times> storeInformer \<times> watchLoop \<Rightarrow> bool" where
  "sys_run_allowed sch al [] c = True"
| "sys_run_allowed sch al (x # xs) c = (sys_allowed x c \<and> sys_run_allowed sch al xs (sys_exec sch al x c))"

abbreviation mem_cache_inv :: "scheme \<Rightarrow> GroupVersionKind \<Rightarrow> string \<Rightarrow> informerConfig \<Rightarrow> MemoryStore \<times> storeInformer \<times> watchLoop \<Rightarrow> bool" where
  "mem_cache_inv sch gvk ty \<equiv> watch_inv (mem_ok sch gvk ty) (mem_list_ok sch gvk ty) (mem_follows gvk) (mem_subscribed gvk)"

lemma watch_step_not_Returned:
  "ch \<noteq> CtxDone \<Longrightarrow> wl_phase (snd (snd c)) \<noteq> Returned \<Longrightarrow> wl_phase (snd (snd (watch_step st al ch c))) \<noteq> Returned"
  by (cases c; cases ch)
    (auto simp: watch_step_def watch_dial_def watch_receive_def split: watch_phase.split prod.split sum.split recv.split option.split)

lemma sys_run_inv:
  assumes "ic_labelSelector cfg = None" and "tidy_transform cfg" and "extracts_items al"
    and "mem_cache_inv sch gvk ty cfg c" and "wl_phase (snd (snd c)) \<noteq> Returned" and "sys_run_allowed sch al xs c"
  shows "mem_cache_inv sch gvk ty cfg (sys_run sch al xs c) \<and> wl_phase (snd (snd (sys_run sch al xs c))) \<noteq> Returned"
  using assms(4-6)
proof (induction xs arbitrary: c)
  case Nil
  then show ?case by simp
next
  case (Cons x xs)
  obtain s i w where c: "c = (s, i, w)" by (rule prod_cases3)
  have "mem_cache_inv sch gvk ty cfg (sys_exec sch al x c) \<and> wl_phase (snd (snd (sys_exec sch al x c))) \<noteq> Returned"
  proof (cases x)
    case (Loop ch)
    with Cons.prems memwatch.step_inv [OF Cons.prems(1) assms(1-3), of ch] watch_step_not_Returned [of ch c]
    show ?thesis by simp
  next
    case (Client op)
    have "mem_env sch (watching (wl_phase w)) s (mem_exec sch op s)"
      using Cons.prems(3) Client c by (auto simp: mem_env_def)
    from memwatch.env_inv [OF Cons.prems(1) [unfolded c] this] Cons.prems(2) Client c show ?thesis by simp
  qed
  with Cons.IH Cons.prems(3) show ?case by simp
qed

text \<open>What an informer for a kind needs from the scheme and the libraries.\<close>

definition informer_setup :: "scheme \<Rightarrow> apilib \<Rightarrow> GroupVersionKind \<Rightarrow> string \<Rightarrow> informerConfig \<Rightarrow> bool" where
  "informer_setup sch al gvk ty cfg \<longleftrightarrow>
     kind_ok sch gvk ty \<and> extracts_items al \<and> ic_labelSelector cfg = None \<and> tidy_transform cfg \<and>
     (\<exists>l. sch_New sch (gvk\<lparr>Kind := Kind gvk @ ''List''\<rparr>) = Inr (RList l) \<and> mem_list_ok sch gvk ty l)"

lemma mem_start:
  assumes "mem_inv sch s" and "informer_setup sch al gvk ty cfg"
    and "startInformer (memStore sch) sch al s (newStoreInformer gvk cfg) = (s1, i1, r)"
  obtains w1 where "r = Inr w1" and "s1 = s" and "i_synced i1" and "inf_view i1 = project cfg (mem_view s gvk)"
    and "mem_cache_inv sch gvk ty cfg (s1, i1, w1)" and "wl_phase w1 = Dialing"
proof -
  let ?i = "newStoreInformer gvk cfg"
  obtain l where l: "sch_New sch ((i_gvk ?i)\<lparr>Kind := Kind (i_gvk ?i) @ ''List''\<rparr>) = Inr (RList l)" "mem_list_ok sch gvk ty l"
    using assms(2) by (auto simp: informer_setup_def newStoreInformer_def)
  have "mem_ok sch gvk ty s" using assms(1,2) by (simp add: mem_ok_def informer_setup_def)
  from memwatch.start_inv [OF this l, of cfg al] assms(2,3) show thesis
    by (auto simp: newStoreInformer_def informer_setup_def intro: that)
qed


definition plainLib :: apilib where
  "plainLib = \<lparr>al_GVKForObject = (\<lambda>ty. if ty = ''storetest.testWidget'' then Inr widgetGVK
       else if ty = ''storetest.testWidgetList'' then Inr (widgetGVK\<lparr>Kind := ''testWidgetList''\<rparr>)
       else Inl (Error ''no kind is registered'')),
     al_SetList = (\<lambda>l items. (l\<lparr>Items := items\<rparr>, None)), al_ExtractList = (\<lambda>l. Inr (map RObject (Items l)))\<rparr>"

lemma widget_setup: "informer_setup testScheme plainLib widgetGVK ''storetest.testWidget'' plainConfig"
proof -
  have "kind_ok testScheme widgetGVK ''storetest.testWidget''"
    by (auto simp: kind_ok_def mem_gvkForObject_def testScheme_def widgetGVK_def gadgetGVK_def split: if_splits)
  moreover have "mem_list_ok testScheme widgetGVK ''storetest.testWidget'' zeroWidgetList"
    by (simp add: mem_list_ok_def) (simp add: testScheme_def zeroWidgetList_def)
  moreover have "sch_New testScheme (widgetGVK\<lparr>Kind := Kind widgetGVK @ ''List''\<rparr>) = Inr (RList zeroWidgetList)"
    by (simp add: testScheme_def widgetGVK_def)
  ultimately show ?thesis
    by (auto simp: informer_setup_def extracts_items_def plainLib_def plainConfig_def tidy_none)
qed


lemma sys_run_proceeds:
  "sys_run sch al (replicate n (Loop Proceed)) c = (watch_step (memStore sch) al Proceed ^^ n) c"
  by (induction n arbitrary: c) (simp_all add: funpow_swap1)

lemma sys_run_allowed_proceeds: "sys_run_allowed sch al (replicate n (Loop Proceed)) c"
  by (induction n arbitrary: c) simp_all



end
