(* ===== verification/Cache_Props.thy ===== *)
theory Cache_Props
  imports Cache_Inv Cache_Memory
begin

text \<open>
  What \<open>storeCache\<close> promises: a consistent map of informers, configurations that follow the options,
  a wait for the first sync that ends, errors that leave no trace, and reads that agree with the
  store once an informer has caught up.
\<close>

section \<open>The informer map\<close>



text \<open>Witness of C20: a widget informer over a store with one widget.\<close>

definition widgetWorld :: "MemoryStore cacheWorld" where
  "widgetWorld = fold (cache_exec (memStore testScheme) testScheme plainLib) [CGetInformer zeroWidget]
     (newCacheWorld store1 (NewCache plainLib []))"

lemma resolveConfig_plain: "resolveConfig (NewCache al []) gvk = plainConfig"
  by (simp add: resolveConfig_def NewCache_def Let_def byObjectConfigs_def initialCacheOptions_def plainConfig_def)

lemma widgetWorld_simps:
  "c_started (cw_cache widgetWorld) = False" "c_informers (cw_cache widgetWorld) = [(widgetGVK, 0)]"
  "c_heap (cw_cache widgetWorld) 0 = newStoreInformer widgetGVK plainConfig" "cw_store widgetWorld = store1"
proof -
  have "al_GVKForObject plainLib (GoType zeroWidget) = Inr widgetGVK"
    by (simp add: plainLib_def zeroWidget_def)
  then have eq: "widgetWorld = (newCacheWorld store1 (NewCache plainLib []))
      \<lparr>cw_cache := c_register widgetGVK (NewCache plainLib [])\<rparr>"
    by (simp add: widgetWorld_def cache_GetInformer_def getOrCreateInformer_def newCacheWorld_def NewCache_def Let_def
        initialCacheOptions_def)
  show "c_started (cw_cache widgetWorld) = False" "c_informers (cw_cache widgetWorld) = [(widgetGVK, 0)]"
      "c_heap (cw_cache widgetWorld) 0 = newStoreInformer widgetGVK plainConfig" "cw_store widgetWorld = store1"
    by (simp_all add: eq c_register_def resolveConfig_plain) (simp_all add: newCacheWorld_def NewCache_def Let_def)
qed

lemma widgetWorld_Start: "\<exists>w1. cache_Start (memStore testScheme) testScheme plainLib widgetWorld = (w1, None)"
proof -
  obtain s1 i1 r where st: "startInformer (memStore testScheme) testScheme plainLib store1
      (newStoreInformer widgetGVK plainConfig) = (s1, i1, r)" by (rule prod_cases3)
  then obtain l where "r = Inr l" using mem_start [OF store1(1) widget_setup] by metis
  with st show ?thesis
    by (simp add: cache_Start_def Let_def widgetWorld_simps cache_startInformer_def)
qed


text \<open>
  C21. \<open>getOrCreateInformer\<close> (behind \<open>GetInformer\<close>, \<open>GetInformerForKind\<close>, \<open>IndexField\<close> and the reads):
  an error, from a stopped cache or from a failed start, leaves the map of informers as it was; a
  success leaves exactly that kind's informer added, and asking again gives the same informer and changes nothing.
\<close>

theorem cache_get_or_create:
  assumes "w = fold (cache_exec st sch al) ops (newCacheWorld s (NewCache al opts))"
    and "getOrCreateInformer st sch al gvk w = (w', r)"
  shows "(\<forall>e. r = Inl e \<longrightarrow> c_informers (cw_cache w') = c_informers (cw_cache w)) \<and>
    (\<forall>n. r = Inr n \<longrightarrow>
       map_of (c_informers (cw_cache w')) = (map_of (c_informers (cw_cache w)))(gvk \<mapsto> n) \<and>
       getOrCreateInformer st sch al gvk w' = (w', Inr n))"
proof -
  have wf: "cache_wf w" unfolding assms(1) by (rule cache_run_wf)
  show ?thesis
    using getOrCreate_cases(2) [OF wf assms(2)] by (cases r) (auto simp: getOrCreateInformer_def)
qed

text \<open>Witness of C21: the widget informer is there already.\<close>

theorem cache_get_or_create_witness:
  "getOrCreateInformer (memStore testScheme) testScheme plainLib widgetGVK widgetWorld = (widgetWorld, Inr 0) \<and>
   map_of (c_informers (cw_cache widgetWorld)) = [widgetGVK \<mapsto> 0]"
proof -
  have get: "getOrCreateInformer (memStore testScheme) testScheme plainLib widgetGVK widgetWorld = (widgetWorld, Inr 0)"
    by (simp add: getOrCreateInformer_def widgetWorld_simps)
  show ?thesis
    using cache_get_or_create [OF widgetWorld_def get] get by (simp add: widgetWorld_simps)
qed

section \<open>Configuration\<close>

definition noOverrides :: ByObjectConfig where
  "noOverrides = \<lparr>bo_Transform = None, bo_UnsafeDisableDeepCopy = None, bo_Label = None, bo_Field = None,
     bo_EnableWatchBookmarks = None\<rparr>"

lemma byObjectConfigs_last:
  "fold (\<lambda>(obj, config) configs. case al_GVKForObject al (GoType obj) of
       Inl _ \<Rightarrow> configs | Inr gvk \<Rightarrow> configs(gvk \<mapsto> f config)) entries m gvk =
   (case find (\<lambda>(obj, config). al_GVKForObject al (GoType obj) = Inr gvk) (rev entries) of
      None \<Rightarrow> m gvk | Some (obj, config) \<Rightarrow> Some (f config))"
  by (induction entries rule: rev_induct) (auto split: sum.split)

text \<open>
  The configuration of an informer follows the options: for each setting of the last entry of
  \<open>WithByObject\<close> for the kind, its value where the entry sets it and the default otherwise, wherever in
  the list of options the default was given; without an entry, the defaults.
\<close>

theorem cache_config_resolution:
  "resolveConfig (NewCache al opts) gvk =
     (let options = fold applyCacheOption opts initialCacheOptions
      in byObjectInformerConfig options
           (case find (\<lambda>(obj, config). al_GVKForObject al (GoType obj) = Inr gvk) (rev (co_byObject options)) of
              None \<Rightarrow> noOverrides | Some (obj, config) \<Rightarrow> config))"
  by (simp add: resolveConfig_def NewCache_def Let_def byObjectConfigs_def byObjectConfigs_last byObjectInformerConfig_def
      noOverrides_def orElse_def split: option.split)

section \<open>Reads and removals over the memory store\<close>

text \<open>
  An informer of the cache that was started over the memory store and has since been run by its
  watch goroutine beside any other clients of the store.
\<close>

definition runs_over_memory ::
  "scheme \<Rightarrow> apilib \<Rightarrow> GroupVersionKind \<Rightarrow> string \<Rightarrow> informerConfig \<Rightarrow> nat \<Rightarrow> MemoryStore cacheWorld \<Rightarrow> bool" where
  "runs_over_memory sch al gvk ty cfg n w \<longleftrightarrow>
     map_of (c_informers (cw_cache w)) gvk = Some n \<and> informer_setup sch al gvk ty cfg \<and>
     (\<exists>s0 s1 i1 l1 xs l. mem_inv sch s0 \<and>
        startInformer (memStore sch) sch al s0 (newStoreInformer gvk cfg) = (s1, i1, Inr l1) \<and>
        sys_run_allowed sch al xs (s1, i1, l1) \<and>
        sys_run sch al xs (s1, i1, l1) = (cw_store w, c_heap (cw_cache w) n, l) \<and> cw_loops w n = Some l)"

lemma runs_over_memory_inv:
  assumes "runs_over_memory sch al gvk ty cfg n w"
  obtains l where "cw_loops w n = Some l" and "wl_phase l \<noteq> Returned"
    and "mem_cache_inv sch gvk ty cfg (cw_store w, c_heap (cw_cache w) n, l)"
proof -
  obtain s0 s1 i1 l1 xs l where run: "mem_inv sch s0"
      "startInformer (memStore sch) sch al s0 (newStoreInformer gvk cfg) = (s1, i1, Inr l1)"
      "sys_run_allowed sch al xs (s1, i1, l1)"
      "sys_run sch al xs (s1, i1, l1) = (cw_store w, c_heap (cw_cache w) n, l)" "cw_loops w n = Some l"
    and cfg: "informer_setup sch al gvk ty cfg"
    using assms by (auto simp: runs_over_memory_def)
  have "mem_cache_inv sch gvk ty cfg (s1, i1, l1)" "wl_phase l1 \<noteq> Returned"
    using mem_start [OF run(1) cfg run(2)] by (metis sum.inject(2), metis sum.inject(2) watch_phase.distinct(7))
  then have "mem_cache_inv sch gvk ty cfg (cw_store w, c_heap (cw_cache w) n, l) \<and> wl_phase l \<noteq> Returned"
    using sys_run_inv [of cfg al sch gvk ty "(s1, i1, l1)" xs] cfg run(3,4) by (simp add: informer_setup_def)
  with run(5) show thesis by (auto intro: that)
qed

definition plain_config :: "informerConfig \<Rightarrow> bool" where
  "plain_config cfg \<longleftrightarrow> ic_transform cfg = None \<and> ic_unsafeDisableDeepCopy cfg = False \<and> ic_labelSelector cfg = None \<and>
     ic_fieldSelector cfg = None \<and> ic_namespaces cfg = None"

lemma project_plain: "plain_config cfg \<Longrightarrow> project cfg v = v"
  by (rule ext) (simp add: plain_config_def project_def matchesSelectors_def applyTransform_def split: option.split)


lemma loopSteps:
  assumes "cw_loops w n = Some l"
    and "(watch_step st al Proceed ^^ k) (cw_store w, c_heap (cw_cache w) n, l) = (s, i, l')"
    and "w' = (cache_loopStep st al n Proceed ^^ k) w"
  shows "cw_store w' = s \<and> c_heap (cw_cache w') n = i \<and> cw_loops w' n = Some l' \<and>
    c_informers (cw_cache w') = c_informers (cw_cache w)"
  using assms
proof (induction k arbitrary: w' s i l')
  case (Suc k)
  obtain s1 i1 l1 where step: "(watch_step st al Proceed ^^ k) (cw_store w, c_heap (cw_cache w) n, l) = (s1, i1, l1)"
    by (rule prod_cases3)
  let ?w = "(cache_loopStep st al n Proceed ^^ k) w"
  note IH = Suc.IH [OF Suc.prems(1) step refl]
  have "watch_step st al Proceed (cw_store ?w, c_heap (cw_cache ?w) n, l1) = (s, i, l')"
    using Suc.prems(2) step IH by simp
  then show ?case using Suc.prems(3) IH by (simp add: cache_loopStep_def)
qed simp

text \<open>Witness of C22: the cache of the one widget, run until its goroutine has caught up.\<close>

lemma widget_caught_up:
  "\<exists>w. runs_over_memory testScheme plainLib widgetGVK ''storetest.testWidget'' plainConfig 0 w \<and>
     caught_up (memStore testScheme) (cw_store w, c_heap (cw_cache w) 0, the (cw_loops w 0))"
proof -
  obtain s1 i1 r where st: "startInformer (memStore testScheme) testScheme plainLib store1
      (newStoreInformer widgetGVK plainConfig) = (s1, i1, r)" by (rule prod_cases3)
  then obtain l1 where r: "r = Inr l1" and inv: "mem_cache_inv testScheme widgetGVK ''storetest.testWidget'' plainConfig (s1, i1, l1)"
      "wl_phase l1 = Dialing"
    using mem_start [OF store1(1) widget_setup] by metis
  obtain w1 where w1: "cache_Start (memStore testScheme) testScheme plainLib widgetWorld = (w1, None)"
      "cw_store w1 = s1" "c_heap (cw_cache w1) 0 = i1" "cw_loops w1 0 = Some l1" "c_informers (cw_cache w1) = [(widgetGVK, 0)]"
    using st r by (simp add: cache_Start_def Let_def widgetWorld_simps cache_startInformer_def)
  obtain k where k: "caught_up (memStore testScheme) ((watch_step (memStore testScheme) plainLib Proceed ^^ k) (s1, i1, l1))"
    using memwatch.catches_up [OF inv(1), of plainLib] inv(2) widget_setup by (auto simp: informer_setup_def)
  obtain s i l where step: "(watch_step (memStore testScheme) plainLib Proceed ^^ k) (s1, i1, l1) = (s, i, l)"
    by (rule prod_cases3)
  let ?w = "(cache_loopStep (memStore testScheme) plainLib 0 Proceed ^^ k) w1"
  note run = loopSteps [OF w1(4) step [folded w1(2,3)] refl]
  have "sys_run testScheme plainLib (replicate k (Loop Proceed)) (s1, i1, l1) = (cw_store ?w, c_heap (cw_cache ?w) 0, l)"
    using step run by (simp add: sys_run_proceeds)
  then have "runs_over_memory testScheme plainLib widgetGVK ''storetest.testWidget'' plainConfig 0 ?w"
    unfolding runs_over_memory_def using run w1(5) widget_setup store1(1) st [unfolded r] sys_run_allowed_proceeds
    by auto blast
  moreover have "caught_up (memStore testScheme) (cw_store ?w, c_heap (cw_cache ?w) 0, the (cw_loops ?w 0))"
    using k step run by simp
  ultimately show ?thesis by blast
qed


text \<open>
  C23. \<open>RemoveInformer\<close> does not end the goroutine that watches for the informer: it stops the
  watcher and drops the informer from the map, but the goroutine takes the closed channel for an
  interruption, opens a new watch on the store and keeps the dropped informer up to date until the
  context of \<open>Start\<close> ends.
\<close>

theorem cache_remove_keeps_watching:
  assumes "runs_over_memory sch al gvk ty cfg n w" and "al_GVKForObject al (GoType obj) = Inr gvk"
    and "cache_RemoveInformer (memStore sch) al obj w = (w1, e)"
  shows "map_of (c_informers (cw_cache w1)) gvk = None \<and> i_stopped (c_heap (cw_cache w1) n) \<and>
    (\<exists>k w2. w2 = (cache_loopStep (memStore sch) al n Proceed ^^ k) w1 \<and>
       caught_up (memStore sch) (cw_store w2, c_heap (cw_cache w2) n, the (cw_loops w2 n)) \<and>
       inf_view (c_heap (cw_cache w2) n) = project cfg (mem_view (cw_store w2) gvk))"
proof -
  let ?s = "cw_store w" and ?i = "c_heap (cw_cache w) n"
  obtain l where l: "cw_loops w n = Some l" "wl_phase l \<noteq> Returned" "mem_cache_inv sch gvk ty cfg (?s, ?i, l)"
    using assms(1) by (rule runs_over_memory_inv)
  have reg: "map_of (c_informers (cw_cache w)) gvk = Some n" and cfg: "informer_setup sch al gvk ty cfg"
    using assms(1) by (auto simp: runs_over_memory_def)
  define s1 where "s1 = (case i_watcher ?i of None \<Rightarrow> ?s | Some x \<Rightarrow> mem_Stop ?s x)"
  have w1: "cw_store w1 = s1" "c_heap (cw_cache w1) n = ?i\<lparr>i_stopped := True, i_queue := close (i_queue ?i)\<rparr>"
      "cw_loops w1 n = Some l" "map_of (c_informers (cw_cache w1)) gvk = None"
    using assms(2,3) reg l(1)
    by (auto simp: cache_RemoveInformer_def inf_stop_def c_removeFromMap_def Let_def s1_def split: option.splits)
  have "mem_cache_inv sch gvk ty cfg (s1, ?i, l)"
  proof (cases "i_watcher ?i")
    case None
    then show ?thesis using l(3) by (simp add: s1_def)
  next
    case (Some x)
    have "mem_ok sch gvk ty ?s" using l(3) by (simp add: watch_inv_def)
    from mem_stop_contract [OF this, of x] l(3) Some show ?thesis
      by (fastforce simp: watch_inv_def s1_def mem_subscribed_def mem_watch_ok_Stop)
  qed
  then have inv: "mem_cache_inv sch gvk ty cfg (cw_store w1, c_heap (cw_cache w1) n, l)"
    using w1(1,2) by (simp add: watch_inv_def)
  note cfgs = cfg [unfolded informer_setup_def]
  obtain k where k: "caught_up (memStore sch) ((watch_step (memStore sch) al Proceed ^^ k) (cw_store w1, c_heap (cw_cache w1) n, l))"
    using memwatch.catches_up [OF inv l(2), of al] cfgs by auto
  obtain s i l' where step: "(watch_step (memStore sch) al Proceed ^^ k) (cw_store w1, c_heap (cw_cache w1) n, l) = (s, i, l')"
    by (rule prod_cases3)
  have "mem_cache_inv sch gvk ty cfg (s, i, l')"
    using memwatch.steps_inv [OF inv, of al k] cfgs step by simp
  then have "inf_view i = project cfg (mem_view s gvk)"
    using memwatch.caught_up_view k step by fastforce
  with k step loopSteps [OF w1(3) step refl] w1(2,4) show ?thesis
    by (intro conjI exI [of _ k] exI [of _ "(cache_loopStep (memStore sch) al n Proceed ^^ k) w1"]) simp_all
qed

text \<open>Witness of C23: the widget informer, removed once it has caught up.\<close>

theorem cache_remove_keeps_watching_witness:
  "\<exists>w w1 e k w2. cache_RemoveInformer (memStore testScheme) plainLib zeroWidget w = (w1, e) \<and>
     map_of (c_informers (cw_cache w1)) widgetGVK = None \<and>
     w2 = (cache_loopStep (memStore testScheme) plainLib 0 Proceed ^^ k) w1 \<and>
     caught_up (memStore testScheme) (cw_store w2, c_heap (cw_cache w2) 0, the (cw_loops w2 0))"
proof -
  obtain w where w: "runs_over_memory testScheme plainLib widgetGVK ''storetest.testWidget'' plainConfig 0 w"
    using widget_caught_up by blast
  have "al_GVKForObject plainLib (GoType zeroWidget) = Inr widgetGVK" by (simp add: plainLib_def zeroWidget_def)
  from cache_remove_keeps_watching [OF w this prod.collapse [symmetric]] show ?thesis
    by (metis prod.collapse)
qed

end
