(* ===== verification/Client.thy ===== *)
theory Client
  imports Informer Memory_Props
begin

text \<open>
  The client of \<open>client.go\<close>: \<open>client.Client\<close> of controller-runtime over any \<open>Store\<close>. Reads and plain
  writes go to the store as they are; \<open>Patch\<close>, \<open>DeleteAllOf\<close> and the status writer are built from
  several store calls. The JSON patch library is a parameter.
\<close>

section \<open>Patches\<close>

text \<open>
  A document that the patch library returns: one that describes an object, or one that
  \<open>json.Unmarshal\<close> refuses with an error.
\<close>

datatype json_doc = ObjectDoc rawmap | BadDoc error

text \<open>\<open>DecodePatch\<close>, \<open>Apply\<close> and \<open>MergePatch\<close> of \<open>github.com/evanphx/json-patch\<close>.\<close>

record ('p, 'j) jsonpatch =
  jp_DecodePatch :: "'p \<Rightarrow> error + 'j"
  jp_Apply :: "'j \<Rightarrow> rawmap \<Rightarrow> error + json_doc"
  jp_MergePatch :: "rawmap \<Rightarrow> 'p \<Rightarrow> error + json_doc"

text \<open>\<open>client.Patch\<close>: the type of a patch and the bytes it makes for an object.\<close>

record 'p Patch =
  p_Type :: string
  p_Data :: "object \<Rightarrow> error + 'p"

definition JSONPatchType :: string where
  "JSONPatchType = ''application/json-patch+json''"

definition MergePatchType :: string where
  "MergePatchType = ''application/merge-patch+json''"

definition StrategicMergePatchType :: string where
  "StrategicMergePatchType = ''application/strategic-merge-patch+json''"

definition applyPatch :: "('p, 'j) jsonpatch \<Rightarrow> string \<Rightarrow> rawmap \<Rightarrow> 'p \<Rightarrow> error + json_doc" where
  "applyPatch lib ty currentBytes patchBytes =
     (if ty = JSONPatchType then
        (case jp_DecodePatch lib patchBytes of
           Inl e \<Rightarrow> Inl e
         | Inr jp \<Rightarrow> jp_Apply lib jp currentBytes)
      else if ty = MergePatchType \<or> ty = StrategicMergePatchType then jp_MergePatch lib currentBytes patchBytes
      else Inl (Error (''unsupported patch type: '' @ ty)))"

text \<open>
  The object that a patch hands to the store, or the error before that. The three \<open>Patch\<close> methods
  share these steps: the bytes of the patch, the current object read into a copy of the argument,
  the patched document, and that document decoded into the argument.
\<close>

definition patchedObject ::
  "'s Store \<Rightarrow> scheme \<Rightarrow> ('p, 'j) jsonpatch \<Rightarrow> 's \<Rightarrow> object \<Rightarrow> 'p Patch \<Rightarrow> error + object" where
  "patchedObject st sch lib s obj patch =
     (case p_Data patch obj of
        Inl e \<Rightarrow> Inl e
      | Inr patchBytes \<Rightarrow>
          (case st_Get st s (ObjectKeyFromObject obj) obj of
             (current, Some e) \<Rightarrow> Inl e
           | (current, None) \<Rightarrow>
               (case applyPatch lib (p_Type patch) (marshal Compact current) patchBytes of
                  Inl e \<Rightarrow> Inl e
                | Inr (BadDoc e) \<Rightarrow> Inl e
                | Inr (ObjectDoc patchedBytes) \<Rightarrow> unmarshalInto sch patchedBytes obj)))"

section \<open>The client\<close>

definition client_Get :: "'s Store \<Rightarrow> 's \<Rightarrow> ObjectKey \<Rightarrow> object \<Rightarrow> object \<times> error option" where
  "client_Get st s key obj = st_Get st s key obj"

definition client_List :: "'s Store \<Rightarrow> 's \<Rightarrow> object_list \<Rightarrow> ListOption list \<Rightarrow> 's \<times> object_list \<times> error option" where
  "client_List st s lst opts = st_List st s lst opts"

definition client_Create :: "'s Store \<Rightarrow> 's \<Rightarrow> object \<Rightarrow> 's \<times> object \<times> error option" where
  "client_Create st s obj = st_Create st s obj"

definition client_Delete :: "'s Store \<Rightarrow> 's \<Rightarrow> object \<Rightarrow> 's \<times> error option" where
  "client_Delete st s obj = st_Delete st s obj"

definition client_Update :: "'s Store \<Rightarrow> 's \<Rightarrow> object \<Rightarrow> 's \<times> object \<times> error option" where
  "client_Update st s obj = st_Update st s obj"

definition client_Patch ::
  "'s Store \<Rightarrow> scheme \<Rightarrow> ('p, 'j) jsonpatch \<Rightarrow> 's \<Rightarrow> object \<Rightarrow> 'p Patch \<Rightarrow> 's \<times> object \<times> error option" where
  "client_Patch st sch lib s obj patch =
     (case patchedObject st sch lib s obj patch of
        Inl e \<Rightarrow> (s, obj, Some e)
      | Inr patched \<Rightarrow> st_Update st s patched)"

text \<open>The loop of \<open>DeleteAllOf\<close> stops at the first error; what it deleted stays deleted.\<close>

fun deleteItems :: "'s Store \<Rightarrow> runtime_object list \<Rightarrow> 's \<Rightarrow> 's \<times> error option" where
  "deleteItems st [] s = (s, None)"
| "deleteItems st (RObject obj # items) s =
     (case st_Delete st s obj of
        (s1, Some e) \<Rightarrow> (s1, Some e)
      | (s1, None) \<Rightarrow> deleteItems st items s1)"
| "deleteItems st (RList lst # items) s = (s, Some (Error (''expected Object, got *'' @ ListType lst)))"
| "deleteItems st (ROther ty # items) s = (s, Some (Error (''expected Object, got '' @ ty)))"

definition deleteListOpts :: "ListOptions \<Rightarrow> ListOption list" where
  "deleteListOpts lo =
     (if lo_Namespace lo \<noteq> [] then [InNamespace (lo_Namespace lo)] else []) @
     (case lo_LabelSelector lo of None \<Rightarrow> [] | Some sel \<Rightarrow> [MatchingLabelsSelector sel]) @
     (case lo_FieldSelector lo of None \<Rightarrow> [] | Some sel \<Rightarrow> [MatchingFieldsSelector sel])"

definition client_DeleteAllOf ::
  "'s Store \<Rightarrow> scheme \<Rightarrow> apilib \<Rightarrow> 's \<Rightarrow> object \<Rightarrow> ListOption list \<Rightarrow> 's \<times> error option" where
  "client_DeleteAllOf st sch al s obj opts =
     (case al_GVKForObject al (GoType obj) of
        Inl e \<Rightarrow> (s, Some e)
      | Inr gvk \<Rightarrow>
          (case sch_New sch (gvk\<lparr>Kind := Kind gvk @ ''List''\<rparr>) of
             Inl e \<Rightarrow> (s, Some e)
           | Inr (RObject o1) \<Rightarrow> (s, Some (Error (''expected ObjectList, got *'' @ GoType o1)))
           | Inr (ROther ty) \<Rightarrow> (s, Some (Error (''expected ObjectList, got '' @ ty)))
           | Inr (RList listObj) \<Rightarrow>
               (case st_List st s listObj (deleteListOpts (applyListOptions opts)) of
                  (s1, lst, Some e) \<Rightarrow> (s1, Some e)
                | (s1, lst, None) \<Rightarrow>
                    (case al_ExtractList al lst of
                       Inl e \<Rightarrow> (s1, Some e)
                     | Inr items \<Rightarrow> deleteItems st items s1))))"

definition client_GroupVersionKindFor :: "apilib \<Rightarrow> object \<Rightarrow> error + GroupVersionKind" where
  "client_GroupVersionKindFor al obj = al_GVKForObject al (GoType obj)"

definition client_IsObjectNamespaced :: "object \<Rightarrow> bool \<times> error option" where
  "client_IsObjectNamespaced obj = (True, None)"

definition client_Apply :: "error option" where
  "client_Apply = Some (Error ''apply not supported'')"

section \<open>Subresources\<close>

definition status_Create :: "'s \<Rightarrow> object \<Rightarrow> 's \<times> object \<times> error option" where
  "status_Create s obj = (s, obj, Some (Error ''subresource creation not supported''))"

definition status_Update :: "'s Store \<Rightarrow> 's \<Rightarrow> object \<Rightarrow> 's \<times> object \<times> error option" where
  "status_Update st s obj = st_UpdateStatus st s obj"

definition status_Patch ::
  "'s Store \<Rightarrow> scheme \<Rightarrow> ('p, 'j) jsonpatch \<Rightarrow> 's \<Rightarrow> object \<Rightarrow> 'p Patch \<Rightarrow> 's \<times> object \<times> error option" where
  "status_Patch st sch lib s obj patch =
     (case patchedObject st sch lib s obj patch of
        Inl e \<Rightarrow> (s, obj, Some e)
      | Inr patched \<Rightarrow> st_UpdateStatus st s patched)"

record storeSubResourceClient =
  unsupported :: bool

definition client_SubResource :: "string \<Rightarrow> storeSubResourceClient" where
  "client_SubResource subResource =
     (if subResource = ''status'' then \<lparr>unsupported = False\<rparr> else \<lparr>unsupported = True\<rparr>)"

definition sub_Get :: "storeSubResourceClient \<Rightarrow> 's \<Rightarrow> object \<Rightarrow> 's \<times> object \<times> error option" where
  "sub_Get c s obj =
     (if unsupported c then (s, obj, Some (Error ''subresource not supported''))
      else (s, obj, Some (Error ''subresource Get not supported'')))"

definition sub_Create :: "storeSubResourceClient \<Rightarrow> 's \<Rightarrow> object \<Rightarrow> 's \<times> object \<times> error option" where
  "sub_Create c s obj = (s, obj, Some (Error ''subresource creation not supported''))"

definition sub_Update :: "'s Store \<Rightarrow> storeSubResourceClient \<Rightarrow> 's \<Rightarrow> object \<Rightarrow> 's \<times> object \<times> error option" where
  "sub_Update st c s obj =
     (if unsupported c then (s, obj, Some (Error ''subresource not supported''))
      else st_UpdateStatus st s obj)"

definition sub_Patch ::
  "'s Store \<Rightarrow> scheme \<Rightarrow> ('p, 'j) jsonpatch \<Rightarrow> storeSubResourceClient \<Rightarrow> 's \<Rightarrow> object \<Rightarrow> 'p Patch \<Rightarrow> 's \<times> object \<times> error option" where
  "sub_Patch st sch lib c s obj patch =
     (if unsupported c then (s, obj, Some (Error ''subresource not supported''))
      else case patchedObject st sch lib s obj patch of
             Inl e \<Rightarrow> (s, obj, Some e)
           | Inr patched \<Rightarrow> st_UpdateStatus st s patched)"

end
