(* ===== verification/Client_Props.thy ===== *)
theory Client_Props
  imports Client Cache_Memory
begin

text \<open>
  What the client promises over the memory store: patches with optimistic locking, status
  patches that leave the rest of every object alone, and \<open>DeleteAllOf\<close> that deletes the
  selection.
\<close>

section \<open>Patches\<close>

text \<open>The document that the patch applies to carries the stored resource version.\<close>

lemma mem_Get_rv:
  assumes "mem_inv sch s" and "mem_gvkForObject sch obj = Inr gvk" and "mem_Get sch s key obj = (current, None)"
  obtains stored where "mem_view s gvk key = Some stored" and "GetResourceVersion current = GetResourceVersion stored"
proof -
  from assms(2,3) obtain stored where st: "mem_view s gvk key = Some stored" "mem_copyObject sch stored obj = Inr current"
    by (auto simp: mem_Get_view mem_copyBack_def split: option.splits sum.splits)
  have "mem_obj_ok sch (revision s) gvk key stored" using assms(1) st(1) by (rule mem_view_Some)
  then have "GetResourceVersion stored \<noteq> []" by (auto simp: mem_obj_ok_def)
  then have "GetResourceVersion current = GetResourceVersion stored"
    using unmarshalInto_Inr(2) [of sch "marshal Compact stored" obj current] st(2)
    by (simp add: mem_copyObject_def meta_into_def)
  with st(1) show thesis by (rule that)
qed

lemma patched_rv:
  assumes "patchedObject st sch lib s obj patch = Inr patched" and "p_Data patch obj = Inr bytes"
    and "st_Get st s (ObjectKeyFromObject obj) obj = (current, None)"
    and "applyPatch lib (p_Type patch) (marshal Compact current) bytes = Inr (ObjectDoc doc)"
  shows "GetResourceVersion patched = keep [] (ResourceVersion (rm_Meta doc)) (GetResourceVersion obj)"
    and "GoType patched = GoType obj"
  using assms unmarshalInto_Inr(1,2) [of sch doc obj patched]
  by (auto simp: patchedObject_def meta_into_def)


text \<open>
  A patch library for the witnesses: its patches are fields that replace the top-level fields of the document, as a
  merge patch does with values that are not objects.
\<close>

definition fieldPatchLib :: "((string, RawMessage) fmap, unit) jsonpatch" where
  "fieldPatchLib =
     \<lparr>jp_DecodePatch = (\<lambda>_. Inl (Error ''not a JSON patch'')), jp_Apply = (\<lambda>_ doc. Inr (ObjectDoc doc)),
      jp_MergePatch = (\<lambda>doc fields. Inr (ObjectDoc (doc\<lparr>rm_Body := fmadd (rm_Body doc) fields\<rparr>)))\<rparr>"

definition redPatch :: "(string, RawMessage) fmap Patch" where
  "redPatch = \<lparr>p_Type = MergePatchType,
     p_Data = (\<lambda>_. Inr (fmap_of_list [(''spec'', (Compact, testWidgetSpec ''red'' 1))]))\<rparr>"

lemma get_created1: "mem_Get testScheme store1 key1 created1 = (created1, None)"
  using unmarshalInto_marshal_self [OF testWidget_full_doc testWidget_decodable, of created1 Compact]
  by (simp add: mem_Get_view store1(3) mem_copyBack_def mem_copyObject_def)

definition redDoc :: rawmap where
  "redDoc = (marshal Compact created1)
     \<lparr>rm_Body := fmadd (fmmap (Pair Compact) (Body created1)) (fmap_of_list [(''spec'', (Compact, testWidgetSpec ''red'' 1))])\<rparr>"

lemma applyPatch_red: "applyPatch fieldPatchLib (p_Type redPatch) (marshal Compact created1)
    (fmap_of_list [(''spec'', (Compact, testWidgetSpec ''red'' 1))]) = Inr (ObjectDoc redDoc)"
  by (simp add: applyPatch_def fieldPatchLib_def redPatch_def redDoc_def JSONPatchType_def MergePatchType_def)

lemma redDoc_decodes: "\<exists>p. unmarshalInto testScheme redDoc created1 = Inr p"
proof -
  have "struct_ok specZeros (fmlookup (rm_Body redDoc) ''spec'')"
    by (simp add: redDoc_def struct_ok_def specZeros_def testWidgetSpec_def)
  moreover have "struct_ok statusZeros (fmlookup (rm_Body redDoc) ''status'')"
    by (simp add: redDoc_def struct_ok_def statusZeros_def testWidgetStatus_def)
  ultimately have "decodable testScheme (GoType created1) (rm_Body redDoc)"
    by (simp add: decodable_def testScheme_def)
  then show ?thesis by (rule unmarshalInto_decodable)
qed

lemma patched_red:
  "patchedObject (memStore testScheme) testScheme fieldPatchLib store1 created1 redPatch = unmarshalInto testScheme redDoc created1"
  using get_created1 applyPatch_red by (simp add: patchedObject_def) (simp add: redPatch_def)


text \<open>What a write of the status may do to one entry of the store: nothing but change the status.\<close>

definition only_status :: "object option \<Rightarrow> object option \<Rightarrow> bool" where
  "only_status before after =
     (case (before, after) of
        (None, None) \<Rightarrow> True
      | (Some old, Some new) \<Rightarrow>
          GetUID new = GetUID old \<and> GetGeneration new = GetGeneration old \<and>
          (\<forall>f j. f \<noteq> ''status'' \<longrightarrow> fmlookup (Body old) f = Some j \<longrightarrow> fmlookup (Body new) f = Some j)
      | _ \<Rightarrow> False)"

lemma only_status_refl [simp]: "only_status v v"
  by (simp add: only_status_def split: option.split)

lemma mem_UpdateStatus_frame:
  assumes "mem_inv sch s" and "revision s < MaxInt64"
    and full: "\<forall>gvk k o1. mem_view s gvk k = Some o1 \<longrightarrow> full_doc sch o1"
    and ty: "\<forall>gvk k o1. mem_view s gvk k = Some o1 \<longrightarrow> mem_gvkForObject sch obj = Inr gvk \<longrightarrow> GoType o1 = GoType obj"
    and "s' = fst (mem_UpdateStatus sch s obj)"
  shows "only_status (mem_view s gvk k) (mem_view s' gvk k)"
proof -
  show ?thesis
  proof (cases "mem_gvkForObject sch obj")
    case (Inl e)
    with assms(5) mem_write_gvk_error(3) [OF Inl] show ?thesis by simp
  next
    case g: (Inr g)
    show ?thesis
    proof (cases "mem_view s g (ObjectKeyFromObject obj)")
      case None
      with assms(5) mem_write_not_found(2) [OF g] show ?thesis by simp
    next
      case stored: (Some stored)
      show ?thesis
      proof (cases "GetResourceVersion obj = GetResourceVersion stored")
        case False
        with assms(5) mem_write_conflict(2) [OF g stored] show ?thesis by simp
      next
        case rv: True
        show ?thesis
        proof (cases "mem_mergedStatus sch stored obj")
          case (Inl e)
          with assms(5) mem_update_decode_error(2) [OF g stored rv] show ?thesis by simp
        next
          case merged: (Inr m)
          let ?new = "SetResourceVersion (FormatInt (revision s + 1)) m"
          note eqs = mem_UpdateStatus_eq [OF assms(1,2) g stored rv merged]
          show ?thesis
          proof (cases "mem_contentEqual stored m")
            case True
            with assms(5) eqs(1) show ?thesis by simp
          next
            case False
            then have "mem_commit s s' g \<lparr>ev_Type = EventModified, ev_Object = ?new\<rparr>"
              using eqs(2) assms(5) by auto
            note view = mem_commit_put(3) [OF this]
            have "mem_obj_ok sch (revision s) g (ObjectKeyFromObject obj) stored"
              using assms(1) stored by (rule mem_view_Some)
            then have keys: "ObjectKeyFromObject stored = ObjectKeyFromObject obj" by (simp add: mem_obj_ok_def)
            have "ObjectKeyFromObject ?new = ObjectKeyFromObject obj"
              using mem_mergedStatus_key [OF merged keys] by simp
            moreover have "GetUID ?new = GetUID stored" "GetGeneration ?new = GetGeneration stored"
              using merged by (auto elim: mem_mergedStatus_Inr)
            moreover have "fmlookup (Body ?new) f = Some j"
              if "f \<noteq> ''status''" "fmlookup (Body stored) f = Some j" for f j
              using merged
            proof (rule mem_mergedStatus_Inr)
              fix o1 assume o1: "unmarshalInto sch (mem_mergeStatus (marshal Compact stored) (marshal Compact obj)) obj = Inr o1"
                and m: "m = SetGeneration (GetGeneration stored) (SetUID (GetUID stored) (SetResourceVersion (GetResourceVersion stored) o1))"
              have "fmlookup (rm_Body (mem_mergeStatus (marshal Compact stored) (marshal Compact obj))) f = Some (Compact, j)"
                using that by (simp add: mem_mergeStatus_def split: option.split)
              moreover have "sch_unmarshal sch (GoType obj) f j old = j" for old
                using full ty stored g that(2) by (metis full_doc_def)
              ultimately show ?thesis using unmarshalInto_Inr(3) [OF o1, of f] by (simp add: m)
            qed
            ultimately show ?thesis
              using stored by (simp add: view) (simp add: only_status_def)
          qed
        qed
      qed
    qed
  qed
qed



section \<open>Labels that a patch cannot remove\<close>

text \<open>
  A patch cannot remove a label that the caller's object has. The patched document is decoded
  into the caller's object, and decoding into a Go map keeps the entries that the document lacks:
  whatever the store, the patch and the patch library, the object that \<open>Patch\<close> hands to the store
  still has the label.
\<close>

theorem client_patch_keeps_labels:
  assumes "patchedObject st sch lib s obj patch = Inr patched" and "fmlookup (GetLabels obj) l \<noteq> None"
  shows "fmlookup (GetLabels patched) l \<noteq> None \<and> client_Patch st sch lib s obj patch = st_Update st s patched"
proof -
  from assms(1) obtain doc where "unmarshalInto sch doc obj = Inr patched"
    by (auto simp: patchedObject_def split: sum.splits prod.splits option.splits json_doc.splits)
  from unmarshalInto_Inr(2) [OF this] assms show ?thesis
    by (auto simp: client_Patch_def meta_into_def)
qed

definition unlabelLib :: "((string, RawMessage) fmap, unit) jsonpatch" where
  "unlabelLib = fieldPatchLib\<lparr>jp_MergePatch := (\<lambda>doc _. Inr (ObjectDoc (doc\<lparr>rm_Meta := (rm_Meta doc)\<lparr>Labels := fmempty\<rparr>\<rparr>)))\<rparr>"

definition labelled1 :: object where
  "labelled1 = created1\<lparr>Meta := (Meta created1)\<lparr>Labels := fmap_of_list [(''team'', ''a'')]\<rparr>\<rparr>"

text \<open>The patch drops all labels, the caller's label stays.\<close>

theorem client_patch_keeps_labels_witness:
  "\<exists>patched. patchedObject (memStore testScheme) testScheme unlabelLib store1 labelled1 redPatch = Inr patched \<and>
     fmlookup (GetLabels patched) ''team'' \<noteq> None"
proof -
  have ty: "GoType labelled1 = ''storetest.testWidget''" and body: "Body labelled1 = Body created1"
    and key: "ObjectKeyFromObject labelled1 = key1"
    using created1_simps(3) by (simp_all add: labelled1_def ObjectKeyFromObject_def)
  have dec: "decodable testScheme ''storetest.testWidget'' (fmmap (Pair Compact) (Body created1))"
    using testWidget_decodable [OF created1_simps(4)] by simp
  then obtain current where cur: "unmarshalInto testScheme (marshal Compact created1) labelled1 = Inr current"
    using unmarshalInto_decodable [of testScheme labelled1 "marshal Compact created1"] ty by auto
  have "Body current = Body created1"
    using testWidget_full_doc [OF created1_simps(4)] _ _ cur
    by (rule unmarshalInto_full_body) (simp_all add: ty body)
  with dec obtain patched where p: "unmarshalInto testScheme
      ((marshal Compact current)\<lparr>rm_Meta := (Meta current)\<lparr>Labels := fmempty\<rparr>\<rparr>) labelled1 = Inr patched"
    using unmarshalInto_decodable [of testScheme labelled1
        "(marshal Compact current)\<lparr>rm_Meta := (Meta current)\<lparr>Labels := fmempty\<rparr>\<rparr>"] ty by auto
  have "mem_Get testScheme store1 key1 labelled1 = (current, None)"
    using cur by (simp add: mem_Get_view ty store1(3) mem_copyBack_def mem_copyObject_def)
  then have po: "patchedObject (memStore testScheme) testScheme unlabelLib store1 labelled1 redPatch = Inr patched"
    using p by (simp add: patchedObject_def key applyPatch_def unlabelLib_def redPatch_def JSONPatchType_def MergePatchType_def)
  moreover have "fmlookup (GetLabels labelled1) ''team'' \<noteq> None" by (simp add: labelled1_def)
  note client_patch_keeps_labels [OF po this]
  ultimately show ?thesis by simp
qed

section \<open>Deleting a selection\<close>

lemma mem_deleteItems:
  assumes "mem_inv sch s" and "revision s + int (length items) \<le> MaxInt64"
    and "distinct (map ObjectKeyFromObject items)"
    and "\<forall>o1 \<in> set items. mem_view s gvk (ObjectKeyFromObject o1) = Some o1"
  shows "\<exists>s'. deleteItems (memStore sch) (map RObject items) s = (s', None) \<and> mem_inv sch s' \<and>
    mem_view s' = (mem_view s)(gvk := (\<lambda>k. if k \<in> ObjectKeyFromObject ` set items then None else mem_view s gvk k))"
  using assms
proof (induction items arbitrary: s)
  case Nil
  then show ?case by simp
next
  case (Cons o1 items)
  have o1: "mem_view s gvk (ObjectKeyFromObject o1) = Some o1" using Cons.prems(4) by simp
  have "mem_obj_ok sch (revision s) gvk (ObjectKeyFromObject o1) o1" using Cons.prems(1) o1 by (rule mem_view_Some)
  then have g: "mem_gvkForObject sch o1 = Inr gvk" by (simp add: mem_obj_ok_def)
  have "revision s < MaxInt64" using Cons.prems(2) by simp
  then obtain s1 where s1: "mem_Delete sch s o1 = (s1, None)" "mem_inv sch s1"
      "mem_commit s s1 gvk \<lparr>ev_Type = EventDeleted, ev_Object = SetResourceVersion (FormatInt (revision s + 1)) o1\<rparr>"
    using mem_Delete_commit [OF Cons.prems(1) _ g o1] by blast
  then have view: "mem_view s1 = (mem_view s)(gvk := (mem_view s gvk)(ObjectKeyFromObject o1 := None))"
      and rev: "revision s1 = revision s + 1"
    by (simp_all add: mem_commit_def apply_event_cases)
  have "\<forall>x \<in> set items. mem_view s1 gvk (ObjectKeyFromObject x) = Some x"
  proof
    fix x assume x: "x \<in> set items"
    then have "ObjectKeyFromObject x \<noteq> ObjectKeyFromObject o1" using Cons.prems(3) by (metis distinct.simps(2) image_eqI list.map(2) set_map)
    then show "mem_view s1 gvk (ObjectKeyFromObject x) = Some x" using Cons.prems(4) x by (simp add: view)
  qed
  moreover have "revision s1 + int (length items) \<le> MaxInt64" "distinct (map ObjectKeyFromObject items)"
    using Cons.prems(2,3) rev by simp_all
  ultimately obtain s' where
    "deleteItems (memStore sch) (map RObject items) s1 = (s', None)" "mem_inv sch s'"
    "mem_view s' = (mem_view s1)(gvk := (\<lambda>k. if k \<in> ObjectKeyFromObject ` set items then None else mem_view s1 gvk k))"
    using Cons.IH [OF s1(2)] by blast
  moreover have "(mem_view s1)(gvk := (\<lambda>k. if k \<in> ObjectKeyFromObject ` set items then None else mem_view s1 gvk k)) =
      (mem_view s)(gvk := (\<lambda>k. if k \<in> ObjectKeyFromObject ` set (o1 # items) then None else mem_view s gvk k))"
    by (rule ext) (simp add: view fun_eq_iff)
  ultimately show ?case using s1(1) by (intro exI [of _ s'] conjI) simp_all
qed

text \<open>
  C26. \<open>DeleteAllOf\<close> over the memory store, undisturbed, succeeds and deletes exactly the objects of
  the kind that are in the given namespace (if one is given) and match the label selector (if one is given). A field
  selector makes no difference: \<open>List\<close> of the store ignores it, so objects that do not match it are
  deleted too.
\<close>

theorem client_deleteAllOf_exact:
  assumes "mem_inv sch s" and "al_GVKForObject al (GoType obj) = Inr gvk"
    and "sch_New sch (gvk\<lparr>Kind := Kind gvk @ ''List''\<rparr>) = Inr (RList lst)"
    and "mem_gvkForList sch lst = Inr gvk" and "sch_itemsField sch (ListType lst) = ItemsOf ty"
    and "\<forall>k o1. mem_view s gvk k = Some o1 \<longrightarrow> GoType o1 = ty" and "extracts_items al"
    and "revision s + int (card (dom (mem_view s gvk))) \<le> MaxInt64"
    and "lo = applyListOptions opts"
  shows "\<exists>s'. client_DeleteAllOf (memStore sch) sch al s obj opts = (s', None) \<and> mem_inv sch s' \<and>
    (\<forall>g k. mem_view s' g k =
       (case mem_view s g k of
          None \<Rightarrow> None
        | Some o1 \<Rightarrow>
            if g = gvk \<and> (lo_Namespace lo \<noteq> [] \<longrightarrow> key_Namespace k = lo_Namespace lo) \<and>
               (case lo_LabelSelector lo of None \<Rightarrow> True | Some sel \<Rightarrow> sel_Matches sel (GetLabels o1))
            then None else Some o1))"
proof -
  have lo: "lo_Namespace (applyListOptions (deleteListOpts lo)) = lo_Namespace lo"
      "lo_LabelSelector (applyListOptions (deleteListOpts lo)) = lo_LabelSelector lo"
    by (simp_all add: applyListOptions_def deleteListOpts_def emptyListOptions_def split: option.split)
  let ?match = "\<lambda>k o1. (lo_Namespace lo \<noteq> [] \<longrightarrow> key_Namespace k = lo_Namespace lo) \<and>
      (case lo_LabelSelector lo of None \<Rightarrow> True | Some sel \<Rightarrow> sel_Matches sel (GetLabels o1))"
  obtain out where out: "mem_List sch s lst (deleteListOpts lo) = (out, None)" "distinct (map ObjectKeyFromObject (Items out))"
      "set (Items out) = {o1. \<exists>k. mem_view s gvk k = Some o1 \<and> ?match k o1}"
    using mem_list_items [OF assms(1,4,5,6) refl, of "deleteListOpts lo"] lo by auto
  have key: "ObjectKeyFromObject o1 = k" if "mem_view s gvk k = Some o1" for k o1
  proof -
    have "mem_obj_ok sch (revision s) gvk k o1" using assms(1) that by (rule mem_view_Some)
    then show ?thesis by (simp add: mem_obj_ok_def)
  qed
  have items: "\<forall>o1 \<in> set (Items out). mem_view s gvk (ObjectKeyFromObject o1) = Some o1"
    using key by (auto simp: out(3))
  have "ObjectKeyFromObject ` set (Items out) \<subseteq> dom (mem_view s gvk)" using items by auto
  moreover have "finite (dom (mem_view s gvk))"
    by (simp add: mem_view_def finite_dom_map_of split: option.split)
  ultimately have "length (Items out) \<le> card (dom (mem_view s gvk))"
    using out(2) by (metis card_mono distinct_card length_map set_map)
  with assms(8) have "revision s + int (length (Items out)) \<le> MaxInt64" by simp
  from mem_deleteItems [OF assms(1) this out(2) items] obtain s' where
    s': "deleteItems (memStore sch) (map RObject (Items out)) s = (s', None)" "mem_inv sch s'"
      "mem_view s' = (mem_view s)(gvk := (\<lambda>k. if k \<in> ObjectKeyFromObject ` set (Items out) then None else mem_view s gvk k))"
    by blast
  have "k \<in> ObjectKeyFromObject ` set (Items out) \<longleftrightarrow> (\<exists>o1. mem_view s gvk k = Some o1 \<and> ?match k o1)" for k
    using key by (auto simp: out(3) image_iff)
  with s' show ?thesis
    using assms(2,3,7,9) out(1)
    by (auto simp: client_DeleteAllOf_def extracts_items_def split: option.split)
qed

text \<open>Witness of C26: all widgets of the namespace default.\<close>

theorem client_deleteAllOf_exact_witness:
  "\<exists>s'. client_DeleteAllOf (memStore testScheme) testScheme plainLib store1 widget1 [InNamespace ''default''] = (s', None) \<and>
     mem_view s' widgetGVK key1 = None"
proof -
  have "sch_New testScheme (widgetGVK\<lparr>Kind := Kind widgetGVK @ ''List''\<rparr>) = Inr (RList zeroWidgetList)"
    by (simp add: testScheme_def widgetGVK_def)
  moreover have "sch_itemsField testScheme (ListType zeroWidgetList) = ItemsOf ''storetest.testWidget''"
    by (simp add: testScheme_def zeroWidgetList_def)
  moreover have "\<forall>k o1. mem_view store1 widgetGVK k = Some o1 \<longrightarrow> GoType o1 = ''storetest.testWidget''"
    by (simp add: store1(4))
  moreover have "revision store1 + int (card (dom (mem_view store1 widgetGVK))) \<le> MaxInt64"
    by (simp add: store1(2,4) MaxInt64_def)
  moreover have "al_GVKForObject plainLib (GoType widget1) = Inr widgetGVK" by (simp add: plainLib_def)
  moreover have "extracts_items plainLib" using widget_setup by (simp add: informer_setup_def)
  moreover have "key_Namespace key1 = ''default''"
    by (simp add: widget1_def newTestWidget_def zeroWidget_def ObjectKeyFromObject_def)
  ultimately show ?thesis
    using client_deleteAllOf_exact [OF store1(1) _ _ gvk_widget(2) _ _ _ _ refl, of plainLib widget1 "''storetest.testWidget''" "[InNamespace ''default'']"]
    by (auto simp: store1(3) applyListOptions_def emptyListOptions_def)
qed

section \<open>Subresources\<close>

text \<open>
  \<open>SubResource("status")\<close> writes exactly as \<open>Status()\<close> does. Every other subresource, and every
  read or creation of one, is refused without touching the store or the caller's object.
\<close>

lemma client_subresources:
  "sub_Update st (client_SubResource ''status'') = status_Update st \<and>
   sub_Patch st sch lib (client_SubResource ''status'') = status_Patch st sch lib \<and>
   (\<exists>e. sub_Get (client_SubResource name) s obj = (s, obj, Some (Error e))) \<and>
   (\<exists>e. sub_Create (client_SubResource name) s obj = (s, obj, Some (Error e)) \<and> status_Create s obj = (s, obj, Some (Error e))) \<and>
   (if name = ''status'' then True
    else sub_Update st (client_SubResource name) s obj = (s, obj, Some (Error ''subresource not supported'')) \<and>
         sub_Patch st sch lib (client_SubResource name) s obj patch = (s, obj, Some (Error ''subresource not supported'')))"
  by (auto simp: fun_eq_iff client_SubResource_def sub_Update_def sub_Patch_def status_Update_def status_Patch_def
      sub_Get_def sub_Create_def status_Create_def)

end
