(* ===== verification/Conformance_Suite.thy ===== *)
theory Conformance_Suite
  imports Conformance_Types "HOL-Library.Monad_Syntax"
begin

text \<open>
  The conformance suite of \<open>storetest/storetest.go\<close> as executable scripts over any \<open>Store\<close>: the
  configuration, the helpers, and the subtests of \<open>Create\<close>, \<open>Get\<close>, \<open>Update\<close>, \<open>Delete\<close>, \<open>List\<close>,
  \<open>UpdateStatus\<close>, \<open>Generation\<close> and the sequential ones of \<open>SpecStatusSplit\<close>.

  A script runs in the option monad with the state of the store passed along. \<open>None\<close> is a subtest
  that fails: \<open>t.Fatal\<close>, \<open>t.Error\<close>, a panic, or a loop that never ends (\<open>t.Error\<close> goes on to the
  next check, which can only fail the subtest again). A subtest that is skipped passes. A deferred
  \<open>Stop\<close> runs after the last check and is left out. A receive with a timeout is one receive: the
  timeout is what happens when the channel has nothing to give.
\<close>

section \<open>Configuration\<close>

text \<open>A store under test: its methods and its initial state.\<close>

record 's Config =
  NewStore :: "scheme \<Rightarrow> 's Store \<times> 's"
  NewSmallEventLogStore :: "(scheme \<Rightarrow> 's Store \<times> 's) option"
  SkipWatchOverflow :: bool
  SkipWatchEventHistory :: bool
  SkipConcurrencyWatchCount :: bool
  SkipGlobalRevisionMonotonicity :: bool

text \<open>
  What the suite calls of \<open>k8s.io/apimachinery\<close>: the predicates on errors of \<open>api/errors\<close>, and
  \<open>labels.Parse\<close>. \<open>apimachinery_ok\<close> is their documented behaviour as far as the suite uses it:
  the predicates look at the reason in the error's \<open>Status\<close>, and the selector \<open>color=blue\<close> matches
  the label sets that have this label.
\<close>

record apimachinery =
  IsNotFound :: "error \<Rightarrow> bool"
  IsAlreadyExists :: "error \<Rightarrow> bool"
  IsConflict :: "error \<Rightarrow> bool"
  IsGone :: "error \<Rightarrow> bool"
  labels_Parse :: "string \<Rightarrow> error + label_selector"

definition has_reason :: "StatusReason \<Rightarrow> error \<Rightarrow> bool" where
  "has_reason r e = (case error_Status e of Some st \<Rightarrow> Reason st = r | None \<Rightarrow> False)"

definition apimachinery_ok :: "apimachinery \<Rightarrow> bool" where
  "apimachinery_ok lib \<longleftrightarrow>
     (\<forall>e. IsNotFound lib e = has_reason ReasonNotFound e) \<and>
     (\<forall>e. IsAlreadyExists lib e = has_reason ReasonAlreadyExists e) \<and>
     (\<forall>e. IsConflict lib e = has_reason ReasonConflict e) \<and>
     (\<forall>e. IsGone lib e = has_reason ReasonGone e) \<and>
     (\<exists>sel. labels_Parse lib ''color=blue'' = Inr sel \<and>
        (\<forall>ls. sel_Matches sel ls \<longleftrightarrow> fmlookup ls ''color'' = Some ''blue''))"

section \<open>Fields of a widget\<close>

definition struct_get :: "string \<Rightarrow> string \<Rightarrow> object \<Rightarrow> json option" where
  "struct_get k f o1 = (case fmlookup (Body o1) k of Some (JObj fs) \<Rightarrow> map_of fs f | _ \<Rightarrow> None)"

definition struct_set :: "string \<Rightarrow> string \<Rightarrow> json \<Rightarrow> object \<Rightarrow> object" where
  "struct_set k f v o1 =
     (case fmlookup (Body o1) k of
        Some (JObj fs) \<Rightarrow> o1\<lparr>Body := fmupd k (JObj (AList.update f v fs)) (Body o1)\<rparr>
      | _ \<Rightarrow> o1)"

abbreviation set_Color :: "string \<Rightarrow> object \<Rightarrow> object" where
  "set_Color c \<equiv> struct_set ''spec'' ''color'' (JStr c)"

abbreviation set_Size :: "int \<Rightarrow> object \<Rightarrow> object" where
  "set_Size n \<equiv> struct_set ''spec'' ''size'' (JNum n)"

abbreviation set_Ready :: "bool \<Rightarrow> object \<Rightarrow> object" where
  "set_Ready b \<equiv> struct_set ''status'' ''ready'' (JBool b)"

abbreviation set_Phase :: "string \<Rightarrow> object \<Rightarrow> object" where
  "set_Phase p \<equiv> struct_set ''status'' ''phase'' (JStr p)"

abbreviation Color_is :: "object \<Rightarrow> string \<Rightarrow> bool" where
  "Color_is o1 c \<equiv> struct_get ''spec'' ''color'' o1 = Some (JStr c)"

abbreviation Size_is :: "object \<Rightarrow> int \<Rightarrow> bool" where
  "Size_is o1 n \<equiv> struct_get ''spec'' ''size'' o1 = Some (JNum n)"

abbreviation Ready_is :: "object \<Rightarrow> bool \<Rightarrow> bool" where
  "Ready_is o1 b \<equiv> struct_get ''status'' ''ready'' o1 = Some (JBool b)"

abbreviation Phase_is :: "object \<Rightarrow> string \<Rightarrow> bool" where
  "Phase_is o1 p \<equiv> struct_get ''status'' ''phase'' o1 = Some (JStr p)"

definition set_Labels :: "(string, string) fmap \<Rightarrow> object \<Rightarrow> object" where
  "set_Labels ls o1 = o1\<lparr>Meta := (Meta o1)\<lparr>Labels := ls\<rparr>\<rparr>"

definition set_Namespace :: "string \<Rightarrow> object \<Rightarrow> object" where
  "set_Namespace ns o1 = o1\<lparr>Meta := (Meta o1)\<lparr>Namespace := ns\<rparr>\<rparr>"

section \<open>Steps of a script\<close>

definition check :: "bool \<Rightarrow> unit option" where
  "check b = (if b then Some () else None)"

text \<open>\<open>if err := store.Create(ctx, w); err != nil { t.Fatalf(...) }\<close>, and so for the other methods.\<close>

definition mustCreate :: "'s Store \<Rightarrow> 's \<Rightarrow> object \<Rightarrow> ('s \<times> object) option" where
  "mustCreate st s w = (case st_Create st s w of (s', w', None) \<Rightarrow> Some (s', w') | _ \<Rightarrow> None)"

definition mustUpdate :: "'s Store \<Rightarrow> 's \<Rightarrow> object \<Rightarrow> ('s \<times> object) option" where
  "mustUpdate st s w = (case st_Update st s w of (s', w', None) \<Rightarrow> Some (s', w') | _ \<Rightarrow> None)"

definition mustUpdateStatus :: "'s Store \<Rightarrow> 's \<Rightarrow> object \<Rightarrow> ('s \<times> object) option" where
  "mustUpdateStatus st s w =
     (case st_UpdateStatus st s w of (s', w', None) \<Rightarrow> Some (s', w') | _ \<Rightarrow> None)"

definition mustDelete :: "'s Store \<Rightarrow> 's \<Rightarrow> object \<Rightarrow> 's option" where
  "mustDelete st s w = (case st_Delete st s w of (s', None) \<Rightarrow> Some s' | _ \<Rightarrow> None)"

definition mustGet :: "'s Store \<Rightarrow> 's \<Rightarrow> ObjectKey \<Rightarrow> object option" where
  "mustGet st s key = (case st_Get st s key zeroWidget of (got, None) \<Rightarrow> Some got | _ \<Rightarrow> None)"

definition mustList :: "'s Store \<Rightarrow> 's \<Rightarrow> ListOption list \<Rightarrow> ('s \<times> object_list) option" where
  "mustList st s opts =
     (case st_List st s zeroWidgetList opts of (s', l, None) \<Rightarrow> Some (s', l) | _ \<Rightarrow> None)"

definition mustWatch :: "'s Store \<Rightarrow> 's \<Rightarrow> ListOption list \<Rightarrow> ('s \<times> watcher_id) option" where
  "mustWatch st s opts =
     (case st_Watch st s zeroWidgetList opts of (s', Inr i) \<Rightarrow> Some (s', i) | _ \<Rightarrow> None)"

definition mustParse :: "apimachinery \<Rightarrow> string \<Rightarrow> label_selector option" where
  "mustParse lib s = (case labels_Parse lib s of Inr sel \<Rightarrow> Some sel | Inl _ \<Rightarrow> None)"

text \<open>The failing call of a subtest: its error satisfies a predicate.\<close>

definition expectError :: "error option \<Rightarrow> (error \<Rightarrow> bool) \<Rightarrow> unit option" where
  "expectError err p = (case err of Some e \<Rightarrow> check (p e) | None \<Rightarrow> None)"

fun is_NotFoundError :: "error \<Rightarrow> bool" where
  "is_NotFoundError (NotFoundError _) = True"
| "is_NotFoundError _ = False"

fun is_AlreadyExistsError :: "error \<Rightarrow> bool" where
  "is_AlreadyExistsError (AlreadyExistsError _) = True"
| "is_AlreadyExistsError _ = False"

fun is_ConflictError :: "error \<Rightarrow> bool" where
  "is_ConflictError (ConflictError _) = True"
| "is_ConflictError _ = False"

text \<open>The loop that creates the widgets \<open>prefix0\<close>, \<open>prefix1\<close>, \<dots>\<close>

fun createEach :: "'s Store \<Rightarrow> string \<Rightarrow> nat list \<Rightarrow> 's \<Rightarrow> 's option" where
  "createEach st pfx [] s = Some s"
| "createEach st pfx (i # is) s = do {
     (s, w) \<leftarrow> mustCreate st s (newTestWidget (pfx @ FormatInt (int i)) ''blue'' (int i));
     createEach st pfx is s }"

abbreviation defaultKey :: "string \<Rightarrow> ObjectKey" where
  "defaultKey name \<equiv> \<lparr>key_Namespace = ''default'', key_Name = name\<rparr>"

section \<open>Create, Get, Update, Delete\<close>

definition create_sets_UID_and_ResourceVersion :: "'s Config \<Rightarrow> unit option" where
  "create_sets_UID_and_ResourceVersion cfg =
     (case NewStore cfg testScheme of (st, s) \<Rightarrow> do {
        (s, w) \<leftarrow> mustCreate st s (newTestWidget ''w1'' ''blue'' 1);
        check (GetUID w \<noteq> []);
        check (GetResourceVersion w \<noteq> []) })"

definition create_duplicate_returns_AlreadyExistsError :: "apimachinery \<Rightarrow> 's Config \<Rightarrow> unit option" where
  "create_duplicate_returns_AlreadyExistsError lib cfg =
     (case NewStore cfg testScheme of (st, s) \<Rightarrow> do {
        (s, w) \<leftarrow> mustCreate st s (newTestWidget ''w1'' ''blue'' 1);
        let err = snd (snd (st_Create st s (newTestWidget ''w1'' ''red'' 2)));
        expectError err is_AlreadyExistsError;
        expectError err (IsAlreadyExists lib) })"

definition testCreate :: "apimachinery \<Rightarrow> 's Config \<Rightarrow> (string \<times> unit option) list" where
  "testCreate lib cfg =
     [(''sets_UID_and_ResourceVersion'', create_sets_UID_and_ResourceVersion cfg),
      (''duplicate_returns_AlreadyExistsError'', create_duplicate_returns_AlreadyExistsError lib cfg)]"

definition get_retrieves_by_key :: "'s Config \<Rightarrow> unit option" where
  "get_retrieves_by_key cfg =
     (case NewStore cfg testScheme of (st, s) \<Rightarrow> do {
        (s, w) \<leftarrow> mustCreate st s (newTestWidget ''w1'' ''blue'' 42);
        got \<leftarrow> mustGet st s (defaultKey ''w1'');
        check (Color_is got ''blue'' \<and> Size_is got 42) })"

definition get_missing_returns_NotFoundError :: "apimachinery \<Rightarrow> 's Config \<Rightarrow> unit option" where
  "get_missing_returns_NotFoundError lib cfg =
     (case NewStore cfg testScheme of (st, s) \<Rightarrow> do {
        let err = snd (st_Get st s (defaultKey ''ghost'') zeroWidget);
        expectError err is_NotFoundError;
        expectError err (IsNotFound lib) })"

definition testGet :: "apimachinery \<Rightarrow> 's Config \<Rightarrow> (string \<times> unit option) list" where
  "testGet lib cfg =
     [(''retrieves_by_key'', get_retrieves_by_key cfg),
      (''missing_returns_NotFoundError'', get_missing_returns_NotFoundError lib cfg)]"

definition update_bumps_ResourceVersion :: "'s Config \<Rightarrow> unit option" where
  "update_bumps_ResourceVersion cfg =
     (case NewStore cfg testScheme of (st, s) \<Rightarrow> do {
        (s, w) \<leftarrow> mustCreate st s (newTestWidget ''w1'' ''blue'' 1);
        let originalRV = GetResourceVersion w;
        (s, w) \<leftarrow> mustUpdate st s (set_Color ''red'' w);
        check (GetResourceVersion w \<noteq> originalRV);
        got \<leftarrow> mustGet st s (ObjectKeyFromObject w);
        check (Color_is got ''red'') })"

definition update_stale_ResourceVersion_returns_ConflictError :: "apimachinery \<Rightarrow> 's Config \<Rightarrow> unit option" where
  "update_stale_ResourceVersion_returns_ConflictError lib cfg =
     (case NewStore cfg testScheme of (st, s) \<Rightarrow> do {
        (s, w) \<leftarrow> mustCreate st s (newTestWidget ''w1'' ''blue'' 1);
        let key = ObjectKeyFromObject w;
        r1 \<leftarrow> mustGet st s key;
        r2 \<leftarrow> mustGet st s key;
        (s, r1) \<leftarrow> mustUpdate st s (set_Size 20 r1);
        let (s, r2, err) = st_Update st s (set_Size 30 r2);
        expectError err is_ConflictError;
        expectError err (IsConflict lib);
        got \<leftarrow> mustGet st s key;
        check (Size_is got 20) })"

definition update_missing_returns_NotFoundError :: "apimachinery \<Rightarrow> 's Config \<Rightarrow> unit option" where
  "update_missing_returns_NotFoundError lib cfg =
     (case NewStore cfg testScheme of (st, s) \<Rightarrow>
        expectError (snd (snd (st_Update st s (SetResourceVersion ''1'' (newTestWidget ''ghost'' ''blue'' 1)))))
          (IsNotFound lib))"

definition testUpdate :: "apimachinery \<Rightarrow> 's Config \<Rightarrow> (string \<times> unit option) list" where
  "testUpdate lib cfg =
     [(''bumps_ResourceVersion'', update_bumps_ResourceVersion cfg),
      (''stale_ResourceVersion_returns_ConflictError'', update_stale_ResourceVersion_returns_ConflictError lib cfg),
      (''missing_returns_NotFoundError'', update_missing_returns_NotFoundError lib cfg)]"

definition delete_removes_object :: "apimachinery \<Rightarrow> 's Config \<Rightarrow> unit option" where
  "delete_removes_object lib cfg =
     (case NewStore cfg testScheme of (st, s) \<Rightarrow> do {
        (s, w) \<leftarrow> mustCreate st s (newTestWidget ''w1'' ''blue'' 1);
        s \<leftarrow> mustDelete st s w;
        expectError (snd (st_Get st s (ObjectKeyFromObject w) zeroWidget)) (IsNotFound lib) })"

definition delete_missing_returns_NotFoundError :: "apimachinery \<Rightarrow> 's Config \<Rightarrow> unit option" where
  "delete_missing_returns_NotFoundError lib cfg =
     (case NewStore cfg testScheme of (st, s) \<Rightarrow> do {
        let err = snd (st_Delete st s (newTestWidget ''ghost'' ''blue'' 1));
        expectError err is_NotFoundError;
        expectError err (IsNotFound lib) })"

definition testDelete :: "apimachinery \<Rightarrow> 's Config \<Rightarrow> (string \<times> unit option) list" where
  "testDelete lib cfg =
     [(''removes_object'', delete_removes_object lib cfg),
      (''missing_returns_NotFoundError'', delete_missing_returns_NotFoundError lib cfg)]"

section \<open>List\<close>

definition list_all_objects :: "'s Config \<Rightarrow> unit option" where
  "list_all_objects cfg =
     (case NewStore cfg testScheme of (st, s) \<Rightarrow> do {
        s \<leftarrow> createEach st ''w'' [0..<3] s;
        (s, l) \<leftarrow> mustList st s [];
        check (length (Items l) = 3) })"

definition list_empty_store :: "'s Config \<Rightarrow> unit option" where
  "list_empty_store cfg =
     (case NewStore cfg testScheme of (st, s) \<Rightarrow> do {
        (s, l) \<leftarrow> mustList st s [];
        check (length (Items l) = 0) })"

definition list_by_namespace :: "'s Config \<Rightarrow> unit option" where
  "list_by_namespace cfg =
     (case NewStore cfg testScheme of (st, s) \<Rightarrow> do {
        (s, w1) \<leftarrow> mustCreate st s (set_Namespace ''ns-a'' (newTestWidget ''w1'' ''blue'' 1));
        (s, w2) \<leftarrow> mustCreate st s (set_Namespace ''ns-b'' (newTestWidget ''w2'' ''red'' 2));
        (s, l) \<leftarrow> mustList st s [InNamespace ''ns-a''];
        check (length (Items l) = 1) })"

definition list_by_label_selector :: "apimachinery \<Rightarrow> 's Config \<Rightarrow> unit option" where
  "list_by_label_selector lib cfg =
     (case NewStore cfg testScheme of (st, s) \<Rightarrow> do {
        (s, w1) \<leftarrow> mustCreate st s
          (set_Labels (fmap_of_list [(''color'', ''blue'')]) (newTestWidget ''w1'' ''blue'' 1));
        (s, w2) \<leftarrow> mustCreate st s
          (set_Labels (fmap_of_list [(''color'', ''red'')]) (newTestWidget ''w2'' ''red'' 2));
        sel \<leftarrow> mustParse lib ''color=blue'';
        (s, l) \<leftarrow> mustList st s [MatchingLabelsSelector sel];
        check (length (Items l) = 1) })"

definition list_sets_ResourceVersion_on_metadata :: "'s Config \<Rightarrow> unit option" where
  "list_sets_ResourceVersion_on_metadata cfg =
     (case NewStore cfg testScheme of (st, s) \<Rightarrow> do {
        (s, l) \<leftarrow> mustList st s [];
        check (ListResourceVersion l = ''0'');
        (s, w) \<leftarrow> mustCreate st s (newTestWidget ''w1'' ''blue'' 1);
        (s, l) \<leftarrow> mustList st s [];
        check (ListResourceVersion l = ''1'') })"

definition testList :: "apimachinery \<Rightarrow> 's Config \<Rightarrow> (string \<times> unit option) list" where
  "testList lib cfg =
     [(''all_objects'', list_all_objects cfg),
      (''empty_store'', list_empty_store cfg),
      (''by_namespace'', list_by_namespace cfg),
      (''by_label_selector'', list_by_label_selector lib cfg),
      (''sets_ResourceVersion_on_metadata'', list_sets_ResourceVersion_on_metadata cfg)]"

section \<open>UpdateStatus and generation\<close>

definition status_writes_status_only :: "'s Config \<Rightarrow> unit option" where
  "status_writes_status_only cfg =
     (case NewStore cfg testScheme of (st, s) \<Rightarrow> do {
        (s, w) \<leftarrow> mustCreate st s (newTestWidget ''w1'' ''blue'' 42);
        (s, w) \<leftarrow> mustUpdateStatus st s (set_Phase ''running'' (set_Ready True w));
        got \<leftarrow> mustGet st s (ObjectKeyFromObject w);
        check (Ready_is got True \<and> Phase_is got ''running'');
        check (Color_is got ''blue'' \<and> Size_is got 42) })"

definition status_preserves_spec :: "'s Config \<Rightarrow> unit option" where
  "status_preserves_spec cfg =
     (case NewStore cfg testScheme of (st, s) \<Rightarrow> do {
        (s, w) \<leftarrow> mustCreate st s (newTestWidget ''w1'' ''blue'' 42);
        (s, w) \<leftarrow> mustUpdateStatus st s (set_Ready True (set_Color ''red'' w));
        got \<leftarrow> mustGet st s (ObjectKeyFromObject w);
        check (Color_is got ''blue'');
        check (Ready_is got True) })"

definition status_bumps_ResourceVersion :: "'s Config \<Rightarrow> unit option" where
  "status_bumps_ResourceVersion cfg =
     (case NewStore cfg testScheme of (st, s) \<Rightarrow> do {
        (s, w) \<leftarrow> mustCreate st s (newTestWidget ''w1'' ''blue'' 1);
        let rvBefore = GetResourceVersion w;
        (s, w) \<leftarrow> mustUpdateStatus st s (set_Ready True w);
        check (GetResourceVersion w \<noteq> rvBefore) })"

definition status_stale_ResourceVersion_returns_ConflictError :: "'s Config \<Rightarrow> unit option" where
  "status_stale_ResourceVersion_returns_ConflictError cfg =
     (case NewStore cfg testScheme of (st, s) \<Rightarrow> do {
        (s, w) \<leftarrow> mustCreate st s (newTestWidget ''w1'' ''blue'' 1);
        let key = ObjectKeyFromObject w;
        r1 \<leftarrow> mustGet st s key;
        r2 \<leftarrow> mustGet st s key;
        (s, r1) \<leftarrow> mustUpdateStatus st s (set_Ready True r1);
        expectError (snd (snd (st_UpdateStatus st s (set_Phase ''failed'' r2)))) is_ConflictError })"

definition status_missing_returns_NotFoundError :: "apimachinery \<Rightarrow> 's Config \<Rightarrow> unit option" where
  "status_missing_returns_NotFoundError lib cfg =
     (case NewStore cfg testScheme of (st, s) \<Rightarrow>
        expectError
          (snd (snd (st_UpdateStatus st s (SetResourceVersion ''1'' (newTestWidget ''ghost'' ''blue'' 1)))))
          (IsNotFound lib))"

definition generation_create_sets_generation_1 :: "'s Config \<Rightarrow> unit option" where
  "generation_create_sets_generation_1 cfg =
     (case NewStore cfg testScheme of (st, s) \<Rightarrow> do {
        (s, w) \<leftarrow> mustCreate st s (newTestWidget ''w1'' ''blue'' 1);
        check (GetGeneration w = 1) })"

definition generation_spec_change_increments :: "'s Config \<Rightarrow> unit option" where
  "generation_spec_change_increments cfg =
     (case NewStore cfg testScheme of (st, s) \<Rightarrow> do {
        (s, w) \<leftarrow> mustCreate st s (newTestWidget ''w1'' ''blue'' 1);
        (s, w) \<leftarrow> mustUpdate st s (set_Color ''red'' w);
        check (GetGeneration w = 2) })"

definition generation_status_update_unchanged :: "'s Config \<Rightarrow> unit option" where
  "generation_status_update_unchanged cfg =
     (case NewStore cfg testScheme of (st, s) \<Rightarrow> do {
        (s, w) \<leftarrow> mustCreate st s (newTestWidget ''w1'' ''blue'' 1);
        (s, w) \<leftarrow> mustUpdateStatus st s (set_Ready True w);
        got \<leftarrow> mustGet st s (ObjectKeyFromObject w);
        check (GetGeneration got = 1) })"

definition generation_noop_update_unchanged :: "'s Config \<Rightarrow> unit option" where
  "generation_noop_update_unchanged cfg =
     (case NewStore cfg testScheme of (st, s) \<Rightarrow> do {
        (s, w) \<leftarrow> mustCreate st s (newTestWidget ''w1'' ''blue'' 1);
        (s, w) \<leftarrow> mustUpdate st s w;
        check (GetGeneration w = 1) })"

definition testGeneration :: "'s Config \<Rightarrow> (string \<times> unit option) list" where
  "testGeneration cfg =
     [(''create_sets_generation_1'', generation_create_sets_generation_1 cfg),
      (''spec_change_increments'', generation_spec_change_increments cfg),
      (''status_update_unchanged'', generation_status_update_unchanged cfg),
      (''noop_update_unchanged'', generation_noop_update_unchanged cfg)]"

section \<open>Spec and status apart\<close>

definition split_update_preserves_status :: "'s Config \<Rightarrow> unit option" where
  "split_update_preserves_status cfg =
     (case NewStore cfg testScheme of (st, s) \<Rightarrow> do {
        (s, w) \<leftarrow> mustCreate st s (newTestWidget ''w1'' ''blue'' 42);
        (s, w) \<leftarrow> mustUpdateStatus st s (set_Phase ''running'' (set_Ready True w));
        got \<leftarrow> mustGet st s (ObjectKeyFromObject w);
        (s, got) \<leftarrow> mustUpdate st s (set_Color ''red'' got);
        final \<leftarrow> mustGet st s (ObjectKeyFromObject w);
        check (Color_is final ''red'');
        check (Ready_is final True \<and> Phase_is final ''running'') })"

definition split_update_ignores_input_status :: "'s Config \<Rightarrow> unit option" where
  "split_update_ignores_input_status cfg =
     (case NewStore cfg testScheme of (st, s) \<Rightarrow> do {
        (s, w) \<leftarrow> mustCreate st s (newTestWidget ''w1'' ''blue'' 42);
        (s, w) \<leftarrow> mustUpdateStatus st s (set_Ready True w);
        got \<leftarrow> mustGet st s (ObjectKeyFromObject w);
        (s, got) \<leftarrow> mustUpdate st s (set_Ready False (set_Color ''red'' got));
        final \<leftarrow> mustGet st s (ObjectKeyFromObject w);
        check (Ready_is final True) })"

definition split_update_status_preserves_spec :: "'s Config \<Rightarrow> unit option" where
  "split_update_status_preserves_spec cfg =
     (case NewStore cfg testScheme of (st, s) \<Rightarrow> do {
        (s, w) \<leftarrow> mustCreate st s (newTestWidget ''w1'' ''blue'' 42);
        (s, w) \<leftarrow> mustUpdateStatus st s (set_Ready True (set_Color ''red'' w));
        got \<leftarrow> mustGet st s (ObjectKeyFromObject w);
        check (Color_is got ''blue'') })"

definition split_deep_copy_isolation :: "'s Config \<Rightarrow> unit option" where
  "split_deep_copy_isolation cfg =
     (case NewStore cfg testScheme of (st, s) \<Rightarrow> do {
        (s, w) \<leftarrow> mustCreate st s (newTestWidget ''w1'' ''blue'' 42);
        let w = set_Color ''MUTATED'' w;
        got \<leftarrow> mustGet st s (ObjectKeyFromObject w);
        check (Color_is got ''blue'') })"

definition split_delete_without_resource_version :: "apimachinery \<Rightarrow> 's Config \<Rightarrow> unit option" where
  "split_delete_without_resource_version lib cfg =
     (case NewStore cfg testScheme of (st, s) \<Rightarrow> do {
        (s, w) \<leftarrow> mustCreate st s (newTestWidget ''w1'' ''blue'' 1);
        let w = SetResourceVersion [] w;
        s \<leftarrow> mustDelete st s w;
        expectError (snd (st_Get st s (ObjectKeyFromObject w) zeroWidget)) (IsNotFound lib) })"

definition split_delete_with_resource_version :: "'s Config \<Rightarrow> unit option" where
  "split_delete_with_resource_version cfg =
     (case NewStore cfg testScheme of (st, s) \<Rightarrow> do {
        (s, w) \<leftarrow> mustCreate st s (newTestWidget ''w1'' ''blue'' 1);
        s \<leftarrow> mustDelete st s w;
        Some () })"

end
