(* ===== verification/Conformance_Watch.thy ===== *)
theory Conformance_Watch
  imports Conformance_Suite
begin

text \<open>
  The subtests of the conformance suite that watch or run goroutines, and \<open>TestStore\<close> itself.

  A goroutine of a concurrent subtest is a state machine whose steps are its calls of the store; a
  schedule is the list of goroutines in the order of their steps. After the schedule the goroutines
  that are not finished run on to their ends (\<open>wg.Wait\<close>), so every list of numbers is the
  beginning of an execution, and every execution has such a list.
\<close>

section \<open>Receiving\<close>

definition expectEvent :: "'s Store \<Rightarrow> 's \<Rightarrow> watcher_id \<Rightarrow> EventType \<Rightarrow> string \<Rightarrow> 's option" where
  "expectEvent st s i wantType wantName =
     (case st_Recv st s i of
        (s', Received evt) \<Rightarrow> do {
          check (ev_Type evt = wantType);
          check (\<not> (wantName \<noteq> [] \<and> Name (Meta (ev_Object evt)) \<noteq> wantName));
          Some s' }
      | _ \<Rightarrow> None)"

text \<open>
  The inline \<open>select\<close> statements: an event that satisfies a condition, or no event. A receive on a
  closed channel gives the zero event, which fails each of them.
\<close>

definition receive :: "'s Store \<Rightarrow> 's \<Rightarrow> watcher_id \<Rightarrow> (Event \<Rightarrow> bool) \<Rightarrow> 's option" where
  "receive st s i p =
     (case st_Recv st s i of
        (s', Received evt) \<Rightarrow> do { check (p evt); Some s' }
      | _ \<Rightarrow> None)"

definition receiveNothing :: "'s Store \<Rightarrow> 's \<Rightarrow> watcher_id \<Rightarrow> 's option" where
  "receiveNothing st s i = (case st_Recv st s i of (s', WouldBlock) \<Rightarrow> Some s' | _ \<Rightarrow> None)"

fun receiveEach :: "'s Store \<Rightarrow> watcher_id \<Rightarrow> (Event \<Rightarrow> bool) list \<Rightarrow> 's \<Rightarrow> 's option" where
  "receiveEach st i [] s = Some s"
| "receiveEach st i (p # ps) s = do { s \<leftarrow> receive st s i p; receiveEach st i ps s }"

text \<open>
  The receive loops. \<open>collect\<close> runs until nothing arrives in time (on a closed channel the loop of
  \<open>filtered\<close> panics and that of \<open>no_selector_replays_all\<close> never ends); \<open>drainClosed\<close> is
  \<open>for evt := range\<close>, which ends when the channel is closed; \<open>drainIdle\<close> ends on either.
\<close>

partial_function (option) collect :: "'s Store \<Rightarrow> watcher_id \<Rightarrow> 's \<Rightarrow> Event list \<Rightarrow> ('s \<times> Event list) option" where
  "collect st i s acc =
     (case st_Recv st s i of
        (s', Received evt) \<Rightarrow> collect st i s' (acc @ [evt])
      | (s', WouldBlock) \<Rightarrow> Some (s', acc)
      | (s', ChanClosed) \<Rightarrow> None)"

partial_function (option) drainClosed :: "'s Store \<Rightarrow> watcher_id \<Rightarrow> 's \<Rightarrow> Event list \<Rightarrow> ('s \<times> Event list) option" where
  "drainClosed st i s acc =
     (case st_Recv st s i of
        (s', Received evt) \<Rightarrow> drainClosed st i s' (acc @ [evt])
      | (s', WouldBlock) \<Rightarrow> drainClosed st i s' acc
      | (s', ChanClosed) \<Rightarrow> Some (s', acc))"

partial_function (option) drainIdle :: "'s Store \<Rightarrow> watcher_id \<Rightarrow> 's \<Rightarrow> Event list \<Rightarrow> ('s \<times> Event list) option" where
  "drainIdle st i s acc =
     (case st_Recv st s i of
        (s', Received evt) \<Rightarrow> drainIdle st i s' (acc @ [evt])
      | (s', WouldBlock) \<Rightarrow> Some (s', acc)
      | (s', ChanClosed) \<Rightarrow> Some (s', acc))"

declare collect.simps [code] drainClosed.simps [code] drainIdle.simps [code]

abbreviation isAdded :: "Event \<Rightarrow> bool" where
  "isAdded evt \<equiv> ev_Type evt = EventAdded"

abbreviation evName :: "Event \<Rightarrow> string" where
  "evName evt \<equiv> Name (Meta (ev_Object evt))"

abbreviation evRV :: "Event \<Rightarrow> int \<times> NumError option" where
  "evRV evt \<equiv> ParseInt (GetResourceVersion (ev_Object evt))"

section \<open>Watch\<close>

definition watch_streams_events :: "'s Config \<Rightarrow> unit option" where
  "watch_streams_events cfg =
     (case NewStore cfg testScheme of (st, s) \<Rightarrow> do {
        (s, i) \<leftarrow> mustWatch st s [];
        (s, w) \<leftarrow> mustCreate st s (newTestWidget ''w1'' ''blue'' 1);
        s \<leftarrow> expectEvent st s i EventAdded ''w1'';
        (s, w) \<leftarrow> mustUpdate st s (set_Color ''red'' w);
        s \<leftarrow> expectEvent st s i EventModified ''w1'';
        s \<leftarrow> mustDelete st s w;
        s \<leftarrow> expectEvent st s i EventDeleted ''w1'';
        Some () })"

definition watch_WatchFromRevision_replays :: "'s Config \<Rightarrow> unit option" where
  "watch_WatchFromRevision_replays cfg =
     (case NewStore cfg testScheme of (st, s) \<Rightarrow> do {
        (s, w1) \<leftarrow> mustCreate st s (newTestWidget ''w1'' ''blue'' 1);
        (s, w2) \<leftarrow> mustCreate st s (newTestWidget ''w2'' ''red'' 2);
        (s, i) \<leftarrow> mustWatch st s [WatchFromRevision 0];
        s \<leftarrow> receiveEach st i [isAdded, isAdded] s;
        (s, w3) \<leftarrow> mustCreate st s (newTestWidget ''w3'' ''green'' 3);
        s \<leftarrow> expectEvent st s i EventAdded ''w3'';
        let s = st_Stop st s i;
        (s, i2) \<leftarrow> mustWatch st s [WatchFromRevision 2];
        s \<leftarrow> receive st s i2 (\<lambda>evt. isAdded evt \<and> evName evt = ''w3'');
        Some () })"

definition watch_WatchFromRevision_no_gap :: "'s Config \<Rightarrow> unit option" where
  "watch_WatchFromRevision_no_gap cfg =
     (case NewStore cfg testScheme of (st, s) \<Rightarrow> do {
        (s, w1) \<leftarrow> mustCreate st s (newTestWidget ''w1'' ''blue'' 1);
        (s, i) \<leftarrow> mustWatch st s [WatchFromRevision 1];
        (s, w2) \<leftarrow> mustCreate st s (newTestWidget ''w2'' ''red'' 2);
        s \<leftarrow> expectEvent st s i EventAdded ''w2'';
        Some () })"

definition watch_replay_mixed_event_types :: "'s Config \<Rightarrow> unit option" where
  "watch_replay_mixed_event_types cfg =
     (if SkipWatchEventHistory cfg then Some () else
      case NewStore cfg testScheme of (st, s) \<Rightarrow> do {
        (s, w) \<leftarrow> mustCreate st s (newTestWidget ''w1'' ''blue'' 1);
        (s, w) \<leftarrow> mustUpdate st s (set_Color ''red'' w);
        s \<leftarrow> mustDelete st s w;
        (s, i) \<leftarrow> mustWatch st s [WatchFromRevision 0];
        s \<leftarrow> receiveEach st i
          (map (\<lambda>want evt. ev_Type evt = want) [EventAdded, EventModified, EventDeleted]) s;
        Some () })"

definition newTestGadget :: "string \<Rightarrow> object" where
  "newTestGadget name =
     zeroGadget\<lparr>ApiVersion := ''gadget.storetest.dev/v1'', TypeKind := ''Gadget'',
       Meta := emptyMeta\<lparr>Name := name, Namespace := ''default''\<rparr>\<rparr>"

definition watch_replay_filters_by_GVK :: "'s Config \<Rightarrow> unit option" where
  "watch_replay_filters_by_GVK cfg =
     (case NewStore cfg testScheme of (st, s) \<Rightarrow> do {
        (s, w) \<leftarrow> mustCreate st s (newTestWidget ''w1'' ''blue'' 1);
        (s, g) \<leftarrow> mustCreate st s (newTestGadget ''g1'');
        (s, i) \<leftarrow> mustWatch st s [WatchFromRevision 0];
        s \<leftarrow> expectEvent st s i EventAdded ''w1'';
        s \<leftarrow> receiveNothing st s i;
        Some () })"

definition watch_label_selector_replay :: "apimachinery \<Rightarrow> 's Config \<Rightarrow> unit option" where
  "watch_label_selector_replay lib cfg =
     (case NewStore cfg testScheme of (st, s) \<Rightarrow> do {
        (s, blue) \<leftarrow> mustCreate st s
          (set_Labels (fmap_of_list [(''color'', ''blue'')]) (newTestWidget ''w-blue'' ''blue'' 1));
        (s, red) \<leftarrow> mustCreate st s
          (set_Labels (fmap_of_list [(''color'', ''red'')]) (newTestWidget ''w-red'' ''red'' 2));
        (s, blue2) \<leftarrow> mustCreate st s
          (set_Labels (fmap_of_list [(''color'', ''blue'')]) (newTestWidget ''w-blue2'' ''blue'' 3));
        sel \<leftarrow> mustParse lib ''color=blue'';
        (s, i) \<leftarrow> mustWatch st s [WatchFromRevision 0, MatchingLabelsSelector sel];
        (s, evts) \<leftarrow> collect st i s [];
        check (length evts = 2);
        check (list_all (\<lambda>evt. evName evt = ''w-blue'' \<or> evName evt = ''w-blue2'') evts);
        let s = st_Stop st s i;
        (s, i2) \<leftarrow> mustWatch st s [WatchFromRevision 0];
        (s, evts) \<leftarrow> collect st i2 s [];
        check (length evts = 3) })"

definition watch_RevisionTooOldError :: "apimachinery \<Rightarrow> 's Config \<Rightarrow> unit option" where
  "watch_RevisionTooOldError lib cfg =
     (case NewSmallEventLogStore cfg of
        None \<Rightarrow> Some ()
      | Some newSmall \<Rightarrow> (case newSmall testScheme of (st, s) \<Rightarrow> do {
          s \<leftarrow> createEach st ''w'' [0..<10] s;
          s \<leftarrow> (case st_Watch st s zeroWidgetList [WatchFromRevision 1] of
             (s', Inl (RevisionTooOldError requested oldest)) \<Rightarrow> do {
               check (requested = 1);
               check (IsGone lib (RevisionTooOldError requested oldest));
               Some s' }
           | _ \<Rightarrow> None);
          (s, i) \<leftarrow> mustWatch st s [WatchFromRevision 5];
          s \<leftarrow> receiveEach st i (map (\<lambda>_. isAdded) [0..<5]) s;
          Some () }))"

definition watch_overflow_closes_watch :: "'s Config \<Rightarrow> unit option" where
  "watch_overflow_closes_watch cfg =
     (if SkipWatchOverflow cfg then Some () else
      case NewStore cfg testScheme of (st, s) \<Rightarrow> do {
        (s, i) \<leftarrow> mustWatch st s [];
        s \<leftarrow> createEach st ''overflow-'' [0..<200] s;
        (s, evts) \<leftarrow> drainClosed st i s [];
        check (length evts \<noteq> 0);
        check (length evts < 200);
        let lastRV = (if evts = [] then 0 else fst (evRV (last evts)));
        (s, i2) \<leftarrow> mustWatch st s [WatchFromRevision lastRV];
        Some () })"

definition testWatch :: "apimachinery \<Rightarrow> 's Config \<Rightarrow> (string \<times> unit option) list" where
  "testWatch lib cfg =
     [(''streams_events'', watch_streams_events cfg),
      (''WatchFromRevision_replays'', watch_WatchFromRevision_replays cfg),
      (''WatchFromRevision_no_gap'', watch_WatchFromRevision_no_gap cfg),
      (''replay_mixed_event_types'', watch_replay_mixed_event_types cfg),
      (''replay_filters_by_GVK'', watch_replay_filters_by_GVK cfg),
      (''label_selector_replay'', watch_label_selector_replay lib cfg),
      (''RevisionTooOldError'', watch_RevisionTooOldError lib cfg),
      (''overflow_closes_watch'', watch_overflow_closes_watch cfg)]"

definition status_noop_suppresses_event :: "'s Config \<Rightarrow> unit option" where
  "status_noop_suppresses_event cfg =
     (case NewStore cfg testScheme of (st, s) \<Rightarrow> do {
        (s, w) \<leftarrow> mustCreate st s (newTestWidget ''noop-status'' ''blue'' 42);
        (s, i) \<leftarrow> mustWatch st s [WatchFromRevision 1];
        let rvBefore = GetResourceVersion w;
        (s, w) \<leftarrow> mustUpdateStatus st s w;
        check (GetResourceVersion w = rvBefore);
        s \<leftarrow> receiveNothing st s i;
        Some () })"

definition testUpdateStatus :: "apimachinery \<Rightarrow> 's Config \<Rightarrow> (string \<times> unit option) list" where
  "testUpdateStatus lib cfg =
     [(''writes_status_only'', status_writes_status_only cfg),
      (''preserves_spec'', status_preserves_spec cfg),
      (''bumps_ResourceVersion'', status_bumps_ResourceVersion cfg),
      (''stale_ResourceVersion_returns_ConflictError'', status_stale_ResourceVersion_returns_ConflictError cfg),
      (''missing_returns_NotFoundError'', status_missing_returns_NotFoundError lib cfg),
      (''noop_suppresses_event'', status_noop_suppresses_event cfg)]"

section \<open>Goroutines\<close>

text \<open>
  \<open>interleave step turns ps s\<close>: the goroutines \<open>ps\<close> take their steps in the order of \<open>turns\<close>. A turn
  of a goroutine that has ended does nothing.
\<close>

fun interleave ::
  "(nat \<Rightarrow> 'p \<Rightarrow> 's \<Rightarrow> 'p \<times> 's) \<Rightarrow> nat list \<Rightarrow> 'p list \<Rightarrow> 's \<Rightarrow> 'p list \<times> 's" where
  "interleave step [] ps s = (ps, s)"
| "interleave step (i # is) ps s =
     (if i < length ps
      then let (p, s') = step i (ps ! i) s in interleave step is (ps[i := p]) s'
      else interleave step is ps s)"

text \<open>The turns that bring \<open>n\<close> goroutines of at most \<open>k\<close> steps to their ends.\<close>

definition finishTurns :: "nat \<Rightarrow> nat \<Rightarrow> nat list" where
  "finishTurns k n = concat (map (\<lambda>i. replicate k i) [0..<n])"

subsection \<open>Spec and status writers\<close>

text \<open>
  A writer retries its read and write up to ten times: \<open>WGet n\<close> is the head of the loop with \<open>n\<close>
  rounds left, \<open>WPut n got\<close> the write of what it read, \<open>WFailed\<close> a writer that met an error other
  than a conflict. The goroutines 0 to 9 write the spec, 10 to 19 the status.
\<close>

datatype writer = WGet nat | WPut nat object | WDone | WFailed

definition writer_put :: "'s Store \<Rightarrow> nat \<Rightarrow> 's \<Rightarrow> object \<Rightarrow> 's \<times> object \<times> error option" where
  "writer_put st i s got = (if i < 10 then st_Update st s got else st_UpdateStatus st s got)"

definition writer_edit :: "nat \<Rightarrow> object \<Rightarrow> object" where
  "writer_edit i got =
     (if i < 10 then set_Color (''color-'' @ FormatInt (int i)) got
      else set_Phase (''phase-'' @ FormatInt (int i - 10)) got)"

fun writer_step :: "'s Store \<Rightarrow> nat \<Rightarrow> writer \<Rightarrow> 's \<Rightarrow> writer \<times> 's" where
  "writer_step st i (WGet n) s =
     (if n = 0 then (WDone, s)
      else case st_Get st s (defaultKey ''w1'') zeroWidget of
             (got, None) \<Rightarrow> (WPut (n - 1) (writer_edit i got), s)
           | (_, Some _) \<Rightarrow> (WGet (n - 1), s))"
| "writer_step st i (WPut n got) s =
     (case writer_put st i s got of
        (s', _, None) \<Rightarrow> (WDone, s')
      | (s', _, Some (ConflictError _)) \<Rightarrow> (WGet n, s')
      | (s', _, Some _) \<Rightarrow> (WFailed, s'))"
| "writer_step st i WDone s = (WDone, s)"
| "writer_step st i WFailed s = (WFailed, s)"

definition split_concurrent_spec_and_status_writers :: "'s Config \<Rightarrow> nat list \<Rightarrow> unit option" where
  "split_concurrent_spec_and_status_writers cfg turns =
     (case NewStore cfg testScheme of (st, s) \<Rightarrow> do {
        (s, w) \<leftarrow> mustCreate st s (newTestWidget ''w1'' ''blue'' 1);
        let (ps, s) = interleave (writer_step st) (turns @ finishTurns 21 20) (replicate 20 (WGet 10)) s;
        check (list_all (\<lambda>p. p = WDone) ps);
        final \<leftarrow> mustGet st s (ObjectKeyFromObject w);
        check (\<not> Color_is final ''blue'');
        check (\<not> Phase_is final []) })"

definition testSpecStatusSplit :: "apimachinery \<Rightarrow> 's Config \<Rightarrow> nat list \<Rightarrow> (string \<times> unit option) list" where
  "testSpecStatusSplit lib cfg turns =
     [(''update_preserves_status'', split_update_preserves_status cfg),
      (''update_ignores_input_status'', split_update_ignores_input_status cfg),
      (''update_status_preserves_spec'', split_update_status_preserves_spec cfg),
      (''deep_copy_isolation'', split_deep_copy_isolation cfg),
      (''delete_without_resource_version'', split_delete_without_resource_version lib cfg),
      (''delete_with_resource_version'', split_delete_with_resource_version cfg),
      (''concurrent_spec_and_status_writers'', split_concurrent_spec_and_status_writers cfg turns)]"

subsection \<open>Create, update and delete beside a watcher\<close>

text \<open>
  \<open>concurrent_CRUD_with_watcher\<close> has ten workers and one reader of the channel (goroutine 10), which
  counts what it receives. The workers of \<open>concurrent_updates_preserve_monotonicity\<close> stop after
  the update.
\<close>

datatype worker = KCreate | KUpdate object | KDelete object | KDone | KFailed | KRead nat

fun worker_step :: "'s Store \<Rightarrow> watcher_id \<Rightarrow> string \<Rightarrow> bool \<Rightarrow> nat \<Rightarrow> worker \<Rightarrow> 's \<Rightarrow> worker \<times> 's" where
  "worker_step st x pfx del i KCreate s =
     (case st_Create st s (newTestWidget (pfx @ FormatInt (int i)) ''blue'' (int i)) of
        (s', w, None) \<Rightarrow> (KUpdate (set_Color ''red'' w), s')
      | (s', _, Some _) \<Rightarrow> (KFailed, s'))"
| "worker_step st x pfx del i (KUpdate w) s =
     (case st_Update st s w of
        (s', w', None) \<Rightarrow> (if del then KDelete w' else KDone, s')
      | (s', _, Some _) \<Rightarrow> (KFailed, s'))"
| "worker_step st x pfx del i (KDelete w) s =
     (case st_Delete st s w of
        (s', None) \<Rightarrow> (KDone, s')
      | (s', Some _) \<Rightarrow> (KFailed, s'))"
| "worker_step st x pfx del i (KRead n) s =
     (case st_Recv st s x of
        (s', Received _) \<Rightarrow> (KRead (Suc n), s')
      | (s', _) \<Rightarrow> (KRead n, s'))"
| "worker_step st x pfx del i KDone s = (KDone, s)"
| "worker_step st x pfx del i KFailed s = (KFailed, s)"

fun reads :: "worker \<Rightarrow> nat" where
  "reads (KRead n) = n"
| "reads _ = 0"

definition concurrency_concurrent_CRUD_with_watcher :: "'s Config \<Rightarrow> nat list \<Rightarrow> unit option" where
  "concurrency_concurrent_CRUD_with_watcher cfg turns =
     (case NewStore cfg testScheme of (st, s) \<Rightarrow> do {
        (s, x) \<leftarrow> mustWatch st s [];
        let (ps, s) = interleave (worker_step st x ''concurrent-'' True) (turns @ finishTurns 3 10)
          (replicate 10 KCreate @ [KRead 0]) s;
        check (list_all (\<lambda>p. p \<noteq> KFailed) ps);
        let s = st_Stop st s x;
        (s, evts) \<leftarrow> drainClosed st x s [];
        let count = reads (ps ! 10) + length evts;
        check (if SkipConcurrencyWatchCount cfg then count \<noteq> 0 else count = 10 * 3) })"

definition testConcurrency :: "'s Config \<Rightarrow> nat list \<Rightarrow> (string \<times> unit option) list" where
  "testConcurrency cfg turns =
     [(''concurrent_CRUD_with_watcher'', concurrency_concurrent_CRUD_with_watcher cfg turns)]"

section \<open>Invariants\<close>

text \<open>The loops over received resource versions: each greater than the one before.\<close>

fun receiveRising :: "'s Store \<Rightarrow> watcher_id \<Rightarrow> nat list \<Rightarrow> int \<Rightarrow> 's \<Rightarrow> 's option" where
  "receiveRising st i [] prevRV s = Some s"
| "receiveRising st i (_ # rounds) prevRV s =
     (case st_Recv st s i of
        (s', Received evt) \<Rightarrow> do {
          check (snd (evRV evt) = None);
          check (fst (evRV evt) > prevRV);
          receiveRising st i rounds (fst (evRV evt)) s' }
      | _ \<Rightarrow> None)"

fun violations :: "int \<Rightarrow> Event list \<Rightarrow> nat" where
  "violations prevRV [] = 0"
| "violations prevRV (evt # evts) =
     (if fst (evRV evt) \<le> prevRV then 1 else 0) + violations (fst (evRV evt)) evts"

definition invariants_revision_monotonicity_in_watch :: "'s Config \<Rightarrow> unit option" where
  "invariants_revision_monotonicity_in_watch cfg =
     (if SkipGlobalRevisionMonotonicity cfg then Some () else
      case NewStore cfg testScheme of (st, s) \<Rightarrow> do {
        (s, i) \<leftarrow> mustWatch st s [];
        s \<leftarrow> createEach st ''mono-'' [0..<10] s;
        s \<leftarrow> receiveRising st i [0..<10] 0 s;
        Some () })"

definition invariants_noop_update_suppresses_event :: "'s Config \<Rightarrow> unit option" where
  "invariants_noop_update_suppresses_event cfg =
     (case NewStore cfg testScheme of (st, s) \<Rightarrow> do {
        (s, w) \<leftarrow> mustCreate st s (newTestWidget ''noop'' ''blue'' 42);
        (s, i) \<leftarrow> mustWatch st s [WatchFromRevision 1];
        let rvBefore = GetResourceVersion w;
        (s, w) \<leftarrow> mustUpdate st s w;
        check (GetResourceVersion w = rvBefore);
        s \<leftarrow> receiveNothing st s i;
        Some () })"

definition invariants_list_returns_consistent_snapshot :: "'s Config \<Rightarrow> unit option" where
  "invariants_list_returns_consistent_snapshot cfg =
     (case NewStore cfg testScheme of (st, s) \<Rightarrow> do {
        s \<leftarrow> createEach st ''snap-'' [0..<5] s;
        (s, l) \<leftarrow> mustList st s [];
        let (listRV, err) = ParseInt (ListResourceVersion l);
        check (err = None);
        check (list_all (\<lambda>item. snd (ParseInt (GetResourceVersion item)) = None \<and>
          \<not> fst (ParseInt (GetResourceVersion item)) > listRV) (Items l)) })"

definition invariants_watch_resumption_no_gap :: "'s Config \<Rightarrow> unit option" where
  "invariants_watch_resumption_no_gap cfg =
     (case NewStore cfg testScheme of (st, s) \<Rightarrow> do {
        (s, w1) \<leftarrow> mustCreate st s (newTestWidget ''gap-1'' ''blue'' 1);
        (s, w2) \<leftarrow> mustCreate st s (newTestWidget ''gap-2'' ''red'' 2);
        (s, i) \<leftarrow> mustWatch st s [WatchFromRevision 1];
        s \<leftarrow> receive st s i (\<lambda>evt. evName evt = ''gap-2'');
        let s = st_Stop st s i;
        (s, w3) \<leftarrow> mustCreate st s (newTestWidget ''gap-3'' ''green'' 3);
        (s, i2) \<leftarrow> mustWatch st s [WatchFromRevision 2];
        s \<leftarrow> receive st s i2 (\<lambda>evt. evName evt = ''gap-3'');
        Some () })"

definition invariants_resourceversion_is_numeric :: "'s Config \<Rightarrow> unit option" where
  "invariants_resourceversion_is_numeric cfg =
     (case NewStore cfg testScheme of (st, s) \<Rightarrow> do {
        (s, w) \<leftarrow> mustCreate st s (newTestWidget ''rv-numeric'' ''blue'' 1);
        check (snd (ParseInt (GetResourceVersion w)) = None);
        (s, l) \<leftarrow> mustList st s [];
        check (snd (ParseInt (ListResourceVersion l)) = None) })"

definition invariants_concurrent_updates_preserve_monotonicity :: "'s Config \<Rightarrow> nat list \<Rightarrow> unit option" where
  "invariants_concurrent_updates_preserve_monotonicity cfg turns =
     (if SkipGlobalRevisionMonotonicity cfg then Some () else
      case NewStore cfg testScheme of (st, s) \<Rightarrow> do {
        (s, x) \<leftarrow> mustWatch st s [];
        let (ps, s) = interleave (worker_step st x ''cmon-'' False) (turns @ finishTurns 2 5)
          (replicate 5 KCreate) s;
        check (list_all (\<lambda>p. p \<noteq> KFailed) ps);
        (s, evts) \<leftarrow> drainIdle st x s [];
        check (\<not> violations 0 evts > 0) })"

definition testInvariants :: "'s Config \<Rightarrow> nat list \<Rightarrow> (string \<times> unit option) list" where
  "testInvariants cfg turns =
     [(''revision_monotonicity_in_watch'', invariants_revision_monotonicity_in_watch cfg),
      (''noop_update_suppresses_event'', invariants_noop_update_suppresses_event cfg),
      (''list_returns_consistent_snapshot'', invariants_list_returns_consistent_snapshot cfg),
      (''watch_resumption_no_gap'', invariants_watch_resumption_no_gap cfg),
      (''resourceversion_is_numeric'', invariants_resourceversion_is_numeric cfg),
      (''concurrent_updates_preserve_monotonicity'',
        invariants_concurrent_updates_preserve_monotonicity cfg turns)]"

section \<open>The suite\<close>

text \<open>The schedules of the three concurrent subtests.\<close>

record schedules =
  writer_turns :: "nat list"
  crud_turns :: "nat list"
  mono_turns :: "nat list"

text \<open>\<open>t.Run\<close>: a subtest is reported under the name of its group.\<close>

definition t_Run :: "string \<Rightarrow> (string \<times> unit option) list \<Rightarrow> (string \<times> unit option) list" where
  "t_Run name tests = map (\<lambda>(n, r). (name @ ''/'' @ n, r)) tests"

definition TestStore :: "apimachinery \<Rightarrow> 's Config \<Rightarrow> schedules \<Rightarrow> (string \<times> unit option) list" where
  "TestStore lib cfg sched = concat
     [t_Run ''Create'' (testCreate lib cfg),
      t_Run ''Get'' (testGet lib cfg),
      t_Run ''Update'' (testUpdate lib cfg),
      t_Run ''Delete'' (testDelete lib cfg),
      t_Run ''List'' (testList lib cfg),
      t_Run ''Watch'' (testWatch lib cfg),
      t_Run ''UpdateStatus'' (testUpdateStatus lib cfg),
      t_Run ''Generation'' (testGeneration cfg),
      t_Run ''SpecStatusSplit'' (testSpecStatusSplit lib cfg (writer_turns sched)),
      t_Run ''Concurrency'' (testConcurrency cfg (crud_turns sched)),
      t_Run ''Invariants'' (testInvariants cfg (mono_turns sched))]"

text \<open>The subtests that fail.\<close>

definition failures :: "(string \<times> unit option) list \<Rightarrow> string list" where
  "failures results = map fst (filter (\<lambda>(_, r). r = None) results)"

end
