(* ===== verification/Conformance_Laws.thy ===== *)
theory Conformance_Laws
  imports Conformance_Watch Memory_Props
begin

text \<open>
  What the conformance suite needs of a backend beyond its sequential subtests, which evaluate.
  \<open>watcher_heap\<close> says how a receive reads the buffer of a watcher; the receive loops of the suite are
  solved in it. \<open>widget_store\<close> says that the methods of a store act on widgets as the memory store
  does, seen through an abstraction; the subtests with many widgets and (in
  \<open>Conformance_Concurrent\<close>) those with goroutines are proved in it, for every such store.
\<close>

section \<open>Widgets\<close>

lemma widget_GoType [simp]: "is_testWidget o1 \<Longrightarrow> GoType o1 = ''storetest.testWidget''"
  by (simp add: is_testWidget_def)

lemma mem_created_widget: "is_testWidget o1 \<Longrightarrow> is_testWidget (mem_created s o1)"
  by (simp add: is_testWidget_def mem_created_def)

lemma widget_status: "is_testWidget o1 \<Longrightarrow> GetStatus o1 \<noteq> None"
  by (auto simp: is_testWidget_def fmlookup_of_list)

lemma newTestWidget_key [simp]: "ObjectKeyFromObject (newTestWidget n c k) = defaultKey n"
  by (simp add: newTestWidget_def ObjectKeyFromObject_def)

lemma newTestWidget_GoType [simp]: "GoType (newTestWidget n c k) = ''storetest.testWidget''"
  by (rule widget_GoType) (rule newTestWidget_is)

text \<open>The keys of the widgets that the suite creates in numbers.\<close>

definition suite_prefixes :: "string set" where
  "suite_prefixes = {''w'', ''overflow-'', ''mono-'', ''concurrent-'', ''cmon-'', ''snap-''}"

definition suite_key :: "ObjectKey \<Rightarrow> bool" where
  "suite_key k \<longleftrightarrow> (\<exists>pfx \<in> suite_prefixes. \<exists>i. k = defaultKey (pfx @ FormatInt (int i)))"

lemma suite_keyI: "pfx \<in> suite_prefixes \<Longrightarrow> suite_key (defaultKey (pfx @ FormatInt (int i)))"
  by (auto simp: suite_key_def)

lemma suite_prefixes_simps [simp]:
  "''w'' \<in> suite_prefixes" "''overflow-'' \<in> suite_prefixes" "''mono-'' \<in> suite_prefixes"
  "''concurrent-'' \<in> suite_prefixes" "''cmon-'' \<in> suite_prefixes" "''snap-'' \<in> suite_prefixes"
  by (simp_all add: suite_prefixes_def)

section \<open>Histories of widgets\<close>

definition names_free :: "string \<Rightarrow> nat set \<Rightarrow> MemoryStore \<Rightarrow> bool" where
  "names_free pfx I s \<longleftrightarrow> (\<forall>i\<in>I. mem_view s widgetGVK (defaultKey (pfx @ FormatInt (int i))) = None)"

text \<open>What a sequence of commits of widgets leaves behind, seen from the state \<open>t\<close>.\<close>

definition widget_history :: "MemoryStore \<Rightarrow> eventLogEntry list \<Rightarrow> MemoryStore \<Rightarrow> bool" where
  "widget_history t h s \<longleftrightarrow>
     mem_inv testScheme s \<and> mem_extends t h s \<and> (\<forall>en\<in>set h. le_gvk en = widgetGVK)"

lemma widget_history_commit:
  assumes "widget_history t h s" and "mem_inv testScheme s'" and "mem_commit s s' widgetGVK e"
  shows "widget_history t (h @ [\<lparr>le_revision = revision s + 1, le_gvk = widgetGVK, le_event = e\<rparr>]) s'"
  using assms mem_extends_commit [of t h s s' widgetGVK e] by (auto simp: widget_history_def)

lemma widget_history_events: "widget_history t h s \<Longrightarrow> events_for widgetGVK h = map le_event h"
  by (simp add: widget_history_def events_for_def)

lemma name_inject: "i \<noteq> j \<Longrightarrow> int i \<le> MaxInt64 \<Longrightarrow> int j \<le> MaxInt64 \<Longrightarrow> FormatInt (int i) \<noteq> FormatInt (int j)"
  using FormatInt_inject [of "int i" "int j"] by (auto simp: is_int64_def MinInt64_def)

lemma commit_names_free:
  assumes "names_free pfx (insert i I) s" and "i \<notin> I" and "\<forall>j\<in>insert i I. int j \<le> MaxInt64"
    and "mem_commit s s' widgetGVK \<lparr>ev_Type = EventAdded, ev_Object = mem_created s (newTestWidget (pfx @ FormatInt (int i)) c n)\<rparr>"
  shows "names_free pfx I s'"
proof -
  have "mem_view s' widgetGVK = (mem_view s widgetGVK)(defaultKey (pfx @ FormatInt (int i)) \<mapsto>
      mem_created s (newTestWidget (pfx @ FormatInt (int i)) c n))"
    using assms(4) by (simp add: mem_commit_def apply_event_cases)
  moreover have "FormatInt (int j) \<noteq> FormatInt (int i)" if "j \<in> I" for j
    using that assms(2,3) name_inject [of j i] by auto
  ultimately show ?thesis using assms(1) by (simp add: names_free_def)
qed

lemma names_free_empty: "mem_view s widgetGVK = Map.empty \<Longrightarrow> names_free pfx I s"
  by (simp add: names_free_def)

definition sends :: "memoryWatcher \<Rightarrow> Event list \<Rightarrow> memoryWatcher" where
  "sends w es = fold (\<lambda>e w. memw_send w e) es w"

lemma sends_open:
  "\<not> w_closed w \<Longrightarrow> length (w_ch w) \<le> w_cap w \<Longrightarrow>
   sends w es = w\<lparr>w_ch := take (w_cap w) (w_ch w @ es), w_closed := length (w_ch w) + length es > w_cap w\<rparr>"
proof (induction es arbitrary: w)
  case Nil
  then show ?case by (simp add: sends_def)
next
  case (Cons e es)
  have closed: "fold (\<lambda>e w. memw_send w e) es v = v" if "w_closed v" for v
    using that by (induction es) (simp_all add: memw_send_def)
  show ?case
  proof (cases "length (w_ch w) < w_cap w")
    case True
    have "sends (w\<lparr>w_ch := w_ch w @ [e]\<rparr>) es =
      w\<lparr>w_ch := take (w_cap w) ((w_ch w @ [e]) @ es), w_closed := length (w_ch w) + length (e # es) > w_cap w\<rparr>"
      using Cons.prems True by (subst Cons.IH) simp_all
    with True Cons.prems show ?thesis by (simp add: sends_def memw_send_cases)
  next
    case False
    with Cons.prems closed [of "w\<lparr>w_closed := True\<rparr>"] show ?thesis
      by (simp add: sends_def memw_send_cases)
  qed
qed

lemma commit_watcher:
  assumes "mem_watch_ok x gvk al q s" and "mem_commit s s' gvk e"
  shows "wheap s' x = memw_send (wheap s x) e"
  using assms by (auto simp: mem_watch_ok_def mem_commit_def memw_send_cases(1))



text \<open>The state of a store that was just opened.\<close>

definition fresh_state :: "int \<Rightarrow> MemoryStore \<Rightarrow> bool" where
  "fresh_state n t \<longleftrightarrow>
     0 \<le> n \<and> mem_inv testScheme t \<and> revision t = 0 \<and> eventLog t = [] \<and> eventLogMax t = n \<and> nextWatcher t = 0 \<and>
     mem_view t widgetGVK = Map.empty"

text \<open>A piece of the history up to revision \<open>r\<close>, its resource versions being the revisions.\<close>

definition rv_segment :: "eventLogEntry list \<Rightarrow> int \<Rightarrow> bool" where
  "rv_segment l r \<longleftrightarrow> contiguous l r \<and> int (length l) \<le> r \<and> r \<le> MaxInt64 \<and>
     (\<forall>en\<in>set l. GetResourceVersion (ev_Object (le_event en)) = FormatInt (le_revision en))"

lemma rv_segment_Cons:
  assumes "rv_segment (en # l) r"
  shows "evRV (le_event en) = (r - int (length l), None)" and "rv_segment l r"
proof -
  have "le_revision en = r - int (length l)"
    using assms by (intro contiguous_hd) (simp add: rv_segment_def)
  then show "evRV (le_event en) = (r - int (length l), None)"
    using assms by (simp add: rv_segment_def is_int64_def MinInt64_def)
  show "rv_segment l r"
    using assms contiguous_drop [of "en # l" r 1] by (simp add: rv_segment_def)
qed

lemma violations_segment: "rv_segment l r \<Longrightarrow> p \<le> r - int (length l) \<Longrightarrow> violations p (map le_event l) = 0"
proof (induction l arbitrary: p)
  case Nil
  then show ?case by simp
next
  case (Cons en l)
  with rv_segment_Cons [OF Cons.prems(1)] show ?case by simp
qed

lemma fresh_history:
  assumes "fresh_state n t" and "widget_history t h s"
  shows "revision s = int (length h)" "eventLog s = last_n (nat n) h" "contiguous h (revision s)"
    "rv_segment h (revision s)" "eventLogMax s = n"
  using assms by (auto simp: fresh_state_def widget_history_def mem_extends_def rv_segment_def dest: mem_revision_bounds)

lemma fresh_start: "fresh_state n t \<Longrightarrow> widget_history t [] t"
  by (auto simp: fresh_state_def widget_history_def intro: mem_extends_refl)

lemma fresh_since_covered:
  assumes t: "fresh_state n t" and h: "widget_history t h s" and "int (length h) \<le> n" and r: "0 \<le> r" "r < MaxInt64"
    and s': "revision s' = revision s" "eventLog s' = eventLog s"
  obtains es where "mem_eventsSince s' r gvk = Inr es"
proof (cases h)
  case Nil
  with fresh_history(1) [OF t h] r s' that show thesis by (simp add: mem_eventsSince_def)
next
  case (Cons en l)
  have log: "eventLog s' = h"
    using assms(3) by (simp add: s' fresh_history(2) [OF t h] last_n_all)
  have "le_revision en = 1"
    using contiguous_hd [of en l] fresh_history(1,3) [OF t h] by (simp add: Cons)
  moreover have "add64 r 1 = r + 1" using r by (simp add: add64_Suc)
  ultimately show thesis
    using that r by (cases "r \<ge> revision s'") (auto simp: mem_eventsSince_def log Cons Let_def)
qed

lemma watch_fresh:
  assumes t: "fresh_state n t"
  defines "w \<equiv> mem_Watch testScheme t zeroWidgetList []"
  shows "snd w = Inr 0" and "widget_history t [] (fst w)" and "mem_watch_ok 0 widgetGVK [] [] (fst w)"
    and "wheap (fst w) 0 = \<lparr>w_gvk = widgetGVK, w_ch = [], w_cap = 100, w_closed = False\<rparr>"
    and "revision (fst w) = 0" and "mem_view (fst w) widgetGVK = Map.empty"
proof -
  have r: "mem_replay t [] widgetGVK = Inr []" by (simp add: mem_replay_def)
  have q: "mem_inv testScheme (fst w)" "mem_quiet t (fst w)"
    using mem_Watch_quiet [of testScheme t zeroWidgetList "[]"] t by (auto simp: fresh_state_def w_def)
  show "snd w = Inr 0" "wheap (fst w) 0 = \<lparr>w_gvk = widgetGVK, w_ch = [], w_cap = 100, w_closed = False\<rparr>"
    using t by (simp_all add: w_def mem_Watch_eq [OF gvk_widget(2) r] mem_replayFilter_def applyListOptions_def
        emptyListOptions_def watchBufSize_def fresh_state_def)
  show "widget_history t [] (fst w)"
    using q fresh_start [OF t] by (auto simp: widget_history_def intro: mem_extends_quiet)
  show "mem_watch_ok 0 widgetGVK [] [] (fst w)"
    using mem_Watch_watch_ok [OF gvk_widget(2) r] t
    by (simp add: w_def mem_replayFilter_def applyListOptions_def emptyListOptions_def fresh_state_def)
  show "revision (fst w) = 0" "mem_view (fst w) widgetGVK = Map.empty"
    using q t by (auto simp: mem_quiet_def fresh_state_def)
qed

section \<open>Receiving\<close>

lemma loops_Received:
  assumes "st_Recv st s i = (s', Received e)"
  shows "collect st i s acc = collect st i s' (acc @ [e])"
    and "drainClosed st i s acc = drainClosed st i s' (acc @ [e])"
    and "drainIdle st i s acc = drainIdle st i s' (acc @ [e])"
  by (subst collect.simps, simp add: assms) (subst drainClosed.simps, simp add: assms,
      subst drainIdle.simps, simp add: assms)

lemma loops_end:
  "st_Recv st s i = (s', WouldBlock) \<Longrightarrow> collect st i s acc = Some (s', acc)"
  "st_Recv st s i = (s', ChanClosed) \<Longrightarrow> collect st i s acc = None"
  "st_Recv st s i = (s', ChanClosed) \<Longrightarrow> drainClosed st i s acc = Some (s', acc)"
  "st_Recv st s i = (s', WouldBlock) \<or> st_Recv st s i = (s', ChanClosed) \<Longrightarrow> drainIdle st i s acc = Some (s', acc)"
  by (subst collect.simps, simp, subst collect.simps, simp)
    (subst drainClosed.simps, simp, subst drainIdle.simps, auto)

locale watcher_heap =
  fixes st :: "'s Store" and heap :: "'s \<Rightarrow> watcher_id \<Rightarrow> memoryWatcher"
    and setw :: "watcher_id \<Rightarrow> memoryWatcher \<Rightarrow> 's \<Rightarrow> 's"
  assumes recv_eq: "st_Recv st s x = (setw x (fst (memw_Recv (heap s x))) s, snd (memw_Recv (heap s x)))"
    and heap_setw: "heap (setw x w s) x = w"
    and setw_setw: "setw x w (setw x v s) = setw x w s"
    and setw_heap: "setw x (heap s x) s = s"
begin

lemma recv_event:
  "w_ch (heap s x) = e # es \<Longrightarrow> st_Recv st s x = (setw x ((heap s x)\<lparr>w_ch := es\<rparr>) s, Received e)"
  by (simp add: recv_eq memw_Recv_def)

lemma recv_empty:
  "w_ch (heap s x) = [] \<Longrightarrow> st_Recv st s x = (s, if w_closed (heap s x) then ChanClosed else WouldBlock)"
  by (simp add: recv_eq memw_Recv_def setw_heap)

lemma loops:
  "collect st x s acc =
     (if w_closed (heap s x) then None else Some (setw x ((heap s x)\<lparr>w_ch := []\<rparr>) s, acc @ w_ch (heap s x))) \<and>
   (w_closed (heap s x) \<longrightarrow>
      drainClosed st x s acc = Some (setw x ((heap s x)\<lparr>w_ch := []\<rparr>) s, acc @ w_ch (heap s x))) \<and>
   drainIdle st x s acc = Some (setw x ((heap s x)\<lparr>w_ch := []\<rparr>) s, acc @ w_ch (heap s x))"
proof (induction "w_ch (heap s x)" arbitrary: s acc)
  case Nil
  then have nil: "w_ch (heap s x) = []" by simp
  then have "(heap s x)\<lparr>w_ch := []\<rparr> = heap s x" by simp
  then have "setw x ((heap s x)\<lparr>w_ch := []\<rparr>) s = s" by (simp add: setw_heap)
  with recv_empty [OF nil] nil loops_end [of st s x s acc] show ?case
    by (cases "w_closed (heap s x)") auto
next
  case (Cons e es)
  let ?s = "setw x ((heap s x)\<lparr>w_ch := es\<rparr>) s"
  have ch: "w_ch (heap s x) = e # es" using Cons.hyps(2) by simp
  have "heap ?s x = (heap s x)\<lparr>w_ch := es\<rparr>" by (rule heap_setw)
  with Cons.hyps(1) [of ?s "acc @ [e]"] loops_Received [OF recv_event [OF ch], of acc] show ?case
    by (simp add: ch setw_setw)
qed

lemma receiveEach_heap:
  "w_ch (heap s x) = es @ rest \<Longrightarrow> list_all2 (\<lambda>p e. p e) ps es \<Longrightarrow> \<exists>s'. receiveEach st x ps s = Some s'"
proof (induction ps arbitrary: s es)
  case Nil
  then show ?case by simp
next
  case (Cons p ps)
  then obtain e es' where es: "es = e # es'" "p e" "list_all2 (\<lambda>p e. p e) ps es'"
    by (auto simp: list_all2_Cons1)
  let ?s = "setw x ((heap s x)\<lparr>w_ch := es' @ rest\<rparr>) s"
  have "receive st s x p = Some ?s"
    using recv_event [of s x e "es' @ rest"] Cons.prems(1) es(1,2) by (simp add: receive_def check_def)
  with Cons.IH [of ?s es'] es(3) show ?case by (simp add: heap_setw)
qed

lemma receiveRising_segment:
  "w_ch (heap s x) = map le_event l \<Longrightarrow> rv_segment l r \<Longrightarrow> p \<le> r - int (length l) \<Longrightarrow>
   length rounds = length l \<Longrightarrow> \<exists>s'. receiveRising st x rounds p s = Some s'"
proof (induction l arbitrary: s p rounds)
  case Nil
  then show ?case by simp
next
  case (Cons en l)
  then obtain k rs where rs: "rounds = k # rs" "length rs = length l" by (cases rounds) auto
  note seg = rv_segment_Cons [OF Cons.prems(2)]
  let ?s = "setw x ((heap s x)\<lparr>w_ch := map le_event l\<rparr>) s"
  obtain s' where "receiveRising st x rs (r - int (length l)) ?s = Some s'"
    using Cons.IH [of ?s "r - int (length l)" rs] seg(2) rs(2) by (auto simp: heap_setw)
  moreover have "st_Recv st s x = (?s, Received (le_event en))"
    using Cons.prems(1) by (intro recv_event) simp
  ultimately show ?case using Cons.prems(3) seg(1) rs(1) by (simp add: check_def)
qed

end

section \<open>A store of widgets\<close>

locale widget_store = watcher_heap st "\<lambda>s. wheap (abs s)" setw
  for st :: "'s Store" and abs :: "'s \<Rightarrow> MemoryStore" and setw :: "watcher_id \<Rightarrow> memoryWatcher \<Rightarrow> 's \<Rightarrow> 's" +
  fixes ok :: "'s \<Rightarrow> bool"
  assumes ok_inv: "ok s \<Longrightarrow> mem_inv testScheme (abs s)"
    and abs_setw: "abs (setw x w s) = (abs s)\<lparr>wheap := (wheap (abs s))(x := w)\<rparr>"
    and ok_setw: "ok s \<Longrightarrow> w_gvk w = w_gvk (wheap (abs s) x) \<Longrightarrow> length (w_ch w) \<le> w_cap w \<Longrightarrow> ok (setw x w s)"
    and create: "ok s \<Longrightarrow> revision (abs s) < MaxInt64 \<Longrightarrow> is_testWidget obj \<Longrightarrow> suite_key (ObjectKeyFromObject obj) \<Longrightarrow>
      mem_view (abs s) widgetGVK (ObjectKeyFromObject obj) = None \<Longrightarrow>
      \<exists>s'. st_Create st s obj = (s', mem_created (abs s) obj, None) \<and> ok s' \<and>
        mem_commit (abs s) (abs s') widgetGVK \<lparr>ev_Type = EventAdded, ev_Object = mem_created (abs s) obj\<rparr>"
    and update: "ok s \<Longrightarrow> revision (abs s) < MaxInt64 \<Longrightarrow> is_testWidget obj \<Longrightarrow> suite_key (ObjectKeyFromObject obj) \<Longrightarrow>
      mem_view (abs s) widgetGVK (ObjectKeyFromObject obj) = Some stored \<Longrightarrow> is_testWidget stored \<Longrightarrow>
      GetResourceVersion obj = GetResourceVersion stored \<Longrightarrow> GetSpec obj \<noteq> GetSpec stored \<Longrightarrow>
      \<exists>s' new w. st_Update st s obj = (s', w, None) \<and> ok s' \<and>
        mem_commit (abs s) (abs s') widgetGVK \<lparr>ev_Type = EventModified, ev_Object = new\<rparr> \<and>
        is_testWidget new \<and> ObjectKeyFromObject new = ObjectKeyFromObject obj \<and>
        GetSpec new = GetSpec obj \<and> GetStatus new = GetStatus stored \<and>
        is_testWidget w \<and> ObjectKeyFromObject w = ObjectKeyFromObject obj \<and>
        GetResourceVersion w = GetResourceVersion new"
    and updateStatus: "ok s \<Longrightarrow> revision (abs s) < MaxInt64 \<Longrightarrow> is_testWidget obj \<Longrightarrow>
      suite_key (ObjectKeyFromObject obj) \<Longrightarrow>
      mem_view (abs s) widgetGVK (ObjectKeyFromObject obj) = Some stored \<Longrightarrow> is_testWidget stored \<Longrightarrow>
      GetResourceVersion obj = GetResourceVersion stored \<Longrightarrow> GetStatus obj \<noteq> GetStatus stored \<Longrightarrow>
      \<exists>s' new w. st_UpdateStatus st s obj = (s', w, None) \<and> ok s' \<and>
        mem_commit (abs s) (abs s') widgetGVK \<lparr>ev_Type = EventModified, ev_Object = new\<rparr> \<and>
        is_testWidget new \<and> ObjectKeyFromObject new = ObjectKeyFromObject obj \<and>
        GetSpec new = GetSpec stored \<and> GetStatus new = GetStatus obj"
    and conflict: "ok s \<Longrightarrow> revision (abs s) < MaxInt64 \<Longrightarrow> is_testWidget obj \<Longrightarrow> suite_key (ObjectKeyFromObject obj) \<Longrightarrow>
      mem_view (abs s) widgetGVK (ObjectKeyFromObject obj) = Some stored \<Longrightarrow>
      GetResourceVersion obj \<noteq> GetResourceVersion stored \<Longrightarrow>
      \<exists>k o1 o2. st_Update st s obj = (s, o1, Some (ConflictError k)) \<and>
        st_UpdateStatus st s obj = (s, o2, Some (ConflictError k))"
    and delete: "ok s \<Longrightarrow> revision (abs s) < MaxInt64 \<Longrightarrow> is_testWidget obj \<Longrightarrow> suite_key (ObjectKeyFromObject obj) \<Longrightarrow>
      mem_view (abs s) widgetGVK (ObjectKeyFromObject obj) = Some stored \<Longrightarrow>
      GetResourceVersion obj = GetResourceVersion stored \<Longrightarrow>
      \<exists>s'. st_Delete st s obj = (s', None) \<and> ok s' \<and>
        mem_commit (abs s) (abs s') widgetGVK
          \<lparr>ev_Type = EventDeleted, ev_Object = SetResourceVersion (FormatInt (revision (abs s) + 1)) stored\<rparr>"
    and get: "ok s \<Longrightarrow> suite_key key \<Longrightarrow> mem_view (abs s) widgetGVK key = Some stored \<Longrightarrow> is_testWidget stored \<Longrightarrow>
      st_Get st s key zeroWidget = (stored, None)"
    and list: "ok s \<Longrightarrow> \<exists>l. st_List st s zeroWidgetList [] = (s, l, None) \<and>
      ParseInt (ListResourceVersion l) = (revision (abs s), None) \<and>
      (\<forall>o1\<in>set (Items l). \<exists>k. mem_view (abs s) widgetGVK k = Some o1)"
    and watch: "ok s \<Longrightarrow>
      mem_Watch testScheme (abs s) zeroWidgetList opts = map_prod abs id (st_Watch st s zeroWidgetList opts) \<and>
      ok (fst (st_Watch st s zeroWidgetList opts))"
    and stop: "ok s \<Longrightarrow> mem_Stop (abs s) x = abs (st_Stop st s x) \<and> ok (st_Stop st s x)"
begin

abbreviation (input) emptied :: "watcher_id \<Rightarrow> 's \<Rightarrow> 's" where
  "emptied x s \<equiv> setw x ((wheap (abs s) x)\<lparr>w_ch := []\<rparr>) s"

lemma emptied_ok: "ok s \<Longrightarrow> ok (emptied x s)"
  by (rule ok_setw) simp_all

lemma watch_must:
  assumes "ok s" and "mem_replay (abs s) opts widgetGVK = Inr es"
  obtains s' where "mustWatch st s opts = Some (s', nextWatcher (abs s))" and "ok s'"
    and "abs s' = fst (mem_Watch testScheme (abs s) zeroWidgetList opts)"
proof -
  have "snd (mem_Watch testScheme (abs s) zeroWidgetList opts) = Inr (nextWatcher (abs s))"
    by (simp add: mem_Watch_eq [OF gvk_widget(2) assms(2)])
  with watch [OF assms(1), of opts] that show thesis
    by (cases "st_Watch st s zeroWidgetList opts") (auto simp: mustWatch_def)
qed

lemma watch_fresh_must:
  assumes "ok s" and "fresh_state n (abs s)"
  obtains s' where "mustWatch st s [] = Some (s', 0)" and "ok s'"
    and "abs s' = fst (mem_Watch testScheme (abs s) zeroWidgetList [])"
  using watch_must [OF assms(1), of "[]" "[]"] assms(2) by (auto simp: mem_replay_def fresh_state_def)

text \<open>The loop of creations.\<close>

lemma createEach_history:
  assumes "ok s" and "widget_history t h (abs s)" and "revision (abs s) + int (length ks) \<le> MaxInt64"
    and "distinct ks" and "\<forall>i\<in>set ks. int i \<le> MaxInt64" and "names_free pfx (set ks) (abs s)"
    and pfx: "pfx \<in> suite_prefixes"
  shows "\<exists>s' h'. createEach st pfx ks s = Some s' \<and> ok s' \<and> widget_history t (h @ h') (abs s') \<and>
    length h' = length ks \<and> (\<forall>en\<in>set h'. ev_Type (le_event en) = EventAdded) \<and>
    (\<forall>x al q. mem_watch_ok x widgetGVK al q (abs s) \<longrightarrow>
      wheap (abs s') x = sends (wheap (abs s) x) (map le_event h'))"
  using assms(1-6)
proof (induction ks arbitrary: s h)
  case Nil
  then show ?case by (intro exI [of _ s] exI [of _ "[]"]) (simp add: sends_def)
next
  case (Cons i ks)
  let ?w = "newTestWidget (pfx @ FormatInt (int i)) ''blue'' (int i)"
  have inv: "mem_inv testScheme (abs s)" and lt: "revision (abs s) < MaxInt64"
    using Cons.prems(1,3) by (simp_all add: ok_inv)
  have "mem_view (abs s) widgetGVK (ObjectKeyFromObject ?w) = None" "suite_key (ObjectKeyFromObject ?w)"
    using Cons.prems(6) suite_keyI [OF pfx] by (simp_all add: names_free_def)
  then obtain s1 where s1: "st_Create st s ?w = (s1, mem_created (abs s) ?w, None)" "ok s1"
      "mem_commit (abs s) (abs s1) widgetGVK \<lparr>ev_Type = EventAdded, ev_Object = mem_created (abs s) ?w\<rparr>"
    using create [OF Cons.prems(1) lt newTestWidget_is] by blast
  let ?e = "\<lparr>ev_Type = EventAdded, ev_Object = mem_created (abs s) ?w\<rparr>"
  let ?en = "\<lparr>le_revision = revision (abs s) + 1, le_gvk = widgetGVK, le_event = ?e\<rparr>"
  have h1: "widget_history t (h @ [?en]) (abs s1)"
    using Cons.prems(2) ok_inv [OF s1(2)] s1(3) by (rule widget_history_commit)
  have rev: "revision (abs s1) = revision (abs s) + 1" using s1(3) by (simp add: mem_commit_def)
  have free: "names_free pfx (set ks) (abs s1)"
    using Cons.prems(4-6) s1(3) by (intro commit_names_free [of pfx i "set ks" "abs s" "abs s1"]) auto
  obtain s' h' where s': "createEach st pfx ks s1 = Some s'" "ok s'"
      "widget_history t ((h @ [?en]) @ h') (abs s')" "length h' = length ks"
      "\<forall>en\<in>set h'. ev_Type (le_event en) = EventAdded"
      "\<forall>x al q. mem_watch_ok x widgetGVK al q (abs s1) \<longrightarrow>
        wheap (abs s') x = sends (wheap (abs s1) x) (map le_event h')"
    using Cons.IH [OF s1(2) h1 _ _ _ free] Cons.prems(3-5) rev by auto
  have "wheap (abs s') x = sends (wheap (abs s) x) (map le_event (?en # h'))"
    if "mem_watch_ok x widgetGVK al q (abs s)" for x al q
  proof -
    have "wheap (abs s') x = sends (wheap (abs s1) x) (map le_event h')"
      using mem_watch_ok_commit [OF inv that s1(3)] s'(6) by blast
    then show ?thesis by (simp add: commit_watcher [OF that s1(3)] sends_def)
  qed
  with s' s1(1) show ?case
    by (intro exI [of _ s'] exI [of _ "?en # h'"]) (auto simp: mustCreate_def)
qed

lemma watched_creations:
  assumes "ok t" and t: "fresh_state n (abs t)" and "int k \<le> MaxInt64" and pfx: "pfx \<in> suite_prefixes"
  obtains s0 s h where "mustWatch st t [] = Some (s0, 0)" and "createEach st pfx [0..<k] s0 = Some s" and "ok s"
    and "widget_history (abs t) h (abs s)" and "length h = k"
    and "wheap (abs s) 0 = \<lparr>w_gvk = widgetGVK, w_ch = take 100 (map le_event h), w_cap = 100, w_closed = (k > 100)\<rparr>"
proof -
  note f = watch_fresh [OF t]
  obtain s0 where s0: "mustWatch st t [] = Some (s0, 0)" "ok s0"
      "abs s0 = fst (mem_Watch testScheme (abs t) zeroWidgetList [])"
    using assms(1) t by (rule watch_fresh_must)
  obtain s h where s: "createEach st pfx [0..<k] s0 = Some s" "ok s" "widget_history (abs t) h (abs s)" "length h = k"
      "\<forall>x al q. mem_watch_ok x widgetGVK al q (abs s0) \<longrightarrow>
        wheap (abs s) x = sends (wheap (abs s0) x) (map le_event h)"
    using createEach_history [OF s0(2) f(2) [folded s0(3)] _ distinct_upt _ names_free_empty [OF f(6) [folded s0(3)]] pfx, of 0 k]
      assms(3) f(5) [folded s0(3)] by auto
  have "wheap (abs s) 0 = sends (wheap (abs s0) 0) (map le_event h)" using s(5) f(3) [folded s0(3)] by blast
  then have "wheap (abs s) 0 = \<lparr>w_gvk = widgetGVK, w_ch = take 100 (map le_event h), w_cap = 100, w_closed = (k > 100)\<rparr>"
    by (simp add: f(4) [folded s0(3)] sends_open s(4))
  with s0(1) s(1-4) that show thesis by blast
qed

section \<open>The subtests with many widgets\<close>

lemma revision_monotonicity:
  assumes cfg: "NewStore cfg testScheme = (st, t)" and t: "ok t" "fresh_state 1000 (abs t)"
  shows "invariants_revision_monotonicity_in_watch cfg = Some ()"
proof -
  obtain s0 s h where s: "mustWatch st t [] = Some (s0, 0)" "createEach st ''mono-'' [0..<10] s0 = Some s"
      "widget_history (abs t) h (abs s)" "length h = 10"
      "wheap (abs s) 0 = \<lparr>w_gvk = widgetGVK, w_ch = take 100 (map le_event h), w_cap = 100, w_closed = (10 > (100::nat))\<rparr>"
    by (rule watched_creations [OF t, of 10 "''mono-''"]) (auto simp: MaxInt64_def)
  note h = fresh_history [OF t(2) s(3)]
  have "w_ch (wheap (abs s) 0) = map le_event h" using s(4,5) by simp
  then obtain s' where "receiveRising st 0 [0..<10] 0 s = Some s'"
    using receiveRising_segment [OF _ h(4), of s 0 0 "[0..<10]"] s(4) h(1) by auto
  with s(1,2) cfg show ?thesis
    by (simp add: invariants_revision_monotonicity_in_watch_def del: upt.simps)
qed

lemma consistent_snapshot:
  assumes cfg: "NewStore cfg testScheme = (st, t)" and t: "ok t" "fresh_state 1000 (abs t)"
  shows "invariants_list_returns_consistent_snapshot cfg = Some ()"
proof -
  obtain s where s: "createEach st ''snap-'' [0..<5] t = Some s" "ok s"
    using createEach_history [OF t(1) fresh_start [OF t(2)] _ distinct_upt _ names_free_empty, of 0 5 "''snap-''"] t(2)
    by (auto simp: MaxInt64_def fresh_state_def)
  obtain l where l: "st_List st s zeroWidgetList [] = (s, l, None)"
      "ParseInt (ListResourceVersion l) = (revision (abs s), None)"
      "\<forall>o1\<in>set (Items l). \<exists>k. mem_view (abs s) widgetGVK k = Some o1"
    using list [OF s(2)] by blast
  have "\<exists>r. ParseInt (GetResourceVersion o1) = (r, None) \<and> r \<le> revision (abs s)" if o1: "o1 \<in> set (Items l)" for o1
  proof -
    obtain k where "mem_view (abs s) widgetGVK k = Some o1" using l(3) o1 by blast
    with ok_inv [OF s(2)] have "mem_obj_ok testScheme (revision (abs s)) widgetGVK k o1" by (rule mem_view_Some)
    then obtain r where r: "0 < r" "r \<le> revision (abs s)" "GetResourceVersion o1 = FormatInt r"
      unfolding mem_obj_ok_def by blast
    then have "ParseInt (GetResourceVersion o1) = (r, None)"
      using mem_revision_bounds [OF ok_inv [OF s(2)]] by (simp add: is_int64_def MinInt64_def)
    with r(2) show ?thesis by blast
  qed
  then have "list_all (\<lambda>item. snd (ParseInt (GetResourceVersion item)) = None \<and>
      \<not> fst (ParseInt (GetResourceVersion item)) > revision (abs s)) (Items l)"
    by (fastforce simp: list_all_iff)
  with s(1) l(1,2) cfg show ?thesis
    by (simp add: invariants_list_returns_consistent_snapshot_def mustList_def check_def del: upt.simps)
qed

lemma overflow_closes:
  assumes cfg: "NewStore cfg testScheme = (st, t)" and t: "ok t" "fresh_state 1000 (abs t)"
  shows "watch_overflow_closes_watch cfg = Some ()"
proof -
  obtain s0 s h where s: "mustWatch st t [] = Some (s0, 0)" "createEach st ''overflow-'' [0..<200] s0 = Some s" "ok s"
      "widget_history (abs t) h (abs s)" "length h = 200"
      "wheap (abs s) 0 = \<lparr>w_gvk = widgetGVK, w_ch = take 100 (map le_event h), w_cap = 100, w_closed = (200 > (100::nat))\<rparr>"
    by (rule watched_creations [OF t, of 200 "''overflow-''"]) (auto simp: MaxInt64_def)
  note h = fresh_history [OF t(2) s(4)]
  let ?s = "emptied 0 s" and ?evts = "take 100 (map le_event h)" and ?r = "le_revision (h ! 99)"
  have drain: "drainClosed st 0 s [] = Some (?s, ?evts)"
    using loops [of 0 s "[]"] s(6) by simp
  have len: "length ?evts = 100" "?evts \<noteq> []" using s(5) by auto
  then have last: "last ?evts = le_event (h ! 99)" using s(5) by (simp add: last_conv_nth)
  have "h ! 99 \<in> set h" using s(5) by simp
  then have "0 < ?r" "?r \<le> 200" and rv: "GetResourceVersion (ev_Object (le_event (h ! 99))) = FormatInt ?r"
    using contiguous_bounds [OF h(3)] h(1,4) s(5) by (auto simp: rv_segment_def)
  then have r: "fst (evRV (last ?evts)) = ?r" "0 \<le> ?r" "?r < MaxInt64"
    by (auto simp: last is_int64_def MinInt64_def MaxInt64_def)
  obtain es where "mem_eventsSince (abs ?s) ?r widgetGVK = Inr es"
    using fresh_since_covered [OF t(2) s(4) _ r(2,3), of "abs ?s" widgetGVK] s(5) by (auto simp: abs_setw)
  then have rp: "mem_replay (abs ?s) [WatchFromRevision ?r] widgetGVK = Inr es"
    by (simp add: mem_replay_def)
  obtain s2 where "mustWatch st ?s [WatchFromRevision ?r] = Some (s2, nextWatcher (abs ?s))"
    using emptied_ok [OF s(3)] rp by (rule watch_must)
  with s(1,2) drain len r(1) cfg show ?thesis
    by (simp add: watch_overflow_closes_watch_def check_def del: upt.simps)
qed

lemma too_old:
  assumes cfg: "NewSmallEventLogStore cfg = Some new" "new testScheme = (st, t)"
    and t: "ok t" "fresh_state 5 (abs t)" and gone: "IsGone lib (RevisionTooOldError 1 6)"
  shows "watch_RevisionTooOldError lib cfg = Some ()"
proof -
  obtain s h where s: "createEach st ''w'' [0..<10] t = Some s" "ok s"
      "widget_history (abs t) h (abs s)" "length h = 10" "\<forall>en\<in>set h. ev_Type (le_event en) = EventAdded"
    using createEach_history [OF t(1) fresh_start [OF t(2)] _ distinct_upt _ names_free_empty, of 0 10 "''w''"] t(2)
    by (auto simp: MaxInt64_def fresh_state_def)
  note h = fresh_history [OF t(2) s(3)]
  have log: "eventLog (abs s) = drop 5 h" using h(2) s(4) by (simp add: last_n_def)
  then have "length (eventLog (abs s)) = Suc 4" using s(4) by simp
  then obtain en l where l: "eventLog (abs s) = en # l" "length l = 4"
    unfolding length_Suc_conv by blast
  have con: "contiguous (eventLog (abs s)) 10"
    using contiguous_drop [OF h(3), of 5] h(1) s(4) by (simp add: log)
  have six: "le_revision en = 6" using contiguous_hd [of en l 10] con by (simp add: l)
  have rev: "revision (abs s) = 10" using h(1) s(4) by simp
  have "mem_eventsSince (abs s) 1 widgetGVK = Inl (RevisionTooOldError 1 6)"
    by (simp add: mem_eventsSince_def rev l(1) six add64_Suc MaxInt64_def)
  then have "mem_Watch testScheme (abs s) zeroWidgetList [WatchFromRevision 1] = (abs s, Inl (RevisionTooOldError 1 6))"
    by (intro mem_Watch_error(2) [OF gvk_widget(2)]) (simp add: mem_replay_def)
  with watch [OF s(2), of "[WatchFromRevision 1]"] obtain s1 where
    s1: "st_Watch st s zeroWidgetList [WatchFromRevision 1] = (s1, Inl (RevisionTooOldError 1 6))" "abs s1 = abs s" "ok s1"
    by (cases "st_Watch st s zeroWidgetList [WatchFromRevision 1]") auto
  have "\<forall>e\<in>set (eventLog (abs s)). le_revision e > 5 \<and> le_gvk e = widgetGVK"
    using contiguous_bounds [OF con] l s(3,4) set_drop_subset [of 5 h] by (auto simp: log widget_history_def)
  then have "mem_eventsSince (abs s) 5 widgetGVK = Inr (map le_event (eventLog (abs s)))"
    by (simp add: mem_eventsSince_def rev l(1) six add64_Suc MaxInt64_def)
  then have rp: "mem_replay (abs s1) [WatchFromRevision 5] widgetGVK = Inr (map le_event (drop 5 h))"
    by (simp add: mem_replay_def log s1(2))
  obtain s2 where s2: "mustWatch st s1 [WatchFromRevision 5] = Some (s2, nextWatcher (abs s1))"
      "abs s2 = fst (mem_Watch testScheme (abs s1) zeroWidgetList [WatchFromRevision 5])"
    using s1(3) rp by (rule watch_must)
  have ch: "w_ch (wheap (abs s2) (nextWatcher (abs s1))) = map le_event (drop 5 h) @ []"
    by (simp add: s2(2) mem_Watch_eq [OF gvk_widget(2) rp] mem_replayFilter_def applyListOptions_def emptyListOptions_def)
  have "list_all2 (\<lambda>p e. p e) (map (\<lambda>_. isAdded) [0..<5]) (map le_event (drop 5 h))"
    using s(4,5) by (auto simp: list_all2_conv_all_nth simp del: upt.simps)
  then obtain s' where "receiveEach st (nextWatcher (abs s1)) (map (\<lambda>_. isAdded) [0..<5]) s2 = Some s'"
    using receiveEach_heap [OF ch] by blast
  with s(1) s1(1) s2(1) cfg gone show ?thesis
    by (simp add: watch_RevisionTooOldError_def check_def del: upt.simps)
qed

end

end
