(* ===== verification/Conformance_Concurrent.thy ===== *)
theory Conformance_Concurrent
  imports Conformance_Laws
begin

text \<open>
  The workers of the concurrent subtests, which create, update and delete widgets beside a watcher,
  over every \<open>widget_store\<close>. \<open>crud_inv\<close> is their invariant; it holds under every schedule, so the
  subtests pass under every schedule.
\<close>

section \<open>Workers\<close>

abbreviation workerKey :: "string \<Rightarrow> nat \<Rightarrow> ObjectKey" where
  "workerKey pfx i \<equiv> defaultKey (pfx @ FormatInt (int i))"

text \<open>
  What a worker relies on: it alone touches its key, and the object it holds carries the resource
  version of the stored one.
\<close>

fun worker_ok :: "bool \<Rightarrow> ObjectKey \<Rightarrow> view \<Rightarrow> worker \<Rightarrow> bool" where
  "worker_ok del k v KCreate = (v k = None)"
| "worker_ok del k v (KUpdate w) =
     (\<exists>stored. v k = Some stored \<and> is_testWidget stored \<and> is_testWidget w \<and> ObjectKeyFromObject w = k \<and>
        GetResourceVersion w = GetResourceVersion stored \<and> GetSpec w \<noteq> GetSpec stored)"
| "worker_ok del k v (KDelete w) =
     (del \<and> (\<exists>stored. v k = Some stored \<and> is_testWidget w \<and> ObjectKeyFromObject w = k \<and>
        GetResourceVersion w = GetResourceVersion stored))"
| "worker_ok del k v KDone = True"
| "worker_ok del k v KFailed = False"
| "worker_ok del k v (KRead n) = False"

lemma worker_ok_cong: "v k = v' k \<Longrightarrow> worker_ok del k v p \<Longrightarrow> worker_ok del k v' p"
  by (cases p) auto

fun progress :: "bool \<Rightarrow> worker \<Rightarrow> nat" where
  "progress del KCreate = 0"
| "progress del (KUpdate w) = 1"
| "progress del (KDelete w) = 2"
| "progress del KDone = (if del then 3 else 2)"
| "progress del p = 0"

definition crud_inv ::
  "MemoryStore \<Rightarrow> nat \<Rightarrow> bool \<Rightarrow> string \<Rightarrow> worker list \<Rightarrow> MemoryStore \<Rightarrow> bool" where
  "crud_inv t N del pfx ps s \<longleftrightarrow>
     fresh_state 1000 t \<and> pfx \<in> suite_prefixes \<and> N \<le> 10 \<and> (\<forall>i<N. worker_ok del (workerKey pfx i) (mem_view s widgetGVK) (ps ! i)) \<and>
     (\<exists>h q. widget_history t h s \<and> length h = (\<Sum>i<N. progress del (ps ! i)) \<and>
        mem_watch_ok 0 widgetGVK (map le_event h) q s \<and> \<not> w_closed (wheap s 0) \<and> w_cap (wheap s 0) = 100 \<and>
        (length ps = N \<and> q = [] \<or> length ps = Suc N \<and> ps ! N = KRead (length q)))"

lemma progress_le: "progress del p \<le> 3"
  by (cases p) auto

lemma crud_total: "N \<le> 10 \<Longrightarrow> (\<Sum>i<N. progress del (ps ! i)) \<le> 30"
  using sum_bounded_above [of "{..<N}" "\<lambda>i. progress del (ps ! i)" 3] by (simp add: progress_le)

lemma crud_inv_facts:
  assumes "crud_inv t N del pfx ps s"
  shows "mem_inv testScheme s" "revision s < MaxInt64"
    and "i < N \<Longrightarrow> worker_ok del (workerKey pfx i) (mem_view s widgetGVK) (ps ! i)"
proof -
  obtain h where t: "fresh_state 1000 t" and "N \<le> 10" and h: "widget_history t h s" "length h = (\<Sum>i<N. progress del (ps ! i))"
    using assms unfolding crud_inv_def by blast
  then have "revision s \<le> 30" using fresh_history(1) [OF t h(1)] crud_total [of N del ps] by linarith
  then show "revision s < MaxInt64" by (simp add: MaxInt64_def)
  show "mem_inv testScheme s" using h(1) by (simp add: widget_history_def)
  show "i < N \<Longrightarrow> worker_ok del (workerKey pfx i) (mem_view s widgetGVK) (ps ! i)"
    using assms by (simp add: crud_inv_def)
qed

lemma sum_update:
  assumes "i < N" and "N \<le> length ps" and "f p = f (ps ! i) + (1::nat)"
  shows "(\<Sum>j<N. f (ps[i := p] ! j)) = (\<Sum>j<N. f (ps ! j)) + 1"
proof -
  have "(\<Sum>j<N. f (ps[i := p] ! j)) = f p + (\<Sum>j\<in>{..<N} - {i}. f (ps[i := p] ! j))"
    using assms(1,2) by (subst sum.remove [of _ i]) auto
  also have "(\<Sum>j\<in>{..<N} - {i}. f (ps[i := p] ! j)) = (\<Sum>j\<in>{..<N} - {i}. f (ps ! j))"
    by (intro sum.cong) auto
  also have "f p + \<dots> = (\<Sum>j<N. f (ps ! j)) + 1"
    using assms(1,3) by (subst (2) sum.remove [of _ i]) auto
  finally show ?thesis .
qed

lemma worker_commit:
  assumes inv: "crud_inv t N del pfx ps s" and i: "i < N"
    and s': "mem_inv testScheme s'" "mem_commit s s' widgetGVK e"
    and e: "ObjectKeyFromObject (ev_Object e) = workerKey pfx i"
    and p: "worker_ok del (workerKey pfx i) (mem_view s' widgetGVK) p" "progress del p = progress del (ps ! i) + 1"
  shows "crud_inv t N del pfx (ps[i := p]) s'"
proof -
  obtain h q where t: "fresh_state 1000 t" "pfx \<in> suite_prefixes" and N: "N \<le> 10" and ok: "\<forall>j<N. worker_ok del (workerKey pfx j) (mem_view s widgetGVK) (ps ! j)"
    and h: "widget_history t h s" "length h = (\<Sum>i<N. progress del (ps ! i))"
    and w: "mem_watch_ok 0 widgetGVK (map le_event h) q s" "\<not> w_closed (wheap s 0)" "w_cap (wheap s 0) = 100"
    and r: "length ps = N \<and> q = [] \<or> length ps = Suc N \<and> ps ! N = KRead (length q)"
    using inv unfolding crud_inv_def by blast
  let ?h = "h @ [\<lparr>le_revision = revision s + 1, le_gvk = widgetGVK, le_event = e\<rparr>]"
  have sm: "mem_inv testScheme s" using h(1) by (simp add: widget_history_def)
  have "mem_view s' widgetGVK k = mem_view s widgetGVK k" if "k \<noteq> workerKey pfx i" for k
    using s'(2) e that by (auto simp: mem_commit_def apply_event.simps split: EventType.split)
  moreover have "workerKey pfx j \<noteq> workerKey pfx i" if "j < N" "j \<noteq> i" for j
    using that i N name_inject [of j i] by (auto simp: MaxInt64_def)
  ultimately have ok': "worker_ok del (workerKey pfx j) (mem_view s' widgetGVK) (ps[i := p] ! j)" if "j < N" for j
    using that ok p(1) r i by (cases "j = i") (auto intro: worker_ok_cong [rotated])
  have ch: "q @ w_ch (wheap s 0) = map le_event h" using w(1,2) by (simp add: mem_watch_ok_def)
  have "length (w_ch (wheap s 0)) \<le> 30"
    using arg_cong [OF ch, of length] crud_total [OF N, of del ps] h(2) by simp
  then have w0: "wheap s' 0 = (wheap s 0)\<lparr>w_ch := w_ch (wheap s 0) @ [e]\<rparr>"
    using w commit_watcher [OF w(1) s'(2)] by (simp add: memw_send_cases(2))
  have "widget_history t ?h s'"
    using h(1) s' by (rule widget_history_commit)
  moreover have "length ?h = (\<Sum>j<N. progress del (ps[i := p] ! j))"
    using h(2) sum_update [of i N ps "progress del" p] i r p(2) by auto
  moreover have "mem_watch_ok 0 widgetGVK (map le_event ?h) q s'"
    using mem_watch_ok_commit [OF sm w(1) s'(2)] by simp
  ultimately show ?thesis
    unfolding crud_inv_def using t N ok' w0 w r i by (intro conjI exI [of _ ?h] exI [of _ q]) auto
qed

lemma struct_set_widget:
  assumes "Body o1 = fmap_of_list [(''spec'', testWidgetSpec c n), (''status'', testWidgetStatus r p)]"
  shows "Body (set_Color c' o1) = fmap_of_list [(''spec'', testWidgetSpec c' n), (''status'', testWidgetStatus r p)]"
    and "Body (set_Phase p' o1) = fmap_of_list [(''spec'', testWidgetSpec c n), (''status'', testWidgetStatus r p')]"
  by (simp_all add: struct_set_def assms fmlookup_of_list testWidgetSpec_def testWidgetStatus_def)
    (auto intro!: fmap_ext simp: fmlookup_of_list)

lemma struct_set_frame [simp]:
  "GoType (struct_set k f v o1) = GoType o1" "Meta (struct_set k f v o1) = Meta o1"
  "ObjectKeyFromObject (struct_set k f v o1) = ObjectKeyFromObject o1"
  by (auto simp: struct_set_def ObjectKeyFromObject_def split: option.split json.split)

lemma interleave_append:
  "interleave step (ks @ ls) ps s = (case interleave step ks ps s of (ps', s') \<Rightarrow> interleave step ls ps' s')"
  by (induction ks arbitrary: ps s) (simp_all split: prod.split)

lemma interleave_frame:
  "length (fst (interleave step ks ps s)) = length ps"
  "j \<notin> set ks \<Longrightarrow> fst (interleave step ks ps s) ! j = ps ! j"
  by (induction ks arbitrary: ps s) (simp_all split: prod.split)

lemma interleave_quiet:
  assumes "m \<le> length ps" and "\<And>i. i < m \<Longrightarrow> step i (ps ! i) s = (f i, s)"
  shows "interleave step [0..<m] ps s = (map f [0..<m] @ drop m ps, s)"
  using assms
proof (induction m)
  case 0
  then show ?case by simp
next
  case (Suc m)
  then have "interleave step [0..<m] ps s = (map f [0..<m] @ drop m ps, s)" by simp
  moreover have "(map f [0..<m] @ drop m ps) ! m = ps ! m" "(map f [0..<m] @ drop m ps)[m := p] = map f [0..<m] @ p # drop (Suc m) ps" for p
    using Suc.prems(1) by (simp_all add: nth_append list_update_append Cons_nth_drop_Suc [symmetric])
  ultimately show ?case using Suc.prems by (simp add: interleave_append)
qed

lemma progress_done:
  "worker_ok del k v p \<Longrightarrow> progress del p = progress del KDone \<Longrightarrow> p = KDone"
  by (cases p) (auto split: if_splits)

lemma crud_inv_length: "crud_inv t N del pfx ps s \<Longrightarrow> N \<le> length ps"
  by (auto simp: crud_inv_def)

context widget_store
begin

definition crud_ok :: "MemoryStore \<Rightarrow> nat \<Rightarrow> bool \<Rightarrow> string \<Rightarrow> worker list \<Rightarrow> 's \<Rightarrow> bool" where
  "crud_ok t N del pfx ps s \<longleftrightarrow> ok s \<and> crud_inv t N del pfx ps (abs s)"

lemma crud_ok_facts:
  assumes "crud_ok t N del pfx ps s"
  shows "ok s" "revision (abs s) < MaxInt64" "N \<le> length ps" "suite_key (workerKey pfx i)"
    and "i < N \<Longrightarrow> worker_ok del (workerKey pfx i) (mem_view (abs s) widgetGVK) (ps ! i)"
  using assms crud_inv_facts [of t N del pfx ps "abs s"] crud_inv_length suite_keyI
  by (auto simp: crud_ok_def) (auto simp: crud_inv_def)

lemma worker_ok_commit:
  assumes inv: "crud_ok t N del pfx ps s" and i: "i < N" and s': "ok s'" "mem_commit (abs s) (abs s') widgetGVK e"
    and e: "ObjectKeyFromObject (ev_Object e) = workerKey pfx i"
    and p: "worker_ok del (workerKey pfx i) (mem_view (abs s') widgetGVK) p" "progress del p = progress del (ps ! i) + 1"
  shows "crud_ok t N del pfx (ps[i := p]) s'"
  using worker_commit [OF _ i ok_inv [OF s'(1)] s'(2) e p] inv s'(1) by (auto simp: crud_ok_def)

lemma worker_create:
  assumes inv: "crud_ok t N del pfx ps s" and i: "i < N" and p: "ps ! i = KCreate"
  obtains p' s' where "worker_step st x pfx del i KCreate s = (p', s')"
    and "crud_ok t N del pfx (ps[i := p']) s'" and "progress del p' = 1"
proof -
  let ?w = "newTestWidget (pfx @ FormatInt (int i)) ''blue'' (int i)"
  have free: "suite_key (ObjectKeyFromObject ?w)" "mem_view (abs s) widgetGVK (ObjectKeyFromObject ?w) = None"
    using crud_ok_facts(4,5) [OF inv, of i] i p by simp_all
  obtain s' where s': "st_Create st s ?w = (s', mem_created (abs s) ?w, None)" "ok s'"
      "mem_commit (abs s) (abs s') widgetGVK \<lparr>ev_Type = EventAdded, ev_Object = mem_created (abs s) ?w\<rparr>"
    using create [OF crud_ok_facts(1,2) [OF inv] newTestWidget_is free] by blast
  let ?c = "mem_created (abs s) ?w"
  let ?p = "KUpdate (set_Color ''red'' ?c)"
  have body: "Body ?c = fmap_of_list [(''spec'', testWidgetSpec ''blue'' (int i)), (''status'', testWidgetStatus False [])]"
    by (simp add: newTestWidget_def zeroWidget_def)
  have red: "is_testWidget (set_Color ''red'' ?c)" "GetSpec (set_Color ''red'' ?c) \<noteq> GetSpec ?c"
    using struct_set_widget(1) [OF body, of "''red''"] body
    by (auto simp: is_testWidget_def fmlookup_of_list testWidgetSpec_def)
  have "worker_ok del (workerKey pfx i) (mem_view (abs s') widgetGVK) ?p"
    using s'(3) red mem_created_widget [OF newTestWidget_is] by (auto simp: mem_commit_def apply_event_cases)
  then have "crud_ok t N del pfx (ps[i := ?p]) s'"
    using p by (intro worker_ok_commit [OF inv i s'(2,3)]) simp_all
  with s'(1) that show thesis by simp
qed

lemma worker_update:
  assumes inv: "crud_ok t N del pfx ps s" and i: "i < N" and p: "ps ! i = KUpdate w"
  obtains p' s' where "worker_step st x pfx del i (KUpdate w) s = (p', s')"
    and "crud_ok t N del pfx (ps[i := p']) s'" and "progress del p' = 2"
proof -
  obtain stored where k: "suite_key (ObjectKeyFromObject w)" "ObjectKeyFromObject w = workerKey pfx i"
    and v: "is_testWidget w" "mem_view (abs s) widgetGVK (ObjectKeyFromObject w) = Some stored" "is_testWidget stored"
      "GetResourceVersion w = GetResourceVersion stored" "GetSpec w \<noteq> GetSpec stored"
    using crud_ok_facts(4,5) [OF inv, of i] i p by auto
  obtain s' new w' where s': "st_Update st s w = (s', w', None)" "ok s'"
      "mem_commit (abs s) (abs s') widgetGVK \<lparr>ev_Type = EventModified, ev_Object = new\<rparr>"
      "ObjectKeyFromObject new = ObjectKeyFromObject w"
      "is_testWidget w'" "ObjectKeyFromObject w' = ObjectKeyFromObject w"
      "GetResourceVersion w' = GetResourceVersion new"
    using update [OF crud_ok_facts(1,2) [OF inv] v(1) k(1) v(2-)] by blast
  let ?p = "if del then KDelete w' else KDone"
  have "worker_ok del (workerKey pfx i) (mem_view (abs s') widgetGVK) ?p"
    using s'(3-) k(2) by (auto simp: mem_commit_def apply_event_cases)
  then have "crud_ok t N del pfx (ps[i := ?p]) s'"
    using p s'(4) k(2) by (intro worker_ok_commit [OF inv i s'(2,3)]) simp_all
  with s'(1) that show thesis by simp
qed

lemma worker_delete:
  assumes inv: "crud_ok t N del pfx ps s" and i: "i < N" and p: "ps ! i = KDelete w"
  obtains s' where "worker_step st x pfx del i (KDelete w) s = (KDone, s')"
    and "crud_ok t N del pfx (ps[i := KDone]) s'" and "progress del KDone = 3"
proof -
  obtain stored where k: "suite_key (ObjectKeyFromObject w)" "ObjectKeyFromObject w = workerKey pfx i" and del
    and v: "is_testWidget w" "mem_view (abs s) widgetGVK (ObjectKeyFromObject w) = Some stored"
      "GetResourceVersion w = GetResourceVersion stored"
    using crud_ok_facts(4,5) [OF inv, of i] i p by auto
  let ?d = "SetResourceVersion (FormatInt (revision (abs s) + 1)) stored"
  obtain s' where s': "st_Delete st s w = (s', None)" "ok s'"
      "mem_commit (abs s) (abs s') widgetGVK \<lparr>ev_Type = EventDeleted, ev_Object = ?d\<rparr>"
    using delete [OF crud_ok_facts(1,2) [OF inv] v(1) k(1) v(2,3)] by blast
  have "mem_obj_ok testScheme (revision (abs s)) widgetGVK (ObjectKeyFromObject w) stored"
    using ok_inv [OF crud_ok_facts(1) [OF inv]] v(2) by (rule mem_view_Some)
  then have "ObjectKeyFromObject stored = workerKey pfx i" using k(2) by (simp add: mem_obj_ok_def)
  then have "crud_ok t N del pfx (ps[i := KDone]) s'"
    using p \<open>del\<close> by (intro worker_ok_commit [OF inv i s'(2,3)]) simp_all
  with s'(1) \<open>del\<close> that show thesis by simp
qed

lemma reader_step:
  assumes inv: "crud_ok t N del pfx ps s" and i: "i < length ps" "\<not> i < N"
  obtains p' s' where "worker_step st 0 pfx del i (ps ! i) s = (p', s')" and "crud_ok t N del pfx (ps[i := p']) s'"
proof -
  obtain h q where ok: "ok s" and t: "fresh_state 1000 t" "pfx \<in> suite_prefixes" and N: "N \<le> 10"
    and wk: "\<forall>j<N. worker_ok del (workerKey pfx j) (mem_view (abs s) widgetGVK) (ps ! j)"
    and h: "widget_history t h (abs s)" "length h = (\<Sum>i<N. progress del (ps ! i))"
    and w: "mem_watch_ok 0 widgetGVK (map le_event h) q (abs s)" "\<not> w_closed (wheap (abs s) 0)" "w_cap (wheap (abs s) 0) = 100"
    and r: "length ps = Suc N" "ps ! N = KRead (length q)"
    using inv i unfolding crud_ok_def crud_inv_def by auto
  have iN: "i = N" using i r(1) by simp
  let ?s = "setw 0 (fst (memw_Recv (wheap (abs s) 0))) s" and ?m = "fst (mem_Recv (abs s) 0)"
  let ?q = "q @ mem_took 0 (OpRecv 0) (abs s)"
  have bound: "length (w_ch (wheap (abs s) 0)) \<le> w_cap (wheap (abs s) 0)"
    using ok_inv [OF ok] by (simp add: mem_inv_def mem_watchers_ok_def)
  have abs: "abs ?s = ?m" by (simp add: abs_setw mem_Recv_def Let_def)
  have ok': "ok ?s"
    by (rule ok_setw [OF ok]) (use bound in \<open>auto simp: memw_Recv_def split: list.split\<close>)
  have quiet: "mem_inv testScheme ?m" "mem_quiet (abs s) ?m"
    using mem_Recv_quiet [OF ok_inv [OF ok], of 0] by auto
  have hist: "widget_history t h ?m"
    using h(1) quiet by (auto simp: widget_history_def intro: mem_extends_quiet)
  have ch: "\<not> w_closed (wheap ?m 0)" "w_cap (wheap ?m 0) = 100"
    using w(2,3) by (auto simp: mem_Recv_def memw_Recv_def Let_def split: list.split)
  have "worker_step st 0 pfx del i (ps ! i) s = (KRead (length ?q), ?s)"
    using r(2) iN by (auto simp: recv_eq mem_Recv_def memw_Recv_def Let_def split: list.split)
  moreover have "(\<Sum>j<N. progress del (ps[N := p] ! j)) = (\<Sum>j<N. progress del (ps ! j))" for p
    by (intro sum.cong) auto
  then have "crud_inv t N del pfx (ps[i := KRead (length ?q)]) ?m"
    unfolding crud_inv_def using t N wk hist h(2) ch mem_watch_ok_Recv [OF w(1), of 0] r(1) iN quiet(2)
    by (intro conjI exI [of _ h] exI [of _ ?q]) (auto simp: mem_quiet_def)
  ultimately show thesis using that ok' by (simp add: crud_ok_def abs)
qed

lemma worker_turn:
  assumes inv: "crud_ok t N del pfx ps s" and i: "i < N"
  obtains p' s' where "worker_step st 0 pfx del i (ps ! i) s = (p', s')"
    and "crud_ok t N del pfx (ps[i := p']) s'"
    and "progress del p' = min (progress del KDone) (Suc (progress del (ps ! i)))"
proof (cases "ps ! i")
  case KCreate
  with worker_create [OF inv i, of 0] that show thesis by fastforce
next
  case (KUpdate w)
  with worker_update [OF inv i, of w 0] that show thesis by fastforce
next
  case (KDelete w)
  with worker_delete [OF inv i, of w 0] that show thesis by fastforce
next
  case KDone
  then have "ps[i := KDone] = ps" using list_update_id [of ps i] by simp
  with KDone inv that [of KDone s] show thesis by simp
qed (use crud_ok_facts(5) [OF inv i] in auto)

lemma crud_interleave:
  "crud_ok t N del pfx ps s \<Longrightarrow> interleave (worker_step st 0 pfx del) ks ps s = (ps', s') \<Longrightarrow>
   crud_ok t N del pfx ps' s'"
proof (induction ks arbitrary: ps s)
  case Nil
  then show ?case by simp
next
  case (Cons i ks)
  show ?case
  proof (cases "i < length ps")
    case True
    obtain p s1 where "worker_step st 0 pfx del i (ps ! i) s = (p, s1)" "crud_ok t N del pfx (ps[i := p]) s1"
    proof (cases "i < N")
      case N: True
      with worker_turn [OF Cons.prems(1) N] that show thesis by blast
    next
      case N: False
      with reader_step [OF Cons.prems(1) True N] that show thesis by blast
    qed
    with Cons.IH [of "ps[i := p]" s1] Cons.prems(2) True show ?thesis by simp
  next
    case False
    with Cons show ?thesis by simp
  qed
qed

lemma crud_block:
  "crud_ok t N del pfx ps s \<Longrightarrow> i < N \<Longrightarrow>
   interleave (worker_step st 0 pfx del) (replicate k i) ps s = (ps', s') \<Longrightarrow>
   progress del (ps' ! i) = min (progress del KDone) (progress del (ps ! i) + k)"
proof (induction k arbitrary: ps s)
  case 0
  have "progress del (ps ! i) \<le> progress del KDone"
    using crud_ok_facts(5) [OF 0(1,2)] by (cases "ps ! i") auto
  with 0 show ?case by simp
next
  case (Suc k)
  obtain p s1 where p: "worker_step st 0 pfx del i (ps ! i) s = (p, s1)"
      "crud_ok t N del pfx (ps[i := p]) s1" "progress del p = min (progress del KDone) (Suc (progress del (ps ! i)))"
    using Suc.prems(1,2) by (rule worker_turn)
  have len: "i < length ps" using Suc.prems(2) crud_ok_facts(3) [OF Suc.prems(1)] by simp
  have "progress del (ps' ! i) = min (progress del KDone) (progress del (ps[i := p] ! i) + k)"
    using Suc.IH [OF p(2) Suc.prems(2)] Suc.prems(3) p(1) len by simp
  with p(3) len show ?case by auto
qed

lemma crud_finish:
  assumes "crud_ok t N del pfx ps s" and "progress del KDone \<le> k" and "set is \<subseteq> {..<N}" and "distinct is"
    and "interleave (worker_step st 0 pfx del) (concat (map (replicate k) is)) ps s = (ps', s')"
  shows "\<forall>i\<in>set is. ps' ! i = KDone"
  using assms
proof (induction "is" arbitrary: ps s)
  case Nil
  then show ?case by simp
next
  case (Cons i "is")
  let ?run = "interleave (worker_step st 0 pfx del)"
  obtain ps1 s1 where r1: "?run (replicate k i) ps s = (ps1, s1)" by fastforce
  have inv1: "crud_ok t N del pfx ps1 s1" using crud_interleave [OF Cons.prems(1) r1] .
  have i: "i < N" using Cons.prems(3) by simp
  have r2: "?run (concat (map (replicate k) is)) ps1 s1 = (ps', s')"
    using Cons.prems(5) r1 by (simp add: interleave_append)
  have "progress del (ps1 ! i) = progress del KDone"
    using crud_block [OF Cons.prems(1) i r1] Cons.prems(2) by simp
  then have "ps1 ! i = KDone" using crud_ok_facts(5) [OF inv1 i] by (rule_tac progress_done)
  moreover have "i \<notin> set (concat (map (replicate k) is))" using Cons.prems(4) by auto
  ultimately have "ps' ! i = KDone"
    using interleave_frame(2) [of i _ "worker_step st 0 pfx del" ps1 s1] r2 by (metis fst_conv)
  with Cons.IH [OF inv1 Cons.prems(2) _ _ r2] Cons.prems(3,4) show ?case by simp
qed

text \<open>Every schedule: no worker fails, each ends, and the watcher has one event for every write.\<close>

lemma crud_schedule:
  assumes N: "N \<le> 10" and ps: "ps = replicate N KCreate \<or> ps = replicate N KCreate @ [KRead 0]"
    and t: "ok t" "fresh_state 1000 (abs t)" and pfx: "pfx \<in> suite_prefixes"
    and s0: "mustWatch st t [] = Some (s0, x)"
    and run: "interleave (worker_step st x pfx del) (turns @ finishTurns (progress del KDone) N) ps s0 = (ps', s')"
  obtains h q where "x = 0" and "\<forall>i<N. ps' ! i = KDone" and "length ps' = length ps" and "ok s'"
    and "widget_history (abs t) h (abs s')" and "length h = N * progress del KDone"
    and "q @ w_ch (wheap (abs s') 0) = map le_event h"
    and "length ps = N \<and> q = [] \<or> length ps = Suc N \<and> ps' ! N = KRead (length q)"
proof -
  note f = watch_fresh [OF t(2)]
  obtain w where w: "mustWatch st t [] = Some (w, 0)" "ok w" "abs w = fst (mem_Watch testScheme (abs t) zeroWidgetList [])"
    using t by (rule watch_fresh_must)
  have x: "x = 0" "s0 = w" using s0 w(1) by auto
  have "crud_inv (abs t) N del pfx ps (abs w)"
    unfolding crud_inv_def w(3) using N ps f t(2) pfx
    by (intro conjI exI [of _ "[]"]) (auto simp: nth_append)
  with w(2) x(2) have inv0: "crud_ok (abs t) N del pfx ps s0" by (simp add: crud_ok_def)
  let ?run = "interleave (worker_step st 0 pfx del)"
  obtain ps1 s1 where r1: "?run turns ps s0 = (ps1, s1)" by fastforce
  have inv1: "crud_ok (abs t) N del pfx ps1 s1" using crud_interleave [OF inv0 r1] .
  have r2: "?run (concat (map (replicate (progress del KDone)) [0..<N])) ps1 s1 = (ps', s')"
    using run r1 x(1) by (simp add: interleave_append finishTurns_def)
  have fin: "\<forall>i<N. ps' ! i = KDone"
    using crud_finish [OF inv1 le_refl _ distinct_upt r2] by (simp add: atLeast0LessThan)
  have inv': "crud_ok (abs t) N del pfx ps' s'" using crud_interleave [OF inv1 r2] .
  have len: "length ps' = length ps"
    using interleave_frame(1) [of "worker_step st x pfx del" _ ps s0] run by (metis fst_conv)
  have "(\<Sum>i<N. progress del (ps' ! i)) = N * progress del KDone" using fin by simp
  with inv' obtain h q where "ok s'" "widget_history (abs t) h (abs s')" "length h = N * progress del KDone"
      "q @ w_ch (wheap (abs s') 0) = map le_event h"
      "length ps' = N \<and> q = [] \<or> length ps' = Suc N \<and> ps' ! N = KRead (length q)"
    unfolding crud_ok_def crud_inv_def mem_watch_ok_def by auto
  with x(1) fin len ps that show thesis by auto
qed

lemma concurrent_CRUD:
  assumes cfg: "NewStore cfg testScheme = (st, t)" and t: "ok t" "fresh_state 1000 (abs t)"
  shows "concurrency_concurrent_CRUD_with_watcher cfg turns = Some ()"
proof -
  obtain s0 x where s0: "mustWatch st t [] = Some (s0, x)" using t by (rule watch_fresh_must)
  let ?ps = "replicate 10 KCreate @ [KRead 0]"
  obtain ps' s' where run: "interleave (worker_step st x ''concurrent-'' True) (turns @ finishTurns 3 10) ?ps s0 = (ps', s')"
    by fastforce
  have run': "interleave (worker_step st x ''concurrent-'' True)
      (turns @ finishTurns (progress True KDone) 10) ?ps s0 = (ps', s')" using run by simp
  obtain h q where "x = 0" and h: "\<forall>i<10. ps' ! i = KDone" "length ps' = length ?ps" "ok s'"
      "widget_history (abs t) h (abs s')" "length h = 10 * progress True KDone" "q @ w_ch (wheap (abs s') 0) = map le_event h"
      "length ?ps = 10 \<and> q = [] \<or> length ?ps = Suc 10 \<and> ps' ! 10 = KRead (length q)"
    by (rule crud_schedule [OF _ disjI2 [OF refl] t _ s0 run']) simp_all
  then have len: "length ps' = 11" and q: "ps' ! 10 = KRead (length q)" and "x = 0" by simp_all
  have "p \<noteq> KFailed" if p: "p \<in> set ps'" for p
  proof -
    obtain i where "i < 11" "p = ps' ! i" using p unfolding in_set_conv_nth len by blast
    then show ?thesis using h(1) q by (cases "i = 10") auto
  qed
  then have "list_all (\<lambda>p. p \<noteq> KFailed) ps'" by (simp add: list_all_iff)
  moreover have "w_closed (wheap (mem_Stop (abs s') 0) 0)" "w_ch (wheap (mem_Stop (abs s') 0) 0) = w_ch (wheap (abs s') 0)"
    by (simp_all add: mem_Stop_def mem_removeWatcher_def Let_def)
  then have "w_closed (wheap (abs (st_Stop st s' 0)) 0)" "w_ch (wheap (abs (st_Stop st s' 0)) 0) = w_ch (wheap (abs s') 0)"
    using stop [OF h(3), of 0] by simp_all
  moreover have "length q + length (w_ch (wheap (abs s') 0)) = 30"
    using arg_cong [OF h(6), of length] h(5) by simp
  ultimately show ?thesis
    using s0 run \<open>x = 0\<close> q loops [of 0 "st_Stop st s' 0" "[]"] cfg
    by (simp add: concurrency_concurrent_CRUD_with_watcher_def check_def)
qed

lemma concurrent_monotonicity:
  assumes cfg: "NewStore cfg testScheme = (st, t)" and t: "ok t" "fresh_state 1000 (abs t)"
  shows "invariants_concurrent_updates_preserve_monotonicity cfg turns = Some ()"
proof -
  obtain s0 x where s0: "mustWatch st t [] = Some (s0, x)" using t by (rule watch_fresh_must)
  obtain ps' s' where run: "interleave (worker_step st x ''cmon-'' False) (turns @ finishTurns 2 5) (replicate 5 KCreate) s0 = (ps', s')"
    by fastforce
  have run': "interleave (worker_step st x ''cmon-'' False)
      (turns @ finishTurns (progress False KDone) 5) (replicate 5 KCreate) s0 = (ps', s')" using run by simp
  obtain h q where "x = 0" and h: "\<forall>i<5. ps' ! i = KDone" "length ps' = length (replicate 5 KCreate)" "ok s'"
      "widget_history (abs t) h (abs s')" "length h = 5 * progress False KDone" "q @ w_ch (wheap (abs s') 0) = map le_event h"
      "length (replicate 5 KCreate) = 5 \<and> q = [] \<or> length (replicate 5 KCreate) = Suc 5 \<and> ps' ! 5 = KRead (length q)"
    by (rule crud_schedule [OF _ disjI1 [OF refl] t _ s0 run']) simp_all
  then have ch: "w_ch (wheap (abs s') 0) = map le_event h" and len: "length ps' = 5" by simp_all
  have "list_all (\<lambda>p. p \<noteq> KFailed) ps'" using h(1) len by (auto simp: list_all_length)
  moreover have "violations 0 (map le_event h) = 0"
    using violations_segment [OF fresh_history(4) [OF t(2) h(4)]] fresh_history(1) [OF t(2) h(4)] by simp
  ultimately show ?thesis
    using s0 run \<open>x = 0\<close> ch loops [of 0 s' "[]"] cfg
    by (simp add: invariants_concurrent_updates_preserve_monotonicity_def check_def)
qed

end

end
