(* ===== verification/Conformance_Writers.thy ===== *)
theory Conformance_Writers
  imports Conformance_Concurrent
begin

text \<open>
  The spec and status writers of \<open>concurrent_spec_and_status_writers\<close>, over every \<open>widget_store\<close>: they
  pass when they run one after the other, and \<open>starving_turns\<close> is a schedule in which every spec
  writer uses up its ten attempts.
\<close>

section \<open>Spec and status writers\<close>

definition writer_state :: "MemoryStore \<Rightarrow> int \<Rightarrow> string \<Rightarrow> string \<Rightarrow> object \<Rightarrow> bool" where
  "writer_state s r c ph o1 \<longleftrightarrow>
     mem_inv testScheme s \<and> revision s = r \<and> 0 \<le> r \<and> r \<le> 100 \<and>
     mem_view s widgetGVK (defaultKey ''w1'') = Some o1 \<and> GoType o1 = ''storetest.testWidget'' \<and>
     GetResourceVersion o1 = FormatInt r \<and>
     Body o1 = fmap_of_list [(''spec'', testWidgetSpec c 1), (''status'', testWidgetStatus False ph)]"

lemma writer_state_facts:
  assumes "writer_state s r c ph o1"
  shows "is_testWidget o1" "ObjectKeyFromObject o1 = defaultKey ''w1''" "revision s < MaxInt64"
proof -
  show w: "is_testWidget o1" using assms unfolding writer_state_def is_testWidget_def by blast
  have "mem_inv testScheme s" "mem_view s widgetGVK (defaultKey ''w1'') = Some o1"
    using assms by (simp_all add: writer_state_def)
  then have "mem_obj_ok testScheme (revision s) widgetGVK (defaultKey ''w1'') o1"
    by (rule mem_view_Some)
  then show "ObjectKeyFromObject o1 = defaultKey ''w1''" by (simp add: mem_obj_ok_def)
  show "revision s < MaxInt64" using assms by (simp add: writer_state_def MaxInt64_def)
qed

definition color_after :: "nat \<Rightarrow> string \<Rightarrow> string" where
  "color_after i c = (if i < 10 then ''color-'' @ FormatInt (int i) else c)"

definition phase_after :: "nat \<Rightarrow> string \<Rightarrow> string" where
  "phase_after i ph = (if i < 10 then ph else ''phase-'' @ FormatInt (int i - 10))"

lemma writer_edit_body:
  assumes "writer_state s r c ph o1"
  shows "Body (writer_edit i o1) = fmap_of_list
      [(''spec'', testWidgetSpec (color_after i c) 1), (''status'', testWidgetStatus False (phase_after i ph))]"
    and "GoType (writer_edit i o1) = GoType o1" and "Meta (writer_edit i o1) = Meta o1"
    and "is_testWidget (writer_edit i o1)" and "ObjectKeyFromObject (writer_edit i o1) = defaultKey ''w1''"
proof -
  have b: "Body o1 = fmap_of_list [(''spec'', testWidgetSpec c 1), (''status'', testWidgetStatus False ph)]"
    using assms by (simp add: writer_state_def)
  show body: "Body (writer_edit i o1) = fmap_of_list
      [(''spec'', testWidgetSpec (color_after i c) 1), (''status'', testWidgetStatus False (phase_after i ph))]"
    using struct_set_widget [OF b] by (simp add: writer_edit_def color_after_def phase_after_def)
  show "GoType (writer_edit i o1) = GoType o1" "Meta (writer_edit i o1) = Meta o1"
    by (simp_all add: writer_edit_def)
  then show "is_testWidget (writer_edit i o1)" "ObjectKeyFromObject (writer_edit i o1) = defaultKey ''w1''"
    using body assms writer_state_facts(2) [OF assms]
    by (auto simp: is_testWidget_def writer_state_def ObjectKeyFromObject_def)
qed

lemma writer_commit:
  assumes ws: "writer_state s r c ph o1" and "r < 100" and "mem_inv testScheme s'"
    and cm: "mem_commit s s' widgetGVK \<lparr>ev_Type = EventModified, ev_Object = new\<rparr>"
    and new: "is_testWidget new" "ObjectKeyFromObject new = defaultKey ''w1''"
      "GetSpec new = Some (testWidgetSpec c' 1)" "GetStatus new = Some (testWidgetStatus False ph')"
  shows "writer_state s' (r + 1) c' ph' new"
proof -
  have "Body new = fmap_of_list [(''spec'', testWidgetSpec c' 1), (''status'', testWidgetStatus False ph')]"
    using new(1,3,4) by (auto simp: is_testWidget_def fmlookup_of_list)
  with assms mem_commit_put [OF cm] show ?thesis
    by (simp add: writer_state_def)
qed

lemma suite_key_w1: "suite_key (defaultKey ''w1'')"
proof -
  have "''w1'' = ''w'' @ FormatInt (int 1)" by code_simp
  then show ?thesis using suite_keyI [of "''w''" 1] by simp
qed

definition starving_round :: "nat \<Rightarrow> nat list" where
  "starving_round j = [0..<10] @ [10 + j, 10 + j] @ [0..<10]"

definition starving_turns :: "nat list" where
  "starving_turns = concat (map starving_round [0..<10])"

lemma writers_idle:
  "\<forall>p\<in>set ps. p = WGet 0 \<or> p = WDone \<Longrightarrow> snd (interleave (writer_step st) ks ps s) = s"
proof (induction ks arbitrary: ps)
  case Nil
  then show ?case by simp
next
  case (Cons i ks)
  show ?case
  proof (cases "i < length ps")
    case True
    then have "ps ! i = WGet 0 \<or> ps ! i = WDone" using Cons.prems by simp
    then have "writer_step st i (ps ! i) s = (WDone, s)" by auto
    moreover have "\<forall>p\<in>set (ps[i := WDone]). p = WGet 0 \<or> p = WDone"
      using Cons.prems set_update_subset_insert [of ps i WDone] by blast
    ultimately show ?thesis using True Cons.IH by simp
  next
    case False
    with Cons show ?thesis by simp
  qed
qed

lemma Color_is_writer: "writer_state s r c ph o1 \<Longrightarrow> Color_is o1 c' \<longleftrightarrow> c' = c"
  by (auto simp: writer_state_def struct_get_def fmlookup_of_list testWidgetSpec_def)

lemma Phase_is_writer: "writer_state s r c ph o1 \<Longrightarrow> Phase_is o1 p' \<longleftrightarrow> p' = ph"
  by (auto simp: writer_state_def struct_get_def fmlookup_of_list testWidgetStatus_def)

lemma writer_idle_block: "ps ! i = WDone \<Longrightarrow> interleave (writer_step st) (replicate k i) ps s = (ps, s)"
proof (induction k)
  case (Suc k)
  then have "ps[i := WDone] = ps" using list_update_id [of ps i] by simp
  with Suc show ?case by simp
qed simp

definition still_to_write :: "nat \<Rightarrow> string \<Rightarrow> string \<Rightarrow> bool" where
  "still_to_write m c ph \<longleftrightarrow>
     (\<forall>i. m \<le> i \<and> i < 20 \<longrightarrow> color_after i c \<noteq> c \<or> phase_after i ph \<noteq> ph) \<and>
     (0 < m \<longrightarrow> c \<noteq> ''blue'') \<and> (10 < m \<longrightarrow> ph \<noteq> [])"

lemma still_to_write_start: "still_to_write 0 ''blue'' []"
  by (auto simp: still_to_write_def color_after_def phase_after_def)

lemma still_to_write_step:
  assumes "still_to_write m c ph" and "m < 20"
  shows "still_to_write (Suc m) (color_after m c) (phase_after m ph)"
proof -
  have "color_after i (color_after m c) \<noteq> color_after m c \<or> phase_after i (phase_after m ph) \<noteq> phase_after m ph"
    if "Suc m \<le> i" "i < 20" for i
  proof (cases "i < 10 \<or> m \<ge> 10")
    case True
    have "FormatInt (int i) \<noteq> FormatInt (int m)" "m \<ge> 10 \<Longrightarrow> FormatInt (int (i - 10)) \<noteq> FormatInt (int (m - 10))"
      using that name_inject [of i m] name_inject [of "i - 10" "m - 10"] by (auto simp: MaxInt64_def)
    with True that show ?thesis by (auto simp: color_after_def phase_after_def of_nat_diff)
  next
    case False
    moreover have "color_after i c \<noteq> c \<or> phase_after i ph \<noteq> ph"
      using assms(1) that unfolding still_to_write_def by simp
    ultimately show ?thesis by (simp add: color_after_def phase_after_def)
  qed
  moreover have "color_after m c \<noteq> ''blue''"
    using assms(1) by (auto simp: still_to_write_def color_after_def)
  moreover have "10 < Suc m \<Longrightarrow> phase_after m ph \<noteq> []" by (simp add: phase_after_def)
  ultimately show ?thesis by (simp add: still_to_write_def)
qed

context widget_store
begin

definition writing :: "'s \<Rightarrow> int \<Rightarrow> string \<Rightarrow> string \<Rightarrow> object \<Rightarrow> bool" where
  "writing s r c ph o1 \<longleftrightarrow> ok s \<and> writer_state (abs s) r c ph o1"

lemma writingD: "writing s r c ph o1 \<Longrightarrow> ok s" "writing s r c ph o1 \<Longrightarrow> writer_state (abs s) r c ph o1"
  by (simp_all add: writing_def)

lemma writing_get:
  assumes "writing s r c ph o1"
  shows "st_Get st s (defaultKey ''w1'') zeroWidget = (o1, None)"
  using assms writer_state_facts(1) [OF writingD(2) [OF assms]]
  by (intro get suite_key_w1) (simp_all add: writing_def writer_state_def)

lemma writer_success:
  assumes ws: "writing s r c ph o1" and r: "r < 100" and n: "n \<noteq> 0"
    and diff: "color_after i c \<noteq> c \<or> phase_after i ph \<noteq> ph"
  obtains s' o2 where "writer_step st i (WGet n) s = (WPut (n - 1) (writer_edit i o1), s)"
    and "writer_step st i (WPut (n - 1) (writer_edit i o1)) s = (WDone, s')"
    and "writing s' (r + 1) (color_after i c) (phase_after i ph) o2"
proof -
  note w = writingD [OF ws]
  note f = writer_state_facts [OF w(2)] and e = writer_edit_body [OF w(2), of i]
  have key: "suite_key (ObjectKeyFromObject (writer_edit i o1))" by (simp add: e(5) suite_key_w1)
  have v: "mem_view (abs s) widgetGVK (ObjectKeyFromObject (writer_edit i o1)) = Some o1"
      "GetResourceVersion (writer_edit i o1) = GetResourceVersion o1"
    using w(2) e(3,5) by (simp_all add: writer_state_def)
  have b: "Body o1 = fmap_of_list [(''spec'', testWidgetSpec c 1), (''status'', testWidgetStatus False ph)]"
    using w(2) by (simp add: writer_state_def)
  have spec: "GetSpec (writer_edit i o1) = Some (testWidgetSpec (color_after i c) 1)"
    "GetStatus (writer_edit i o1) = Some (testWidgetStatus False (phase_after i ph))"
    "GetSpec o1 = Some (testWidgetSpec c 1)" "GetStatus o1 = Some (testWidgetStatus False ph)"
    by (simp_all add: e(1) b fmlookup_of_list)
  have get: "writer_step st i (WGet n) s = (WPut (n - 1) (writer_edit i o1), s)"
    using writing_get [OF ws] n by simp
  show thesis
  proof (cases "i < 10")
    case True
    then have "GetSpec (writer_edit i o1) \<noteq> GetSpec o1" and ph: "phase_after i ph = ph"
      using diff spec by (auto simp: testWidgetSpec_def phase_after_def)
    from update [OF w(1) f(3) e(4) key v(1) f(1) v(2) this(1)]
    obtain s' new w' where u: "st_Update st s (writer_edit i o1) = (s', w', None)" "ok s'"
        "mem_commit (abs s) (abs s') widgetGVK \<lparr>ev_Type = EventModified, ev_Object = new\<rparr>"
        "is_testWidget new" "ObjectKeyFromObject new = ObjectKeyFromObject (writer_edit i o1)"
        "GetSpec new = GetSpec (writer_edit i o1)" "GetStatus new = GetStatus o1" by blast
    have "writer_state (abs s') (r + 1) (color_after i c) (phase_after i ph) new"
      using u spec e(5) ph by (intro writer_commit [OF w(2) r ok_inv [OF u(2)] u(3)]) simp_all
    with get u(1,2) True that show thesis by (simp add: writer_put_def writing_def)
  next
    case False
    then have "GetStatus (writer_edit i o1) \<noteq> GetStatus o1" and c: "color_after i c = c"
      using diff spec by (auto simp: testWidgetStatus_def color_after_def)
    from updateStatus [OF w(1) f(3) e(4) key v(1) f(1) v(2) this(1)]
    obtain s' new w' where u: "st_UpdateStatus st s (writer_edit i o1) = (s', w', None)" "ok s'"
        "mem_commit (abs s) (abs s') widgetGVK \<lparr>ev_Type = EventModified, ev_Object = new\<rparr>"
        "is_testWidget new" "ObjectKeyFromObject new = ObjectKeyFromObject (writer_edit i o1)"
        "GetSpec new = GetSpec o1" "GetStatus new = GetStatus (writer_edit i o1)" by blast
    have "writer_state (abs s') (r + 1) (color_after i c) (phase_after i ph) new"
      using u spec e(5) c by (intro writer_commit [OF w(2) r ok_inv [OF u(2)] u(3)]) simp_all
    with get u(1,2) False that show thesis by (simp add: writer_put_def writing_def)
  qed
qed

lemma writer_conflict:
  assumes "writing s r c ph o1" and "writing s' r' c' ph' o2" and "r \<noteq> r'"
  shows "writer_step st i (WPut n (writer_edit i o1)) s' = (WGet n, s')"
proof -
  note w = writingD [OF assms(1)] writingD [OF assms(2)]
  note e = writer_edit_body [OF w(2), of i]
  have key: "suite_key (ObjectKeyFromObject (writer_edit i o1))" by (simp add: e(5) suite_key_w1)
  have v: "mem_view (abs s') widgetGVK (ObjectKeyFromObject (writer_edit i o1)) = Some o2"
    using w(4) e(5) by (simp add: writer_state_def)
  have "FormatInt r \<noteq> FormatInt r'"
    using w(2,4) assms(3) FormatInt_inject [of r r']
    by (auto simp: writer_state_def is_int64_def MinInt64_def MaxInt64_def)
  then have "GetResourceVersion (writer_edit i o1) \<noteq> GetResourceVersion o2"
    using w(2,4) e(3) by (simp add: writer_state_def)
  then obtain k p q where "st_Update st s' (writer_edit i o1) = (s', p, Some (ConflictError k))"
      "st_UpdateStatus st s' (writer_edit i o1) = (s', q, Some (ConflictError k))"
    using conflict [OF w(3) writer_state_facts(3) [OF w(4)] e(4) key v] by blast
  then show ?thesis by (simp add: writer_put_def)
qed

text \<open>The first write finds the widget as it was created.\<close>

lemma writer_start:
  assumes t: "ok t" "fresh_state 1000 (abs t)"
  obtains s w where "mustCreate st t (newTestWidget ''w1'' ''blue'' 1) = Some (s, w)"
    and "writing s 1 ''blue'' [] w"
proof -
  let ?w = "newTestWidget ''w1'' ''blue'' 1"
  have "revision (abs t) < MaxInt64" "mem_view (abs t) widgetGVK (ObjectKeyFromObject ?w) = None"
      "suite_key (ObjectKeyFromObject ?w)"
    using t(2) suite_key_w1 by (simp_all add: fresh_state_def MaxInt64_def)
  then obtain s where s: "st_Create st t ?w = (s, mem_created (abs t) ?w, None)" "ok s"
      "mem_commit (abs t) (abs s) widgetGVK \<lparr>ev_Type = EventAdded, ev_Object = mem_created (abs t) ?w\<rparr>"
    using create [OF t(1) _ newTestWidget_is [of "''w1''" "''blue''" 1]] by blast
  have "writer_state (abs s) 1 ''blue'' [] (mem_created (abs t) ?w)"
    using ok_inv [OF s(2)] s(3) t(2) by (simp add: writer_state_def mem_commit_def apply_event_cases fresh_state_def)
      (simp add: newTestWidget_def zeroWidget_def)
  with s(1,2) that show thesis by (simp add: mustCreate_def writing_def)
qed

subsection \<open>A schedule that starves the spec writers\<close>

lemma starving_round:
  assumes ws: "writing s r ''blue'' ph o1" and r: "r < 100" and j: "10 + j < length ps"
    and ph: "ph \<noteq> ''phase-'' @ FormatInt (int j)"
    and ps: "\<forall>i<10. ps ! i = WGet (Suc n)" "ps ! (10 + j) = WGet (Suc m)"
  obtains s' o2 where "interleave (writer_step st) (starving_round j) ps s =
      (replicate 10 (WGet n) @ (drop 10 ps)[j := WDone], s')"
    and "writing s' (r + 1) ''blue'' (''phase-'' @ FormatInt (int j)) o2"
proof -
  let ?st = "writer_step st"
  obtain s' o2 where ok: "?st (10 + j) (WGet (Suc m)) s = (WPut m (writer_edit (10 + j) o1), s)"
      "?st (10 + j) (WPut m (writer_edit (10 + j) o1)) s = (WDone, s')"
      "writing s' (r + 1) ''blue'' (''phase-'' @ FormatInt (int j)) o2"
    using writer_success [OF ws r, of "Suc m" "10 + j"] ph by (auto simp: color_after_def phase_after_def)
  let ?puts = "map (\<lambda>i. WPut n (writer_edit i o1)) [0..<10] @ drop 10 ps"
  have gets: "interleave ?st [0..<10] ps s = (?puts, s)"
    using ps(1) j writing_get [OF ws] by (intro interleave_quiet) simp_all
  let ?won = "map (\<lambda>i. WPut n (writer_edit i o1)) [0..<10] @ (drop 10 ps)[j := WDone]"
  have len: "length ?puts = length ps" using j by simp
  have at: "?puts ! (10 + j) = WGet (Suc m)" "?puts[10 + j := p] = map (\<lambda>i. WPut n (writer_edit i o1)) [0..<10] @ (drop 10 ps)[j := p]" for p
    using ps(2) j by (simp_all add: nth_append list_update_append)
  have mid: "interleave ?st [10 + j, 10 + j] ?puts s = (?won, s')"
    using ok(1,2) at j len by (simp add: nth_append list_update_append del: upt.simps)
  have "interleave ?st [0..<10] ?won s' = (map (\<lambda>_. WGet n) [0..<10] @ drop 10 ?won, s')"
    using writer_conflict [OF ws ok(3)] by (intro interleave_quiet) (simp_all add: nth_append del: upt.simps)
  moreover have "map (\<lambda>_. WGet n) [0..<10] = replicate 10 (WGet n)" by (simp add: map_replicate_const)
  ultimately have last: "interleave ?st [0..<10] ?won s' = (replicate 10 (WGet n) @ (drop 10 ps)[j := WDone], s')"
    by (simp del: upt.simps)
  have "interleave ?st (starving_round j) ps s = (replicate 10 (WGet n) @ (drop 10 ps)[j := WDone], s')"
    unfolding starving_round_def interleave_append gets prod.case mid last ..
  with ok(3) that show thesis by blast
qed


lemma starving_rounds:
  assumes "writing s 1 ''blue'' [] o1" and "m \<le> 10"
  shows "\<exists>s' o2. interleave (writer_step st) (concat (map starving_round [0..<m]))
      (replicate 20 (WGet 10)) s =
      (replicate 10 (WGet (10 - m)) @ replicate m WDone @ replicate (10 - m) (WGet 10), s') \<and>
    writing s' (1 + int m) ''blue'' (if m = 0 then [] else ''phase-'' @ FormatInt (int m - 1)) o2"
  using assms(2)
proof (induction m)
  case 0
  have "replicate 20 (WGet 10) = replicate 10 (WGet 10) @ replicate 10 (WGet 10)"
    by (simp flip: replicate_add)
  with assms(1) show ?case by auto
next
  case (Suc m)
  let ?ps = "replicate 10 (WGet (10 - m)) @ replicate m WDone @ replicate (10 - m) (WGet 10)"
  let ?ph = "if m = 0 then [] else ''phase-'' @ FormatInt (int m - 1)"
  obtain s' o2 where IH: "interleave (writer_step st) (concat (map starving_round [0..<m]))
      (replicate 20 (WGet 10)) s = (?ps, s')" "writing s' (1 + int m) ''blue'' ?ph o2"
    using Suc.IH Suc.prems by auto
  have m: "10 - m = Suc (9 - m)" using Suc.prems by simp
  have ph: "?ph \<noteq> ''phase-'' @ FormatInt (int m)"
    using name_inject [of "m - 1" m] Suc.prems by (auto simp: MaxInt64_def of_nat_diff)
  have d: "drop 10 ?ps = replicate m WDone @ replicate (10 - m) (WGet 10)" by simp
  obtain t o3 where t: "interleave (writer_step st) (starving_round m) ?ps s' =
      (replicate 10 (WGet (9 - m)) @ (drop 10 ?ps)[m := WDone], t)"
      "writing t (1 + int m + 1) ''blue'' (''phase-'' @ FormatInt (int m)) o3"
    by (rule starving_round [OF IH(2), of m ?ps "9 - m" 9])
      (use Suc.prems ph m in \<open>auto simp: nth_append\<close>)
  have "(drop 10 ?ps)[m := WDone] = replicate (Suc m) WDone @ replicate (10 - Suc m) (WGet 10)"
  proof -
    have "replicate (10 - m) (WGet 10) = WGet 10 # replicate (9 - m) (WGet 10)" unfolding m by simp
    moreover have "10 - Suc m = 9 - m" by simp
    ultimately show ?thesis by (simp only: d) (simp add: list_update_append replicate_app_Cons_same)
  qed
  with t IH(1) have "interleave (writer_step st) (concat (map starving_round [0..<Suc m]))
      (replicate 20 (WGet 10)) s =
      (replicate 10 (WGet (10 - Suc m)) @ replicate (Suc m) WDone @ replicate (10 - Suc m) (WGet 10), t)"
    by (simp add: interleave_append)
  with t(2) show ?case by (auto simp: algebra_simps)
qed

lemma writers_starve:
  assumes cfg: "NewStore cfg testScheme = (st, t)" and t: "ok t" "fresh_state 1000 (abs t)"
  shows "split_concurrent_spec_and_status_writers cfg starving_turns = None"
proof -
  let ?run = "interleave (writer_step st)"
  obtain s w where s: "mustCreate st t (newTestWidget ''w1'' ''blue'' 1) = Some (s, w)"
      "writing s 1 ''blue'' [] w" using t by (rule writer_start)
  obtain s' o2 where r: "?run starving_turns (replicate 20 (WGet 10)) s = (replicate 10 (WGet 0) @ replicate 10 WDone, s')"
      "writing s' 11 ''blue'' (''phase-'' @ FormatInt 9) o2"
    using starving_rounds [OF s(2), of 10] by (auto simp: starving_turns_def)
  obtain ps' where f: "?run (finishTurns 21 20) (replicate 10 (WGet 0) @ replicate 10 WDone) s' = (ps', s')"
    using writers_idle [of "replicate 10 (WGet 0) @ replicate 10 WDone" st "finishTurns 21 20" s']
    by (cases "?run (finishTurns 21 20) (replicate 10 (WGet 0) @ replicate 10 WDone) s'") auto
  have run: "?run (starving_turns @ finishTurns 21 20) (replicate 20 (WGet 10)) s = (ps', s')"
    unfolding interleave_append r(1) prod.case f ..
  have "mustGet st s' (ObjectKeyFromObject w) = Some o2"
    using writing_get [OF r(2)] writer_state_facts(2) [OF writingD(2) [OF s(2)]] by (simp add: mustGet_def)
  with s(1) run Color_is_writer [OF writingD(2) [OF r(2)]] cfg show ?thesis
    by (simp add: split_concurrent_spec_and_status_writers_def check_def)
qed

subsection \<open>One writer after the other\<close>

lemma writer_block:
  assumes ws: "writing s r c ph o1" and r: "r < 100" and i: "i < length ps" "ps ! i = WGet 10"
    and diff: "color_after i c \<noteq> c \<or> phase_after i ph \<noteq> ph"
  obtains s' o2 where "interleave (writer_step st) (replicate 21 i) ps s = (ps[i := WDone], s')"
    and "writing s' (r + 1) (color_after i c) (phase_after i ph) o2"
proof -
  obtain s' o2 where ok: "writer_step st i (WGet 10) s = (WPut (10 - 1) (writer_edit i o1), s)"
      "writer_step st i (WPut (10 - 1) (writer_edit i o1)) s = (WDone, s')"
      "writing s' (r + 1) (color_after i c) (phase_after i ph) o2"
    by (rule writer_success [OF ws r _ diff, of 10]) simp
  have "replicate 21 i = [i, i] @ replicate 19 i" by (simp add: numeral_eq_Suc)
  moreover have "interleave (writer_step st) [i, i] ps s = (ps[i := WDone], s')"
    using i ok(1,2) by simp
  moreover have "interleave (writer_step st) (replicate 19 i) (ps[i := WDone]) s' = (ps[i := WDone], s')"
    using i(1) by (intro writer_idle_block) simp
  ultimately have "interleave (writer_step st) (replicate 21 i) ps s = (ps[i := WDone], s')"
    by (simp only: interleave_append prod.case)
  with ok(3) that show thesis by blast
qed

lemma writers_in_order:
  assumes "writing s 1 ''blue'' [] o1" and "m \<le> 20"
  shows "\<exists>s' o2 c ph. interleave (writer_step st) (concat (map (replicate 21) [0..<m]))
      (replicate 20 (WGet 10)) s = (replicate m WDone @ replicate (20 - m) (WGet 10), s') \<and>
    writing s' (1 + int m) c ph o2 \<and> still_to_write m c ph"
  using assms(2)
proof (induction m)
  case 0
  show ?case using assms(1) still_to_write_start by auto
next
  case (Suc m)
  let ?ps = "replicate m WDone @ replicate (20 - m) (WGet 10)"
  obtain s' o2 c ph where IH: "interleave (writer_step st) (concat (map (replicate 21) [0..<m]))
      (replicate 20 (WGet 10)) s = (?ps, s')" "writing s' (1 + int m) c ph o2" "still_to_write m c ph"
    using Suc.IH Suc.prems by auto
  have m: "20 - m = Suc (19 - m)" "20 - Suc m = 19 - m" using Suc.prems by simp_all
  obtain t o3 where t: "interleave (writer_step st) (replicate 21 m) ?ps s' = (?ps[m := WDone], t)"
      "writing t (1 + int m + 1) (color_after m c) (phase_after m ph) o3"
    by (rule writer_block [OF IH(2), of m ?ps]) (use Suc.prems IH(3) in \<open>auto simp: nth_append still_to_write_def\<close>)
  have ps: "?ps[m := WDone] = replicate (Suc m) WDone @ replicate (20 - Suc m) (WGet 10)"
    unfolding m by (simp add: list_update_append replicate_app_Cons_same)
  have "interleave (writer_step st) (concat (map (replicate 21) [0..<Suc m]))
      (replicate 20 (WGet 10)) s = (replicate (Suc m) WDone @ replicate (20 - Suc m) (WGet 10), t)"
    using IH(1) t(1) unfolding ps by (simp add: interleave_append)
  moreover have "writing t (1 + int (Suc m)) (color_after m c) (phase_after m ph) o3"
    using t(2) by (simp add: algebra_simps)
  moreover have "still_to_write (Suc m) (color_after m c) (phase_after m ph)"
    using still_to_write_step [OF IH(3)] Suc.prems by simp
  ultimately show ?case by blast
qed

lemma writers_pass:
  assumes cfg: "NewStore cfg testScheme = (st, t)" and t: "ok t" "fresh_state 1000 (abs t)"
  shows "split_concurrent_spec_and_status_writers cfg [] = Some ()"
proof -
  obtain s w where s: "mustCreate st t (newTestWidget ''w1'' ''blue'' 1) = Some (s, w)"
      "writing s 1 ''blue'' [] w" using t by (rule writer_start)
  obtain s' o2 c ph where r: "interleave (writer_step st) (finishTurns 21 20) (replicate 20 (WGet 10)) s =
      (replicate 20 WDone, s')" "writing s' 21 c ph o2" "still_to_write 20 c ph"
    using writers_in_order [OF s(2), of 20] by (auto simp: finishTurns_def)
  have "mustGet st s' (ObjectKeyFromObject w) = Some o2"
    using writing_get [OF r(2)] writer_state_facts(2) [OF writingD(2) [OF s(2)]] by (simp add: mustGet_def)
  moreover have "c \<noteq> ''blue''" "ph \<noteq> []" using r(3) by (auto simp: still_to_write_def)
  ultimately show ?thesis
    using s(1) r(1) Color_is_writer [OF writingD(2) [OF r(2)]] Phase_is_writer [OF writingD(2) [OF r(2)]] cfg
    by (simp add: split_concurrent_spec_and_status_writers_def check_def list_all_iff)
qed

end

end
