(* ===== verification/Conformance_Memory.thy ===== *)
theory Conformance_Memory
  imports Conformance_Writers
begin

text \<open>
  The memory store under the conformance suite: the configuration of \<open>memory/store_test.go\<close>, the
  sequential subtests by evaluation, and the memory store as a \<open>widget_store\<close>, which gives the
  subtests with many widgets and with goroutines.
\<close>

section \<open>The configuration of \<open>memory/store_test.go\<close>\<close>

definition memConfig :: "MemoryStore Config" where
  "memConfig =
     \<lparr>NewStore = (\<lambda>sch. (memStore sch, mem_NewStore [])),
      NewSmallEventLogStore = Some (\<lambda>sch. (memStore sch, mem_NewStore [mem_WithEventLogSize 5])),
      SkipWatchOverflow = False, SkipWatchEventHistory = False,
      SkipConcurrencyWatchCount = False, SkipGlobalRevisionMonotonicity = False\<rparr>"

definition libOf :: "(string \<Rightarrow> error + label_selector) \<Rightarrow> apimachinery" where
  "libOf p = \<lparr>IsNotFound = has_reason ReasonNotFound, IsAlreadyExists = has_reason ReasonAlreadyExists,
     IsConflict = has_reason ReasonConflict, IsGone = has_reason ReasonGone, labels_Parse = p\<rparr>"

lemma libOf_cases:
  assumes "apimachinery_ok lib"
  obtains p b where "lib = libOf p"
    and "p ''color=blue'' = Inr \<lparr>sel_Matches = (\<lambda>ls. fmlookup ls ''color'' = Some ''blue''), sel_Empty = b\<rparr>"
proof -
  obtain sel where sel: "labels_Parse lib ''color=blue'' = Inr sel"
      "sel_Matches sel = (\<lambda>ls. fmlookup ls ''color'' = Some ''blue'')"
    using assms by (auto simp: apimachinery_ok_def fun_eq_iff)
  have "lib = libOf (labels_Parse lib)"
    using assms by (intro apimachinery.equality) (auto simp: apimachinery_ok_def libOf_def fun_eq_iff)
  moreover have "sel = \<lparr>sel_Matches = (\<lambda>ls. fmlookup ls ''color'' = Some ''blue''), sel_Empty = sel_Empty sel\<rparr>"
    using sel(2) by (intro label_selector.equality) simp_all
  ultimately show thesis using sel(1) that by metis
qed

lemma gone_libOf: "IsGone (libOf p) (RevisionTooOldError r o1)"
  by (simp add: libOf_def has_reason_def)

lemma memConfig_simps [simp]:
  "NewStore memConfig sch = (memStore sch, mem_NewStore [])"
  "NewSmallEventLogStore memConfig = Some (\<lambda>sch. (memStore sch, mem_NewStore [mem_WithEventLogSize 5]))"
  "\<not> SkipWatchOverflow memConfig" "\<not> SkipGlobalRevisionMonotonicity memConfig" "\<not> SkipConcurrencyWatchCount memConfig"
  by (simp_all add: memConfig_def)

section \<open>Sequential subtests\<close>

abbreviation passes :: "(string \<times> unit option) list \<Rightarrow> bool" where
  "passes \<equiv> list_all (\<lambda>(_, r). r = Some ())"

lemma mem_testCreate: "passes (testCreate (libOf p) memConfig)"
  by code_simp

lemma mem_testGet: "passes (testGet (libOf p) memConfig)"
  by code_simp

lemma mem_testUpdate: "passes (testUpdate (libOf p) memConfig)"
  by code_simp

lemma mem_testDelete: "passes (testDelete (libOf p) memConfig)"
  by code_simp

lemma mem_testGeneration: "passes (testGeneration memConfig)"
  by code_simp

lemma mem_testUpdateStatus: "passes (testUpdateStatus (libOf p) memConfig)"
  by code_simp


lemma mem_list_tests:
  "list_all_objects memConfig = Some ()" "list_empty_store memConfig = Some ()"
  "list_by_namespace memConfig = Some ()" "list_sets_ResourceVersion_on_metadata memConfig = Some ()"
  by code_simp+

lemma mem_watch_tests:
  "watch_streams_events memConfig = Some ()" 
  "watch_WatchFromRevision_replays memConfig = Some ()" 
  "watch_WatchFromRevision_no_gap memConfig = Some ()" 
  "watch_replay_mixed_event_types memConfig = Some ()" 
  "watch_replay_filters_by_GVK memConfig = Some ()"
  by code_simp+

lemma mem_split_tests:
  "split_update_preserves_status memConfig = Some ()" "split_update_ignores_input_status memConfig = Some ()"
  "split_update_status_preserves_spec memConfig = Some ()" "split_deep_copy_isolation memConfig = Some ()"
  "split_delete_without_resource_version (libOf p) memConfig = Some ()"
  "split_delete_with_resource_version memConfig = Some ()"
  by code_simp+

lemma mem_invariants_tests:
  "invariants_noop_update_suppresses_event memConfig = Some ()"
  "invariants_watch_resumption_no_gap memConfig = Some ()" "invariants_resourceversion_is_numeric memConfig = Some ()"
  by code_simp+

text \<open>The selector is a parameter; the rest of the subtest evaluates.\<close>

abbreviation blueSelector :: "bool \<Rightarrow> label_selector" where
  "blueSelector b \<equiv> \<lparr>sel_Matches = (\<lambda>ls. fmlookup ls ''color'' = Some ''blue''), sel_Empty = b\<rparr>"

lemma parse_blue: "p ''color=blue'' = Inr sel \<Longrightarrow> mustParse (libOf p) ''color=blue'' = Some sel"
  by (simp add: mustParse_def libOf_def)

lemma mem_list_by_label_selector:
  assumes "p ''color=blue'' = Inr (blueSelector b)"
  shows "list_by_label_selector (libOf p) memConfig = Some ()"
  unfolding list_by_label_selector_def parse_blue [of p, OF assms] by code_simp

section \<open>Writes of widgets\<close>

lemma widget_create:
  assumes "mem_inv testScheme s" and "revision s < MaxInt64" and "is_testWidget obj"
    and "mem_view s widgetGVK (ObjectKeyFromObject obj) = None"
  obtains s' where "mem_Create testScheme s obj = (s', mem_created s obj, None)" and "mem_inv testScheme s'"
    and "mem_commit s s' widgetGVK \<lparr>ev_Type = EventAdded, ev_Object = mem_created s obj\<rparr>"
proof -
  obtain s' where s': "mem_Create testScheme s obj = mem_copyBack testScheme s' (mem_created s obj) (mem_created s obj)"
    "mem_inv testScheme s'" "mem_commit s s' widgetGVK \<lparr>ev_Type = EventAdded, ev_Object = mem_created s obj\<rparr>"
    using mem_Create_commit [OF assms(1,2) gvk_widget(1) assms(4)] assms(3) by auto
  have w: "is_testWidget (mem_created s obj)" using assms(3) by (rule mem_created_widget)
  have "mem_copyBack testScheme s' (mem_created s obj) (mem_created s obj) = (s', mem_created s obj, None)"
    using unmarshalInto_marshal_self [OF testWidget_full_doc [OF w] testWidget_decodable [OF w], of Compact]
    by (simp add: mem_copyBack_def mem_copyObject_def)
  with s' that show thesis by simp
qed

lemma widget_bodyI:
  "GoType o1 = ''storetest.testWidget'' \<Longrightarrow>
   (\<And>k. fmlookup (Body o1) k = (if k = ''status'' then Some (testWidgetStatus r p)
      else if k = ''spec'' then Some (testWidgetSpec c n) else None)) \<Longrightarrow> is_testWidget o1"
  unfolding is_testWidget_def
  by (intro conjI exI [of _ c] exI [of _ n] exI [of _ r] exI [of _ p])
    (auto intro!: fmap_ext simp: fmlookup_of_list)

lemma widget_merge_body:
  assumes "is_testWidget a" and "is_testWidget b" and "GoType o1 = ''storetest.testWidget''"
    and "\<forall>k. fmlookup (Body o1) k = (if k = ''status'' then GetStatus b else fmlookup (Body a) k)"
  shows "is_testWidget o1"
proof -
  from assms(1,2) obtain c n r p c' n' r' p' where
    "Body a = fmap_of_list [(''spec'', testWidgetSpec c n), (''status'', testWidgetStatus r p)]"
    "Body b = fmap_of_list [(''spec'', testWidgetSpec c' n'), (''status'', testWidgetStatus r' p')]"
    unfolding is_testWidget_def by blast
  with assms(3,4) show ?thesis by (intro widget_bodyI [of o1 r' p' c n]) (auto simp: fmlookup_of_list)
qed

lemma widget_copyBack:
  assumes "is_testWidget new" and "is_testWidget obj"
  obtains w where "mem_copyBack testScheme s new obj = (s, w, None)" and "GoType w = ''storetest.testWidget''"
    and "Meta w = meta_into (Meta new) (Meta obj)" and "Body w = Body new"
proof -
  obtain w where w: "unmarshalInto testScheme (marshal Compact new) obj = Inr w"
    using unmarshalInto_decodable [of testScheme obj "marshal Compact new"] testWidget_decodable [OF assms(1), of Compact]
      assms by auto
  have "Body w = Body new"
    using w assms by (intro unmarshalInto_full_body [OF testWidget_full_doc [OF assms(1)] _ _ w]) (auto simp: is_testWidget_def)
  with w unmarshalInto_Inr(1,2) [OF w] assms(2) that show thesis
    by (simp add: mem_copyBack_def mem_copyObject_def)
qed

lemma widget_update:
  assumes "mem_inv testScheme s" and "revision s < MaxInt64" and obj: "is_testWidget obj" and st: "is_testWidget stored"
    and "mem_view s widgetGVK (ObjectKeyFromObject obj) = Some stored"
    and "GetResourceVersion obj = GetResourceVersion stored" and "GetSpec obj \<noteq> GetSpec stored"
  obtains s' new w where "mem_Update testScheme s obj = (s', w, None)" and "mem_inv testScheme s'"
    and "mem_commit s s' widgetGVK \<lparr>ev_Type = EventModified, ev_Object = new\<rparr>"
    and "is_testWidget new" and "ObjectKeyFromObject new = ObjectKeyFromObject obj"
    and "GetSpec new = GetSpec obj" and "GetStatus new = GetStatus stored"
    and "is_testWidget w" and "ObjectKeyFromObject w = ObjectKeyFromObject obj"
    and "GetResourceVersion w = GetResourceVersion new"
proof -
  note gvk = gvk_widget(1) [OF widget_GoType [OF obj]]
  obtain m where m: "mem_mergedSpec testScheme stored obj = Inr m" "GoType m = GoType obj"
      "\<forall>k. fmlookup (Body m) k = (if k = ''status'' then GetStatus stored else fmlookup (Body obj) k)"
    using widget_status [OF st]
    by (rule_tac mem_mergedSpec_full [OF testWidget_full_doc [OF obj] testWidget_full_doc [OF st] _
        widget_merge_decodable(1) [OF st obj]]) (use obj st in auto)
  have w: "is_testWidget m" using widget_merge_body [OF obj st _ m(3)] m(2) obj by simp
  have "\<not> mem_contentEqual stored m"
    using m(3) assms(7) by (auto simp: mem_contentEqual_fields)
  then obtain s' where s': "mem_Update testScheme s obj = mem_copyBack testScheme s' (mem_updated s stored obj m) obj"
      "mem_inv testScheme s'" "mem_commit s s' widgetGVK \<lparr>ev_Type = EventModified, ev_Object = mem_updated s stored obj m\<rparr>"
    using mem_Update_eq(2) [OF assms(1,2) gvk assms(5,6) m(1)] by auto
  have new: "is_testWidget (mem_updated s stored obj m)"
    using w by (simp add: is_testWidget_def mem_updated_def)
  have key: "ObjectKeyFromObject (mem_updated s stored obj m) = ObjectKeyFromObject obj"
    using mem_mergedSpec_key(1) [OF m(1)] by (simp add: mem_updated_def)
  obtain w where w: "mem_copyBack testScheme s' (mem_updated s stored obj m) obj = (s', w, None)"
      "GoType w = ''storetest.testWidget''" "Meta w = meta_into (Meta (mem_updated s stored obj m)) (Meta obj)"
      "Body w = Body (mem_updated s stored obj m)"
    using widget_copyBack [OF new obj] by metis
  have "is_testWidget w" using new w(2,4) by (simp add: is_testWidget_def)
  show thesis
    by (rule that [OF s'(1) [unfolded w(1)] s'(2,3) new key])
      (use m(3) w(3) \<open>is_testWidget w\<close> key_of_meta_into [OF w(3) key] in \<open>simp_all add: mem_updated_def meta_into_def\<close>)
qed

lemma widget_updateStatus:
  assumes "mem_inv testScheme s" and "revision s < MaxInt64" and obj: "is_testWidget obj" and st: "is_testWidget stored"
    and "mem_view s widgetGVK (ObjectKeyFromObject obj) = Some stored"
    and "GetResourceVersion obj = GetResourceVersion stored" and "GetStatus obj \<noteq> GetStatus stored"
  obtains s' new w where "mem_UpdateStatus testScheme s obj = (s', w, None)" and "mem_inv testScheme s'"
    and "mem_commit s s' widgetGVK \<lparr>ev_Type = EventModified, ev_Object = new\<rparr>"
    and "is_testWidget new" and "ObjectKeyFromObject new = ObjectKeyFromObject obj"
    and "GetSpec new = GetSpec stored" and "GetStatus new = GetStatus obj"
proof -
  note gvk = gvk_widget(1) [OF widget_GoType [OF obj]]
  obtain m where m: "mem_mergedStatus testScheme stored obj = Inr m" "GoType m = GoType obj"
      "\<forall>k. fmlookup (Body m) k = (if k = ''status'' then GetStatus obj
         else case fmlookup (Body stored) k of Some j \<Rightarrow> Some j | None \<Rightarrow> fmlookup (Body obj) k)"
    by (rule mem_mergedStatus_full [OF testWidget_full_doc [OF obj] testWidget_full_doc [OF st] _
        widget_merge_decodable(2) [OF st obj]]) (use obj st in auto)
  have body: "fmlookup (Body m) k = (if k = ''status'' then GetStatus obj else fmlookup (Body stored) k)" for k
    using m(3) obj st by (auto simp: is_testWidget_def fmlookup_of_list split: option.split)
  have w: "is_testWidget m" using widget_merge_body [OF st obj _] body m(2) obj by simp
  have "\<not> mem_contentEqual stored m"
    using body [of "''status''"] assms(7) by (auto simp: mem_contentEqual_fields)
  let ?new = "SetResourceVersion (FormatInt (revision s + 1)) m"
  obtain s' where s': "mem_UpdateStatus testScheme s obj = mem_copyBack testScheme s' ?new obj"
      "mem_inv testScheme s'" "mem_commit s s' widgetGVK \<lparr>ev_Type = EventModified, ev_Object = ?new\<rparr>"
    using mem_UpdateStatus_eq(2) [OF assms(1,2) gvk assms(5,6) m(1) \<open>\<not> mem_contentEqual stored m\<close>] by auto
  have new: "is_testWidget ?new" using w by (simp add: is_testWidget_def)
  have "ObjectKeyFromObject stored = ObjectKeyFromObject obj"
    using mem_view_Some [OF assms(1,5)] by (metis mem_obj_ok_def)
  then have key: "ObjectKeyFromObject ?new = ObjectKeyFromObject obj"
    using mem_mergedStatus_key(1) [OF m(1)] by simp
  obtain w where "mem_copyBack testScheme s' ?new obj = (s', w, None)"
    using widget_copyBack [OF new obj] by metis
  with s' new key body [of "''spec''"] body [of "''status''"] that show thesis by simp
qed

lemma widget_get:
  assumes "mem_view s widgetGVK key = Some stored" and "is_testWidget stored"
  shows "mem_Get testScheme s key zeroWidget = (stored, None)"
proof -
  have z: "GoType zeroWidget = ''storetest.testWidget''" by (simp add: zeroWidget_def)
  have "unmarshalInto testScheme (marshal Compact stored) zeroWidget = Inr stored"
    using assms(2)
    by (intro unmarshalInto_fresh testWidget_full_doc testWidget_decodable) (auto simp: zeroWidget_def is_testWidget_def)
  with assms(1) show ?thesis
    by (simp add: mem_Get_view [OF gvk_widget(1) [OF z]] mem_copyBack_def mem_copyObject_def)
qed

lemma widget_list:
  assumes "mem_inv testScheme s"
  shows "\<exists>l. mem_List testScheme s zeroWidgetList [] = (l, None) \<and>
    ParseInt (ListResourceVersion l) = (revision s, None) \<and> (\<forall>o1\<in>set (Items l). \<exists>k. mem_view s widgetGVK k = Some o1)"
proof -
  have items: "sch_itemsField testScheme (ListType zeroWidgetList) = ItemsOf ''storetest.testWidget''"
    by (simp add: testScheme_def zeroWidgetList_def)
  have ty: "GoType o1 = ''storetest.testWidget''" if v: "mem_view s widgetGVK k = Some o1" for k o1
  proof -
    have "mem_obj_ok testScheme (revision s) widgetGVK k o1" using assms v by (rule mem_view_Some)
    then show ?thesis
      by (auto simp: mem_obj_ok_def mem_gvkForObject_def testScheme_def widgetGVK_def gadgetGVK_def split: if_splits)
  qed
  obtain out where "mem_List testScheme s zeroWidgetList [] = (out, None)"
      "ParseInt (ListResourceVersion out) = (revision s, None)"
      "set (Items out) \<subseteq> {o1. \<exists>k. mem_view s widgetGVK k = Some o1}"
    using mem_list_items [OF assms gvk_widget(2) items _ refl, of "[]"] ty by blast
  then show ?thesis by blast
qed

section \<open>The memory store as a store of widgets\<close>

abbreviation mem_setw :: "watcher_id \<Rightarrow> memoryWatcher \<Rightarrow> MemoryStore \<Rightarrow> MemoryStore" where
  "mem_setw x w s \<equiv> s\<lparr>wheap := (wheap s)(x := w)\<rparr>"

interpretation mem_heap: watcher_heap "memStore sch" wheap mem_setw for sch
  by unfold_locales (simp_all add: mem_Recv_def Let_def)

interpretation mw: widget_store "memStore testScheme" "\<lambda>s. s" mem_setw "mem_inv testScheme"
proof unfold_locales
  fix s :: MemoryStore and x and w :: memoryWatcher
  assume "mem_inv testScheme s" "w_gvk w = w_gvk (wheap s x)" "length (w_ch w) \<le> w_cap w"
  then show "mem_inv testScheme (mem_setw x w s)"
    by (auto simp: mem_inv_def mem_log_ok_def mem_watchers_ok_def)
next
  fix s obj
  assume "mem_inv testScheme s" "revision s < MaxInt64" "is_testWidget obj"
    "mem_view s widgetGVK (ObjectKeyFromObject obj) = None"
  from widget_create [OF this]
  show "\<exists>s'. st_Create (memStore testScheme) s obj = (s', mem_created s obj, None) \<and> mem_inv testScheme s' \<and>
      mem_commit s s' widgetGVK \<lparr>ev_Type = EventAdded, ev_Object = mem_created s obj\<rparr>"
    unfolding memStore_writes by metis
next
  fix s obj stored
  assume "mem_inv testScheme s" "revision s < MaxInt64" "is_testWidget obj"
    "mem_view s widgetGVK (ObjectKeyFromObject obj) = Some stored" "is_testWidget stored"
    "GetResourceVersion obj = GetResourceVersion stored" "GetSpec obj \<noteq> GetSpec stored"
  from widget_update [OF this(1,2,3,5,4,6,7)]
  show "\<exists>s' new w. st_Update (memStore testScheme) s obj = (s', w, None) \<and> mem_inv testScheme s' \<and>
      mem_commit s s' widgetGVK \<lparr>ev_Type = EventModified, ev_Object = new\<rparr> \<and>
      is_testWidget new \<and> ObjectKeyFromObject new = ObjectKeyFromObject obj \<and>
      GetSpec new = GetSpec obj \<and> GetStatus new = GetStatus stored \<and>
      is_testWidget w \<and> ObjectKeyFromObject w = ObjectKeyFromObject obj \<and>
      GetResourceVersion w = GetResourceVersion new"
    unfolding memStore_writes by metis
next
  fix s obj stored
  assume "mem_inv testScheme s" "revision s < MaxInt64" "is_testWidget obj"
    "mem_view s widgetGVK (ObjectKeyFromObject obj) = Some stored" "is_testWidget stored"
    "GetResourceVersion obj = GetResourceVersion stored" "GetStatus obj \<noteq> GetStatus stored"
  from widget_updateStatus [OF this(1,2,3,5,4,6,7)]
  show "\<exists>s' new w. st_UpdateStatus (memStore testScheme) s obj = (s', w, None) \<and> mem_inv testScheme s' \<and>
      mem_commit s s' widgetGVK \<lparr>ev_Type = EventModified, ev_Object = new\<rparr> \<and>
      is_testWidget new \<and> ObjectKeyFromObject new = ObjectKeyFromObject obj \<and>
      GetSpec new = GetSpec stored \<and> GetStatus new = GetStatus obj"
    unfolding memStore_writes by metis
next
  fix s obj stored
  assume "is_testWidget obj" "mem_view s widgetGVK (ObjectKeyFromObject obj) = Some stored"
    "GetResourceVersion obj \<noteq> GetResourceVersion stored"
  from mem_write_conflict(1,2) [OF gvk_widget(1) [OF widget_GoType [OF this(1)]] this(2,3)]
  show "\<exists>k o1 o2. st_Update (memStore testScheme) s obj = (s, o1, Some (ConflictError k)) \<and>
      st_UpdateStatus (memStore testScheme) s obj = (s, o2, Some (ConflictError k))"
    unfolding memStore_writes by blast
next
  fix s obj stored
  assume "mem_inv testScheme s" "revision s < MaxInt64" "is_testWidget obj"
    "mem_view s widgetGVK (ObjectKeyFromObject obj) = Some stored" "GetResourceVersion obj = GetResourceVersion stored"
  from mem_Delete_commit [OF this(1,2) gvk_widget(1) [OF widget_GoType [OF this(3)]] this(4) disjI2 [OF this(5)]]
  show "\<exists>s'. st_Delete (memStore testScheme) s obj = (s', None) \<and> mem_inv testScheme s' \<and>
      mem_commit s s' widgetGVK \<lparr>ev_Type = EventDeleted, ev_Object = SetResourceVersion (FormatInt (revision s + 1)) stored\<rparr>"
    unfolding memStore_writes by metis
next
  fix s key stored assume "mem_view s widgetGVK key = Some stored" "is_testWidget stored"
  then show "st_Get (memStore testScheme) s key zeroWidget = (stored, None)" by (simp add: widget_get)
next
  fix s assume "mem_inv testScheme s"
  from widget_list [OF this]
  show "\<exists>l. st_List (memStore testScheme) s zeroWidgetList [] = (s, l, None) \<and>
      ParseInt (ListResourceVersion l) = (revision s, None) \<and> (\<forall>o1\<in>set (Items l). \<exists>k. mem_view s widgetGVK k = Some o1)"
    unfolding memStore_simps by auto
next
  fix s opts assume "mem_inv testScheme s"
  then show "mem_Watch testScheme s zeroWidgetList opts =
      map_prod (\<lambda>s. s) id (st_Watch (memStore testScheme) s zeroWidgetList opts) \<and>
      mem_inv testScheme (fst (st_Watch (memStore testScheme) s zeroWidgetList opts))"
    using mem_Watch_quiet [of testScheme s zeroWidgetList opts] by (simp add: map_prod_def split: prod.split)
next
  fix s x assume "mem_inv testScheme s"
  then show "mem_Stop s x = st_Stop (memStore testScheme) s x \<and> mem_inv testScheme (st_Stop (memStore testScheme) s x)"
    using mem_Stop_quiet [of testScheme s x] by simp
qed simp_all

section \<open>The other subtests\<close>

lemma mem_fresh: "fresh_state 1000 (mem_NewStore [])" "fresh_state 5 (mem_NewStore [mem_WithEventLogSize 5])"
  using mem_NewStore_inv [of 1000 testScheme] mem_NewStore_inv [of 5 testScheme]
  by (simp_all add: fresh_state_def mem_NewStore_def mem_WithEventLogSize_def defaultEventLogSize_def mem_view_def)

lemma mem_ok: "mem_inv testScheme (mem_NewStore [])" "mem_inv testScheme (mem_NewStore [mem_WithEventLogSize 5])"
  using mem_fresh by (simp_all add: fresh_state_def)

lemma mem_many_tests:
  "invariants_revision_monotonicity_in_watch memConfig = Some ()"
  "invariants_list_returns_consistent_snapshot memConfig = Some ()"
  "watch_overflow_closes_watch memConfig = Some ()"
  "watch_RevisionTooOldError (libOf p) memConfig = Some ()"
  "concurrency_concurrent_CRUD_with_watcher memConfig turns = Some ()"
  "invariants_concurrent_updates_preserve_monotonicity memConfig turns = Some ()"
  using mw.revision_monotonicity [OF memConfig_simps(1) mem_ok(1) mem_fresh(1)]
    mw.consistent_snapshot [OF memConfig_simps(1) mem_ok(1) mem_fresh(1)]
    mw.overflow_closes [OF memConfig_simps(1) mem_ok(1) mem_fresh(1)]
    mw.too_old [OF memConfig_simps(2) refl mem_ok(2) mem_fresh(2) gone_libOf]
    mw.concurrent_CRUD [OF memConfig_simps(1) mem_ok(1) mem_fresh(1)]
    mw.concurrent_monotonicity [OF memConfig_simps(1) mem_ok(1) mem_fresh(1)] by blast+

lemma mem_writers:
  "split_concurrent_spec_and_status_writers memConfig [] = Some ()"
  "split_concurrent_spec_and_status_writers memConfig starving_turns = None"
  using mw.writers_pass [OF memConfig_simps(1) mem_ok(1) mem_fresh(1)]
    mw.writers_starve [OF memConfig_simps(1) mem_ok(1) mem_fresh(1)] by blast+

text \<open>The collecting loop on the memory store, without the loop.\<close>

definition mem_collected :: "watcher_id \<Rightarrow> MemoryStore \<Rightarrow> Event list \<Rightarrow> (MemoryStore \<times> Event list) option" where
  "mem_collected x s acc =
     (if w_closed (wheap s x) then None else Some (mem_setw x ((wheap s x)\<lparr>w_ch := []\<rparr>) s, acc @ w_ch (wheap s x)))"

lemma mem_collect: "collect (memStore testScheme) = mem_collected"
  by (simp add: fun_eq_iff mem_heap.loops mem_collected_def)

lemma mem_label_selector_replay:
  assumes "p ''color=blue'' = Inr (blueSelector b)"
  shows "watch_label_selector_replay (libOf p) memConfig = Some ()"
  unfolding watch_label_selector_replay_def memConfig_simps prod.case parse_blue [of p, OF assms] mem_collect
  by code_simp

end
