(* ===== verification/File_System.thy ===== *)
theory File_System
  imports Store_API "HOL-Library.List_Lexorder" "HOL-Library.Char_ord"
begin

text \<open>
  What the filesystem store uses of \<open>path/filepath\<close> and \<open>os\<close>. A path is kept as \<open>filepath.Clean\<close>
  leaves it: whether it starts at the root, and its elements. A disk has files and directories;
  every call on it may fail for reasons of its own (no space, no permission, a crash of the
  device), and a failed write may leave a torn file behind. The failures to come are a list,
  one entry for each call; when the list is used up there are no more failures.
\<close>

section \<open>Paths\<close>

type_synonym path = "bool \<times> string list"

fun split_slash :: "string \<Rightarrow> string list" where
  "split_slash [] = [[]]"
| "split_slash (c # cs) =
     (if c = CHR ''/'' then [] # split_slash cs
      else case split_slash cs of [] \<Rightarrow> [[c]] | w # ws \<Rightarrow> (c # w) # ws)"

text \<open>\<open>filepath.Clean\<close> on the elements; the stack is in reverse.\<close>

fun clean :: "bool \<Rightarrow> string list \<Rightarrow> string list \<Rightarrow> string list" where
  "clean rooted [] stack = rev stack"
| "clean rooted (c # cs) stack =
     (if c = [] \<or> c = ''.'' then clean rooted cs stack
      else if c = ''..'' then
        (case stack of
           [] \<Rightarrow> clean rooted cs (if rooted then [] else [''..''])
         | t # ts \<Rightarrow> clean rooted cs (if t = ''..'' then ''..'' # stack else ts))
      else clean rooted cs (c # stack))"

definition path_of :: "string \<Rightarrow> path" where
  "path_of s = (let rooted = (s \<noteq> [] \<and> hd s = CHR ''/'') in (rooted, clean rooted (split_slash s) []))"

text \<open>\<open>filepath.Join\<close> of a clean path that is not empty with further elements.\<close>

definition Join :: "path \<Rightarrow> string list \<Rightarrow> path" where
  "Join p elems = (fst p, clean (fst p) (snd p @ concat (map split_slash elems)) [])"

definition Dir :: "path \<Rightarrow> path" where
  "Dir p = (fst p, butlast (snd p))"

text \<open>The elements that mean themselves.\<close>

definition valid_elem :: "string \<Rightarrow> bool" where
  "valid_elem c \<longleftrightarrow> c \<noteq> [] \<and> hd c \<noteq> CHR ''.'' \<and> CHR ''/'' \<notin> set c"

lemma split_slash_plain: "CHR ''/'' \<notin> set c \<Longrightarrow> split_slash c = [c]"
  by (induction c) auto

lemma clean_plain:
  "\<forall>c \<in> set cs. c \<noteq> [] \<and> c \<noteq> ''.'' \<and> c \<noteq> ''..'' \<Longrightarrow> clean rooted cs stack = rev stack @ cs"
  by (induction cs arbitrary: stack) auto

definition clean_path :: "path \<Rightarrow> bool" where
  "clean_path p \<longleftrightarrow> (\<forall>c \<in> set (snd p). c \<noteq> [] \<and> c \<noteq> ''.'' \<and> c \<noteq> ''..'')"

lemma valid_elem_clean: "valid_elem c \<Longrightarrow> c \<noteq> [] \<and> c \<noteq> ''.'' \<and> c \<noteq> ''..''"
  by (auto simp: valid_elem_def)

lemma Join_valid:
  assumes "clean_path p" and "\<forall>e \<in> set elems. valid_elem e"
  shows "Join p elems = (fst p, snd p @ elems)"
proof -
  have "concat (map split_slash elems) = elems"
    using assms(2) by (induction elems) (auto simp: split_slash_plain valid_elem_def)
  moreover have "clean (fst p) (snd p @ elems) [] = snd p @ elems"
    using assms valid_elem_clean clean_plain [of "snd p @ elems" "fst p" "[]"] by (auto simp: clean_path_def)
  ultimately show ?thesis by (simp add: Join_def)
qed

section \<open>Disks\<close>

text \<open>The contents of a file: an indented JSON document of an object, text, or a torn write.\<close>

datatype content = Doc rawmap | Text string | Torn

datatype os_error = ErrNotExist | OSError string

text \<open>A failure to come: its message, and whether it tears the file that is being written.\<close>

datatype fault = Fault string bool

record disk =
  d_files :: "(path, content) gomap"
  d_dirs :: "path list"
  d_faults :: "fault option list"

definition os_error_Error :: "os_error \<Rightarrow> error" where
  "os_error_Error e = (case e of ErrNotExist \<Rightarrow> Error ''no such file or directory'' | OSError m \<Rightarrow> Error m)"

definition next_fault :: "disk \<Rightarrow> disk \<times> fault option" where
  "next_fault d = (case d_faults d of [] \<Rightarrow> (d, None) | f # fs \<Rightarrow> (d\<lparr>d_faults := fs\<rparr>, f))"

text \<open>No file stands in the way of the path.\<close>

definition clear_way :: "disk \<Rightarrow> path \<Rightarrow> bool" where
  "clear_way d p = list_all (\<lambda>n. map_of (d_files d) (fst p, take n (snd p)) = None) [0..<length (snd p)]"

definition file_error :: "disk \<Rightarrow> path \<Rightarrow> os_error" where
  "file_error d p =
     (if p \<in> set (d_dirs d) then OSError ''is a directory''
      else if clear_way d p then ErrNotExist else OSError ''not a directory'')"

definition os_ReadFile :: "path \<Rightarrow> disk \<Rightarrow> disk \<times> (os_error + content)" where
  "os_ReadFile p d =
     (case next_fault d of
        (d1, Some (Fault m _)) \<Rightarrow> (d1, Inl (OSError m))
      | (d1, None) \<Rightarrow>
          (d1, case map_of (d_files d1) p of Some c \<Rightarrow> Inr c | None \<Rightarrow> Inl (file_error d1 p)))"

definition os_Stat :: "path \<Rightarrow> disk \<Rightarrow> disk \<times> (os_error + unit)" where
  "os_Stat p d =
     (case next_fault d of
        (d1, Some (Fault m _)) \<Rightarrow> (d1, Inl (OSError m))
      | (d1, None) \<Rightarrow>
          (d1, if map_of (d_files d1) p \<noteq> None \<or> p \<in> set (d_dirs d1) then Inr () else Inl (file_error d1 p)))"

definition os_WriteFile :: "path \<Rightarrow> content \<Rightarrow> disk \<Rightarrow> disk \<times> (os_error + unit)" where
  "os_WriteFile p c d =
     (case next_fault d of
        (d1, Some (Fault m torn)) \<Rightarrow>
          (if torn then d1\<lparr>d_files := AList.update p Torn (d_files d1)\<rparr> else d1, Inl (OSError m))
      | (d1, None) \<Rightarrow>
          if p \<in> set (d_dirs d1) \<or> Dir p \<notin> set (d_dirs d1) then (d1, Inl (file_error d1 p))
          else (d1\<lparr>d_files := AList.update p c (d_files d1)\<rparr>, Inr ()))"

definition os_Remove :: "path \<Rightarrow> disk \<Rightarrow> disk \<times> (os_error + unit)" where
  "os_Remove p d =
     (case next_fault d of
        (d1, Some (Fault m _)) \<Rightarrow> (d1, Inl (OSError m))
      | (d1, None) \<Rightarrow>
          if map_of (d_files d1) p = None then (d1, Inl (file_error d1 p))
          else (d1\<lparr>d_files := AList.delete p (d_files d1)\<rparr>, Inr ()))"

text \<open>\<open>os.MkdirAll\<close>: the path and all its parents become directories unless one of them is a file.\<close>

definition ancestors :: "path \<Rightarrow> path list" where
  "ancestors p = map (\<lambda>n. (fst p, take n (snd p))) [0..<Suc (length (snd p))]"

definition os_MkdirAll :: "path \<Rightarrow> disk \<Rightarrow> disk \<times> (os_error + unit)" where
  "os_MkdirAll p d =
     (case next_fault d of
        (d1, Some (Fault m _)) \<Rightarrow> (d1, Inl (OSError m))
      | (d1, None) \<Rightarrow>
          if list_all (\<lambda>q. map_of (d_files d1) q = None) (ancestors p)
          then (d1\<lparr>d_dirs := List.union (ancestors p) (d_dirs d1)\<rparr>, Inr ())
          else (d1, Inl (OSError ''not a directory'')))"

text \<open>\<open>os.ReadDir\<close>: the entries sorted by name, each with whether it is a directory.\<close>

definition child_names :: "path \<Rightarrow> path list \<Rightarrow> string list" where
  "child_names p ps = map (last \<circ> snd) (filter (\<lambda>q. snd q \<noteq> [] \<and> Dir q = p) ps)"

definition child :: "path \<Rightarrow> string \<Rightarrow> path" where
  "child p name = (fst p, snd p @ [name])"

definition os_ReadDir :: "path \<Rightarrow> disk \<Rightarrow> disk \<times> (os_error + (string \<times> bool) list)" where
  "os_ReadDir p d =
     (case next_fault d of
        (d1, Some (Fault m _)) \<Rightarrow> (d1, Inl (OSError m))
      | (d1, None) \<Rightarrow>
          (d1, if p \<in> set (d_dirs d1)
               then Inr (map (\<lambda>name. (name, child p name \<in> set (d_dirs d1)))
                      (sort (remdups (child_names p (d_dirs d1) @ child_names p (map fst (d_files d1))))))
               else if map_of (d_files d1) p \<noteq> None then Inl (OSError ''not a directory'')
               else Inl (file_error d1 p)))"

end
