(* ===== verification/File_Store.thy ===== *)
theory File_Store
  imports File_System Memory_Store
begin

text \<open>
  The store of \<open>filesystem/store.go\<close> and \<open>filesystem/watcher.go\<close>: one JSON file for each object, a
  file for the revision and one for the UID counter; the event log and the watchers are in memory.
  \<open>FileStore\<close> is the Go struct together with the disk that it works on. The struct \<open>fileWatcher\<close> has
  the fields of \<open>memoryWatcher\<close>, so both share one record.
\<close>

section \<open>State\<close>

type_synonym fileWatcher = memoryWatcher

record FileStore =
  f_root :: path
  f_disk :: disk
  f_watchers :: "GroupVersionKind \<Rightarrow> watcher_id list"
  f_wheap :: "watcher_id \<Rightarrow> fileWatcher"
  f_nextWatcher :: watcher_id
  f_uidCounter :: int
  f_revision :: int
  f_eventLog :: "eventLogEntry list"
  f_eventLogMax :: int

definition isSpace :: "char \<Rightarrow> bool" where
  "isSpace c \<longleftrightarrow> c \<in> {CHR '' '', CHR 0x09, CHR 0x0A, CHR 0x0B, CHR 0x0C, CHR 0x0D}"

definition TrimSpace :: "string \<Rightarrow> string" where
  "TrimSpace s = rev (dropWhile isSpace (rev (dropWhile isSpace s)))"

section \<open>Paths and files\<close>

definition gvkDir :: "path \<Rightarrow> GroupVersionKind \<Rightarrow> path" where
  "gvkDir root gvk =
     (let group = (if Group gvk = [] then ''core'' else Group gvk) in Join root [group, Version gvk, Kind gvk])"

definition objectPath :: "path \<Rightarrow> GroupVersionKind \<Rightarrow> ObjectKey \<Rightarrow> path" where
  "objectPath root gvk key =
     (let ns = (if key_Namespace key = [] then ''_cluster'' else key_Namespace key)
      in Join (gvkDir root gvk) [ns, key_Name key @ ''.json''])"

definition revisionPath :: "path \<Rightarrow> path" where
  "revisionPath root = Join root [''.revision'']"

definition uidPath :: "path \<Rightarrow> path" where
  "uidPath root = Join root [''.uid-counter'']"

text \<open>The number in a file, where the file can be read and parsed: \<open>loadRevision\<close> and \<open>loadUIDCounter\<close>.\<close>

definition loadNumber :: "path \<Rightarrow> int \<Rightarrow> disk \<Rightarrow> disk \<times> int" where
  "loadNumber p old d =
     (case os_ReadFile p d of
        (d1, Inr (Text s)) \<Rightarrow>
          (d1, case ParseInt (TrimSpace s) of (n, None) \<Rightarrow> n | (n, Some _) \<Rightarrow> old)
      | (d1, _) \<Rightarrow> (d1, old))"

definition file_loadRevision :: "FileStore \<Rightarrow> FileStore" where
  "file_loadRevision s =
     (case loadNumber (revisionPath (f_root s)) (f_revision s) (f_disk s) of
        (d, n) \<Rightarrow> s\<lparr>f_disk := d, f_revision := n\<rparr>)"

definition file_loadUIDCounter :: "FileStore \<Rightarrow> FileStore" where
  "file_loadUIDCounter s =
     (case loadNumber (uidPath (f_root s)) (f_uidCounter s) (f_disk s) of
        (d, n) \<Rightarrow> s\<lparr>f_disk := d, f_uidCounter := n\<rparr>)"

definition file_WithEventLogSize :: "int \<Rightarrow> FileStore \<Rightarrow> FileStore" where
  "file_WithEventLogSize n s = s\<lparr>f_eventLogMax := n\<rparr>"

definition file_NewStore :: "string \<Rightarrow> (FileStore \<Rightarrow> FileStore) list \<Rightarrow> disk \<Rightarrow> FileStore" where
  "file_NewStore root opts d =
     (let s = \<lparr>f_root = path_of root, f_disk = d, f_watchers = (\<lambda>_. []),
               f_wheap = (\<lambda>_. nil_watcher), f_nextWatcher = 0, f_uidCounter = 0, f_revision = 0, f_eventLog = [], f_eventLogMax = defaultEventLogSize\<rparr>
      in file_loadUIDCounter (file_loadRevision (fold (\<lambda>opt s. opt s) opts s)))"

text \<open>A write to the disk with its error.\<close>

definition persistNumber :: "path \<Rightarrow> path \<Rightarrow> int \<Rightarrow> disk \<Rightarrow> disk \<times> error option" where
  "persistNumber root p n d =
     (case os_MkdirAll root d of
        (d1, Inl e) \<Rightarrow> (d1, Some (os_error_Error e))
      | (d1, Inr _) \<Rightarrow>
          (case os_WriteFile p (Text (FormatInt n)) d1 of
             (d2, Inl e) \<Rightarrow> (d2, Some (os_error_Error e))
           | (d2, Inr _) \<Rightarrow> (d2, None)))"

definition file_persistRevision :: "FileStore \<Rightarrow> int \<Rightarrow> disk \<Rightarrow> disk \<times> error option" where
  "file_persistRevision s rv d = persistNumber (f_root s) (revisionPath (f_root s)) rv d"

definition file_generateUID :: "FileStore \<Rightarrow> FileStore \<times> (error + string)" where
  "file_generateUID s =
     (let n = add64 (f_uidCounter s) 1
      in case persistNumber (f_root s) (uidPath (f_root s)) n (f_disk s) of
           (d, Some e) \<Rightarrow> (s\<lparr>f_disk := d, f_uidCounter := n\<rparr>, Inl e)
         | (d, None) \<Rightarrow> (s\<lparr>f_disk := d, f_uidCounter := n\<rparr>, Inr (''uid-'' @ FormatInt n)))"

text \<open>\<open>os.WriteFile(path, data)\<close>, then \<open>persistRevision(rv)\<close>.\<close>

definition file_save :: "FileStore \<Rightarrow> path \<Rightarrow> object \<Rightarrow> int \<Rightarrow> disk \<Rightarrow> disk \<times> error option" where
  "file_save s p obj rv d =
     (case os_WriteFile p (Doc (marshal Indented obj)) d of
        (d1, Inl e) \<Rightarrow> (d1, Some (os_error_Error e))
      | (d1, Inr _) \<Rightarrow> file_persistRevision s rv d1)"

text \<open>\<open>json.Unmarshal\<close> of the contents of a file into an object, and into a new object of the kind.\<close>

definition decodeFile :: "scheme \<Rightarrow> content \<Rightarrow> object \<Rightarrow> error + object" where
  "decodeFile sch c obj =
     (case c of Doc rm \<Rightarrow> unmarshalInto sch rm obj | _ \<Rightarrow> Inl (Error ''json: cannot unmarshal file''))"

definition loadStored :: "scheme \<Rightarrow> GroupVersionKind \<Rightarrow> content \<Rightarrow> error + object" where
  "loadStored sch gvk c =
     (case sch_New sch gvk of
        Inl e \<Rightarrow> Inl e
      | Inr (RObject z) \<Rightarrow> decodeFile sch c z
      | Inr _ \<Rightarrow> Inl (Error ''object does not implement the Object interfaces''))"

section \<open>Helpers\<close>

definition file_gvkForObject :: "scheme \<Rightarrow> object \<Rightarrow> error + GroupVersionKind" where
  "file_gvkForObject sch obj =
     (case sch_ObjectKinds sch (GoType obj) of
        Inl e \<Rightarrow> Inl e
      | Inr [] \<Rightarrow> Inl (Error (''no GVK found for object type *'' @ GoType obj))
      | Inr (gvk # _) \<Rightarrow> Inr gvk)"

definition file_gvkForList :: "scheme \<Rightarrow> object_list \<Rightarrow> error + GroupVersionKind" where
  "file_gvkForList sch lst =
     (case sch_ObjectKinds sch (ListType lst) of
        Inl e \<Rightarrow> Inl e
      | Inr [] \<Rightarrow> Inl (Error (''no GVK found for list type *'' @ ListType lst))
      | Inr (gvk # _) \<Rightarrow> Inr (gvk\<lparr>Kind := TrimListSuffix (Kind gvk)\<rparr>))"

definition file_populateListItems :: "scheme \<Rightarrow> object_list \<Rightarrow> object list \<Rightarrow> object_list \<times> error option" where
  "file_populateListItems sch lst items =
     (case sch_itemsField sch (ListType lst) of
        NoItemsField \<Rightarrow> (lst, Some (Error (''list type *'' @ ListType lst @ '' does not have Items field'')))
      | UnsettableItems \<Rightarrow> (lst, Some (Error (''Items field of list type *'' @ ListType lst @ '' cannot be set'')))
      | ItemsOf ty \<Rightarrow>
          (if list_all (\<lambda>i. GoType i = ty) items then (lst\<lparr>Items := items\<rparr>, None)
           else (lst, Some (Panic ''reflect.Append'')))
      | ItemsOfPtr ty \<Rightarrow>
          (if items = [] then (lst\<lparr>Items := []\<rparr>, None) else (lst, Some (Panic ''reflect.Append''))))"

definition file_logEvent :: "FileStore \<Rightarrow> GroupVersionKind \<Rightarrow> int \<Rightarrow> Event \<Rightarrow> FileStore option" where
  "file_logEvent s gvk rv e =
     (let l = f_eventLog s @ [\<lparr>le_revision = rv, le_gvk = gvk, le_event = e\<rparr>]
      in if int (length l) > f_eventLogMax s then
           (if f_eventLogMax s < 0 then None
            else Some (s\<lparr>f_eventLog := drop (length l - nat (f_eventLogMax s)) l\<rparr>))
         else Some (s\<lparr>f_eventLog := l\<rparr>))"

definition file_eventsSince :: "FileStore \<Rightarrow> int \<Rightarrow> GroupVersionKind \<Rightarrow> error + Event list" where
  "file_eventsSince s fromRevision gvk =
     (let currentRevision = f_revision s
      in if fromRevision \<ge> currentRevision then Inr []
         else case f_eventLog s of
                [] \<Rightarrow> Inl (RevisionTooOldError fromRevision (add64 currentRevision 1))
              | oldest # _ \<Rightarrow>
                  if add64 fromRevision 1 < le_revision oldest
                  then Inl (RevisionTooOldError fromRevision (le_revision oldest))
                  else Inr (map le_event
                         (filter (\<lambda>en. le_revision en > fromRevision \<and> le_gvk en = gvk) (f_eventLog s))))"

section \<open>Watchers\<close>

definition newFileWatcher :: "GroupVersionKind \<Rightarrow> nat \<Rightarrow> fileWatcher" where
  "newFileWatcher gvk bufSize = \<lparr>w_gvk = gvk, w_ch = [], w_cap = bufSize, w_closed = False\<rparr>"

definition filew_isStopped :: "fileWatcher \<Rightarrow> bool" where
  "filew_isStopped w = w_closed w"

definition filew_send :: "fileWatcher \<Rightarrow> Event \<Rightarrow> fileWatcher" where
  "filew_send w e =
     (if w_closed w then w
      else case chan_send w e of
             Some w' \<Rightarrow> w'
           | None \<Rightarrow> w\<lparr>w_closed := True\<rparr>)"

definition filew_Recv :: "fileWatcher \<Rightarrow> fileWatcher \<times> recv" where
  "filew_Recv w =
     (case w_ch w of
        e # es \<Rightarrow> (w\<lparr>w_ch := es\<rparr>, Received e)
      | [] \<Rightarrow> (w, if w_closed w then ChanClosed else WouldBlock))"

definition file_Recv :: "FileStore \<Rightarrow> watcher_id \<Rightarrow> FileStore \<times> recv" where
  "file_Recv s i =
     (let r = filew_Recv (f_wheap s i) in (s\<lparr>f_wheap := (f_wheap s)(i := fst r)\<rparr>, snd r))"

definition file_removeWatcher :: "FileStore \<Rightarrow> GroupVersionKind \<Rightarrow> watcher_id \<Rightarrow> FileStore" where
  "file_removeWatcher s gvk i =
     s\<lparr>f_watchers := (f_watchers s)(gvk := filter (\<lambda>w. w \<noteq> i) (f_watchers s gvk))\<rparr>"

definition file_Stop :: "FileStore \<Rightarrow> watcher_id \<Rightarrow> FileStore" where
  "file_Stop s i =
     (let w = f_wheap s i;
          s1 = (if w_closed w then s else s\<lparr>f_wheap := (f_wheap s)(i := w\<lparr>w_closed := True\<rparr>)\<rparr>)
      in file_removeWatcher s1 (w_gvk w) i)"

fun file_notifyLoop ::
  "watcher_id list \<Rightarrow> Event \<Rightarrow> (watcher_id \<Rightarrow> fileWatcher) \<Rightarrow> watcher_id list
   \<Rightarrow> (watcher_id \<Rightarrow> fileWatcher) \<times> watcher_id list" where
  "file_notifyLoop [] e h active = (h, active)"
| "file_notifyLoop (i # is) e h active =
     (if filew_isStopped (h i) then file_notifyLoop is e h active
      else file_notifyLoop is e (h(i := filew_send (h i) e)) (active @ [i]))"

definition file_notifyWatchers :: "FileStore \<Rightarrow> GroupVersionKind \<Rightarrow> Event \<Rightarrow> FileStore" where
  "file_notifyWatchers s gvk e =
     (let r = file_notifyLoop (f_watchers s gvk) e (f_wheap s) []
      in s\<lparr>f_wheap := fst r, f_watchers := (f_watchers s)(gvk := snd r)\<rparr>)"

definition file_emit :: "FileStore \<Rightarrow> GroupVersionKind \<Rightarrow> int \<Rightarrow> Event \<Rightarrow> FileStore option" where
  "file_emit s gvk rv e = map_option (\<lambda>s1. file_notifyWatchers s1 gvk e) (file_logEvent s gvk rv e)"

section \<open>Reads\<close>

definition file_Get :: "scheme \<Rightarrow> FileStore \<Rightarrow> ObjectKey \<Rightarrow> object \<Rightarrow> FileStore \<times> object \<times> error option" where
  "file_Get sch s key obj =
     (case file_gvkForObject sch obj of
        Inl e \<Rightarrow> (s, obj, Some e)
      | Inr gvk \<Rightarrow>
          (case os_ReadFile (objectPath (f_root s) gvk key) (f_disk s) of
             (d, Inl ErrNotExist) \<Rightarrow> (s\<lparr>f_disk := d\<rparr>, obj, Some (NotFoundError (ObjectKey_String key)))
           | (d, Inl e) \<Rightarrow> (s\<lparr>f_disk := d\<rparr>, obj, Some (os_error_Error e))
           | (d, Inr data) \<Rightarrow>
               (case decodeFile sch data obj of
                  Inl e \<Rightarrow> (s\<lparr>f_disk := d\<rparr>, obj, Some e)
                | Inr o1 \<Rightarrow> (s\<lparr>f_disk := d\<rparr>, o1, None))))"

definition HasJsonSuffix :: "string \<Rightarrow> bool" where
  "HasJsonSuffix name \<longleftrightarrow> length name \<ge> 5 \<and> drop (length name - 5) name = ''.json''"

text \<open>The loops of \<open>List\<close> over the files of a namespace and over the namespaces of a kind.\<close>

fun file_listFiles ::
  "scheme \<Rightarrow> GroupVersionKind \<Rightarrow> ListOptions \<Rightarrow> path \<Rightarrow> (string \<times> bool) list \<Rightarrow> disk \<Rightarrow> object list \<Rightarrow> disk \<times> (error + object list)" where
  "file_listFiles sch gvk lo dir [] d items = (d, Inr items)"
| "file_listFiles sch gvk lo dir ((name, isDir) # files) d items =
     (if isDir \<or> \<not> HasJsonSuffix name then file_listFiles sch gvk lo dir files d items
      else case os_ReadFile (child dir name) d of
        (d1, Inl e) \<Rightarrow> (d1, Inl (os_error_Error e))
      | (d1, Inr data) \<Rightarrow>
          (case sch_New sch gvk of
             Inl e \<Rightarrow> (d1, Inl e)
           | Inr (RList l) \<Rightarrow> (d1, Inl (Error (''type *'' @ ListType l @ '' does not implement client.Object'')))
           | Inr (ROther ty) \<Rightarrow> (d1, Inl (Error (''type '' @ ty @ '' does not implement client.Object'')))
           | Inr (RObject z) \<Rightarrow>
               (case decodeFile sch data z of
                  Inl e \<Rightarrow> (d1, Inl e)
                | Inr o1 \<Rightarrow>
                    (if (case lo_LabelSelector lo of None \<Rightarrow> True | Some sel \<Rightarrow> sel_Matches sel (GetLabels o1))
                     then file_listFiles sch gvk lo dir files d1 (items @ [o1])
                     else file_listFiles sch gvk lo dir files d1 items))))"

definition nsOfDir :: "string \<Rightarrow> string" where
  "nsOfDir name = (if name = ''_cluster'' then [] else name)"

fun file_listDirs ::
  "scheme \<Rightarrow> GroupVersionKind \<Rightarrow> ListOptions \<Rightarrow> path \<Rightarrow> (string \<times> bool) list \<Rightarrow> disk \<Rightarrow> object list \<Rightarrow> disk \<times> (error + object list)" where
  "file_listDirs sch gvk lo dir [] d items = (d, Inr items)"
| "file_listDirs sch gvk lo dir ((name, isDir) # dirs) d items =
     (if \<not> isDir \<or> (lo_Namespace lo \<noteq> [] \<and> nsOfDir name \<noteq> lo_Namespace lo)
      then file_listDirs sch gvk lo dir dirs d items
      else case os_ReadDir (child dir name) d of
        (d1, Inl e) \<Rightarrow> (d1, Inl (os_error_Error e))
      | (d1, Inr files) \<Rightarrow>
          (case file_listFiles sch gvk lo (child dir name) files d1 items of
             (d2, Inl e) \<Rightarrow> (d2, Inl e)
           | (d2, Inr items') \<Rightarrow> file_listDirs sch gvk lo dir dirs d2 items'))"

definition file_List ::
  "scheme \<Rightarrow> FileStore \<Rightarrow> object_list \<Rightarrow> ListOption list \<Rightarrow> FileStore \<times> object_list \<times> error option" where
  "file_List sch s lst opts =
     (case file_gvkForList sch lst of
        Inl e \<Rightarrow> (s, lst, Some e)
      | Inr gvk \<Rightarrow>
          (let lo = applyListOptions opts;
               lst1 = lst\<lparr>ListResourceVersion := FormatInt (f_revision s)\<rparr>;
               dir = gvkDir (f_root s) gvk
           in case os_ReadDir dir (f_disk s) of
                (d, Inl ErrNotExist) \<Rightarrow> (s\<lparr>f_disk := d\<rparr>, file_populateListItems sch lst1 [])
              | (d, Inl e) \<Rightarrow> (s\<lparr>f_disk := d\<rparr>, lst1, Some (os_error_Error e))
              | (d, Inr nsDirs) \<Rightarrow>
                  (case file_listDirs sch gvk lo dir nsDirs d [] of
                     (d1, Inl e) \<Rightarrow> (s\<lparr>f_disk := d1\<rparr>, lst1, Some e)
                   | (d1, Inr items) \<Rightarrow> (s\<lparr>f_disk := d1\<rparr>, file_populateListItems sch lst1 items))))"

section \<open>Writes\<close>

text \<open>The last step of every write: log the event, then notify; \<open>None\<close> is the panic of a negative log size.\<close>

definition file_publish ::
  "FileStore \<Rightarrow> GroupVersionKind \<Rightarrow> int \<Rightarrow> Event \<Rightarrow> object \<Rightarrow> FileStore \<times> object \<times> error option" where
  "file_publish s gvk rv e obj =
     (case file_emit s gvk rv e of
        None \<Rightarrow> (s, obj, Some (Panic ''makeslice: len out of range''))
      | Some s1 \<Rightarrow> (s1, obj, None))"

definition file_Create :: "scheme \<Rightarrow> FileStore \<Rightarrow> object \<Rightarrow> FileStore \<times> object \<times> error option" where
  "file_Create sch s obj =
     (case file_gvkForObject sch obj of
        Inl e \<Rightarrow> (s, obj, Some e)
      | Inr gvk \<Rightarrow>
          (let key = ObjectKeyFromObject obj; path = objectPath (f_root s) gvk key
           in case os_Stat path (f_disk s) of
                (d1, Inr _) \<Rightarrow> (s\<lparr>f_disk := d1\<rparr>, obj, Some (AlreadyExistsError (ObjectKey_String key)))
              | (d1, Inl _) \<Rightarrow>
          (let s1 = s\<lparr>f_disk := d1\<rparr>
           in case (if GetUID obj = [] then file_generateUID s1 else (s1, Inr (GetUID obj))) of
                (s2, Inl e) \<Rightarrow> (s2, obj, Some e)
              | (s2, Inr uid) \<Rightarrow>
          (let rv = add64 (f_revision s2) 1;
               s3 = s2\<lparr>f_revision := rv\<rparr>;
               created = SetGeneration 1 (SetResourceVersion (FormatInt rv) (SetUID uid obj))
           in case os_MkdirAll (Dir path) (f_disk s3) of
                (d3, Inl e) \<Rightarrow> (s3\<lparr>f_disk := d3\<rparr>, created, Some (os_error_Error e))
              | (d3, Inr _) \<Rightarrow>
          (case file_save s3 path created rv d3 of
             (d4, Some e) \<Rightarrow> (s3\<lparr>f_disk := d4\<rparr>, created, Some e)
           | (d4, None) \<Rightarrow>
               file_publish (s3\<lparr>f_disk := d4\<rparr>) gvk rv \<lparr>ev_Type = EventAdded, ev_Object = created\<rparr> created)))))"

text \<open>\<open>json.Marshal\<close> of a map of raw messages compacts them.\<close>

definition compactMap :: "rawmap \<Rightarrow> rawmap" where
  "compactMap rm = rm\<lparr>rm_Body := fmmap (\<lambda>r. (Compact, snd r)) (rm_Body rm)\<rparr>"

definition file_mergeSpec :: "rawmap \<Rightarrow> rawmap \<Rightarrow> rawmap" where
  "file_mergeSpec storedMap inputMap =
     inputMap\<lparr>rm_Body :=
       (case fmlookup (rm_Body storedMap) ''status'' of
          Some status \<Rightarrow> fmupd ''status'' status (rm_Body inputMap)
        | None \<Rightarrow> fmdrop ''status'' (rm_Body inputMap))\<rparr>"

definition file_mergeStatus :: "rawmap \<Rightarrow> rawmap \<Rightarrow> rawmap" where
  "file_mergeStatus storedMap inputMap =
     storedMap\<lparr>rm_Body :=
       (case fmlookup (rm_Body inputMap) ''status'' of
          Some status \<Rightarrow> fmupd ''status'' status (rm_Body storedMap)
        | None \<Rightarrow> fmdrop ''status'' (rm_Body storedMap))\<rparr>"

text \<open>
  What \<open>Update\<close> and \<open>UpdateStatus\<close> do first: read the stored file, decode it, and compare the
  resource versions. The result is the document and the stored object.
\<close>

definition file_open ::
  "scheme \<Rightarrow> FileStore \<Rightarrow> GroupVersionKind \<Rightarrow> object \<Rightarrow> disk \<times> (error + rawmap \<times> object)" where
  "file_open sch s gvk obj =
     (let key = ObjectKeyFromObject obj
      in case os_ReadFile (objectPath (f_root s) gvk key) (f_disk s) of
           (d, Inl ErrNotExist) \<Rightarrow> (d, Inl (NotFoundError (ObjectKey_String key)))
         | (d, Inl e) \<Rightarrow> (d, Inl (os_error_Error e))
         | (d, Inr existing) \<Rightarrow>
             (case loadStored sch gvk existing of
                Inl e \<Rightarrow> (d, Inl e)
              | Inr stored \<Rightarrow>
                  if GetResourceVersion obj \<noteq> GetResourceVersion stored
                  then (d, Inl (ConflictError (ObjectKey_String key)))
                  else (case existing of
                          Doc rm \<Rightarrow> (d, Inr (rm, stored))
                        | _ \<Rightarrow> (d, Inl (Error ''json: cannot unmarshal file'')))))"

text \<open>What they do last: write the file and the revision, copy the result back, publish.\<close>

definition file_finish ::
  "scheme \<Rightarrow> FileStore \<Rightarrow> GroupVersionKind \<Rightarrow> object \<Rightarrow> object \<Rightarrow> FileStore \<times> object \<times> error option" where
  "file_finish sch s gvk merged0 obj =
     (let rv = add64 (f_revision s) 1;
          s1 = s\<lparr>f_revision := rv\<rparr>;
          merged = SetResourceVersion (FormatInt rv) merged0
      in case file_save s1 (objectPath (f_root s) gvk (ObjectKeyFromObject obj)) merged rv (f_disk s1) of
           (d1, Some e) \<Rightarrow> (s1\<lparr>f_disk := d1\<rparr>, obj, Some e)
         | (d1, None) \<Rightarrow>
             (case unmarshalInto sch (marshal Indented merged) obj of
                Inl e \<Rightarrow> (s1\<lparr>f_disk := d1\<rparr>, obj, Some e)
              | Inr obj' \<Rightarrow>
                  file_publish (s1\<lparr>f_disk := d1\<rparr>) gvk rv \<lparr>ev_Type = EventModified, ev_Object = merged\<rparr> obj'))"

definition file_Update :: "scheme \<Rightarrow> FileStore \<Rightarrow> object \<Rightarrow> FileStore \<times> object \<times> error option" where
  "file_Update sch s obj =
     (case file_gvkForObject sch obj of
        Inl e \<Rightarrow> (s, obj, Some e)
      | Inr gvk \<Rightarrow>
          (case file_open sch s gvk obj of
             (d, Inl e) \<Rightarrow> (s\<lparr>f_disk := d\<rparr>, obj, Some e)
           | (d, Inr (storedMap, stored)) \<Rightarrow>
          (let s1 = s\<lparr>f_disk := d\<rparr>;
               inputMap = marshal Compact obj;
               mergedMap = file_mergeSpec storedMap inputMap;
               specChanged = (\<not> bytes_Equal (fmlookup (rm_Body storedMap) ''spec'')
                                            (fmlookup (rm_Body inputMap) ''spec''))
           in case unmarshalInto sch (compactMap mergedMap) obj of
                Inl e \<Rightarrow> (s1, obj, Some e)
              | Inr merged0 \<Rightarrow>
          (let merged1 = SetGeneration (GetGeneration stored)
                 (SetUID (GetUID stored) (SetResourceVersion (GetResourceVersion stored) merged0))
           in if marshal Indented merged1 = storedMap
              then (case unmarshalInto sch storedMap obj of
                      Inl e \<Rightarrow> (s1, obj, Some e)
                    | Inr o1 \<Rightarrow> (s1, o1, None))
              else file_finish sch s1 gvk
                     (if specChanged then SetGeneration (add64 (GetGeneration stored) 1) merged1 else merged1) obj))))"

definition file_UpdateStatus :: "scheme \<Rightarrow> FileStore \<Rightarrow> object \<Rightarrow> FileStore \<times> object \<times> error option" where
  "file_UpdateStatus sch s obj =
     (case file_gvkForObject sch obj of
        Inl e \<Rightarrow> (s, obj, Some e)
      | Inr gvk \<Rightarrow>
          (case file_open sch s gvk obj of
             (d, Inl e) \<Rightarrow> (s\<lparr>f_disk := d\<rparr>, obj, Some e)
           | (d, Inr (storedMap, stored)) \<Rightarrow>
          (let s1 = s\<lparr>f_disk := d\<rparr>;
               inputMap = marshal Compact obj;
               mergedMap = file_mergeStatus storedMap inputMap
           in case unmarshalInto sch (compactMap mergedMap) obj of
                Inl e \<Rightarrow> (s1, obj, Some e)
              | Inr merged0 \<Rightarrow>
          (let merged1 = SetGeneration (GetGeneration stored)
                 (SetUID (GetUID stored) (SetResourceVersion (GetResourceVersion stored) merged0))
           in if marshal Indented merged1 = storedMap
              then (case unmarshalInto sch storedMap obj of
                      Inl e \<Rightarrow> (s1, obj, Some e)
                    | Inr o1 \<Rightarrow> (s1, o1, None))
              else file_finish sch s1 gvk merged1 obj))))"

definition file_Delete :: "scheme \<Rightarrow> FileStore \<Rightarrow> object \<Rightarrow> FileStore \<times> error option" where
  "file_Delete sch s obj =
     (case file_gvkForObject sch obj of
        Inl e \<Rightarrow> (s, Some e)
      | Inr gvk \<Rightarrow>
          (let key = ObjectKeyFromObject obj; path = objectPath (f_root s) gvk key
           in case os_ReadFile path (f_disk s) of
                (d, Inl ErrNotExist) \<Rightarrow> (s\<lparr>f_disk := d\<rparr>, Some (NotFoundError (ObjectKey_String key)))
              | (d, Inl e) \<Rightarrow> (s\<lparr>f_disk := d\<rparr>, Some (os_error_Error e))
              | (d, Inr data) \<Rightarrow>
          (case loadStored sch gvk data of
             Inl e \<Rightarrow> (s\<lparr>f_disk := d\<rparr>, Some e)
           | Inr stored \<Rightarrow>
          if GetResourceVersion obj \<noteq> [] \<and> GetResourceVersion obj \<noteq> GetResourceVersion stored
          then (s\<lparr>f_disk := d\<rparr>, Some (ConflictError (ObjectKey_String key)))
          else case os_Remove path d of
                 (d1, Inl e) \<Rightarrow> (s\<lparr>f_disk := d1\<rparr>, Some (os_error_Error e))
               | (d1, Inr _) \<Rightarrow>
          (let rv = add64 (f_revision s) 1; s1 = s\<lparr>f_revision := rv\<rparr>
           in case file_persistRevision s1 rv d1 of
                (d2, Some e) \<Rightarrow> (s1\<lparr>f_disk := d2\<rparr>, Some e)
              | (d2, None) \<Rightarrow>
                  (case file_publish (s1\<lparr>f_disk := d2\<rparr>) gvk rv
                      \<lparr>ev_Type = EventDeleted, ev_Object = SetResourceVersion (FormatInt rv) stored\<rparr> obj of
                     (s2, _, e) \<Rightarrow> (s2, e))))))"

section \<open>Watch\<close>

definition file_Watch ::
  "scheme \<Rightarrow> FileStore \<Rightarrow> object_list \<Rightarrow> ListOption list \<Rightarrow> FileStore \<times> (error + watcher_id)" where
  "file_Watch sch s lst opts =
     (case file_gvkForList sch lst of
        Inl e \<Rightarrow> (s, Inl e)
      | Inr gvk \<Rightarrow>
          (case (case watchFrom opts None of
                   None \<Rightarrow> Inr []
                 | Some fromRevision \<Rightarrow> file_eventsSince s fromRevision gvk) of
             Inl e \<Rightarrow> (s, Inl e)
           | Inr replay0 \<Rightarrow>
               (let replay = mem_replayFilter (applyListOptions opts) replay0
                in case mem_preload (newFileWatcher gvk (watchBufSize replay)) replay of
                     None \<Rightarrow> (s, Inl (Panic ''all goroutines are asleep - deadlock!''))
                   | Some w \<Rightarrow>
                       (let i = f_nextWatcher s
                        in (s\<lparr>f_wheap := (f_wheap s)(i := w), f_nextWatcher := Suc i,
                              f_watchers := (f_watchers s)(gvk := f_watchers s gvk @ [i])\<rparr>, Inr i)))))"

section \<open>The event log contract\<close>

interpretation filelog: revision_log f_revision f_eventLog f_eventLogMax file_logEvent file_eventsSince
  by unfold_locales
    (auto simp: file_logEvent_def file_eventsSince_def last_n_def Let_def conj_commute)

end
