(* ===== verification/File_Disk.thy ===== *)
theory File_Disk
  imports File_Store
begin

text \<open>
  The layout of a store's directory: which files and directories it has, that keys and
  kinds with ordinary names get paths of their own, and what the calls of \<open>os\<close> do on such a disk
  when nothing fails.
\<close>

section \<open>Paths of objects\<close>

text \<open>Names that stand for themselves in a path, and are not the name that stands for the empty one.\<close>

definition gvk_ok :: "GroupVersionKind \<Rightarrow> bool" where
  "gvk_ok gvk \<longleftrightarrow>
     (Group gvk = [] \<or> valid_elem (Group gvk) \<and> Group gvk \<noteq> ''core'') \<and> valid_elem (Version gvk) \<and> valid_elem (Kind gvk)"

definition key_ok :: "ObjectKey \<Rightarrow> bool" where
  "key_ok key \<longleftrightarrow>
     (key_Namespace key = [] \<or> valid_elem (key_Namespace key) \<and> key_Namespace key \<noteq> ''_cluster'') \<and> valid_elem (key_Name key)"

definition group_elem :: "GroupVersionKind \<Rightarrow> string" where
  "group_elem gvk = (if Group gvk = [] then ''core'' else Group gvk)"

definition ns_elem :: "ObjectKey \<Rightarrow> string" where
  "ns_elem key = (if key_Namespace key = [] then ''_cluster'' else key_Namespace key)"

definition gvk_elems :: "GroupVersionKind \<Rightarrow> string list" where
  "gvk_elems gvk = [group_elem gvk, Version gvk, Kind gvk]"

definition key_elems :: "ObjectKey \<Rightarrow> string list" where
  "key_elems key = [ns_elem key, key_Name key @ ''.json'']"

lemma length_elems [simp]: "length (gvk_elems gvk) = 3" "length (key_elems key) = 2"
  by (simp_all add: gvk_elems_def key_elems_def)

lemma valid_elems:
  "gvk_ok gvk \<Longrightarrow> \<forall>e \<in> set (gvk_elems gvk). valid_elem e"
  "key_ok key \<Longrightarrow> \<forall>e \<in> set (key_elems key). valid_elem e"
  by (auto simp: gvk_ok_def key_ok_def gvk_elems_def key_elems_def group_elem_def ns_elem_def valid_elem_def)

lemma clean_path_append:
  "clean_path p \<Longrightarrow> \<forall>e \<in> set es. valid_elem e \<Longrightarrow> clean_path (fst p, snd p @ es)"
  using valid_elem_clean by (auto simp: clean_path_def)

lemma gvkDir_eq: "clean_path root \<Longrightarrow> gvk_ok gvk \<Longrightarrow> gvkDir root gvk = (fst root, snd root @ gvk_elems gvk)"
  using Join_valid [OF _ valid_elems(1)] by (simp add: gvkDir_def gvk_elems_def group_elem_def)

lemma objectPath_eq:
  assumes "clean_path root" and "gvk_ok gvk" and "key_ok key"
  shows "objectPath root gvk key = (fst root, snd root @ gvk_elems gvk @ key_elems key)"
  using Join_valid [OF clean_path_append [OF assms(1) valid_elems(1) [OF assms(2)]] valid_elems(2) [OF assms(3)]]
  by (simp add: objectPath_def gvkDir_eq [OF assms(1,2)] key_elems_def ns_elem_def Let_def)

lemma counterPath_eq:
  assumes "clean_path root"
  shows "revisionPath root = (fst root, snd root @ [''.revision''])" "uidPath root = (fst root, snd root @ [''.uid-counter''])"
  using assms
  by (simp_all add: revisionPath_def uidPath_def Join_def split_slash_plain clean_path_def
      clean_plain [of "snd root @ [''.revision'']"] clean_plain [of "snd root @ [''.uid-counter'']"])

lemma gvk_elems_inject: "gvk_ok a \<Longrightarrow> gvk_ok b \<Longrightarrow> gvk_elems a = gvk_elems b \<Longrightarrow> a = b"
  by (rule GroupVersionKind.equality)
    (auto simp: gvk_elems_def group_elem_def gvk_ok_def valid_elem_def split: if_splits)

lemma key_elems_inject: "key_ok a \<Longrightarrow> key_ok b \<Longrightarrow> key_elems a = key_elems b \<Longrightarrow> a = b"
  by (rule ObjectKey.equality)
    (auto simp: key_elems_def ns_elem_def key_ok_def valid_elem_def split: if_splits)

lemma objectPath_inject:
  assumes "clean_path root" and "gvk_ok a" and "key_ok k" and "gvk_ok b" and "key_ok l"
    and "objectPath root a k = objectPath root b l"
  shows "a = b \<and> k = l"
proof -
  have "gvk_elems a @ key_elems k = gvk_elems b @ key_elems l"
    using assms by (simp add: objectPath_eq)
  then have "gvk_elems a = gvk_elems b" "key_elems k = key_elems l" by simp_all
  then show ?thesis using assms gvk_elems_inject key_elems_inject by blast
qed

section \<open>Well-formed disks\<close>

definition object_path :: "path \<Rightarrow> path \<Rightarrow> bool" where
  "object_path root p \<longleftrightarrow> (\<exists>gvk key. gvk_ok gvk \<and> key_ok key \<and> p = objectPath root gvk key)"

definition disk_ok :: "path \<Rightarrow> disk \<Rightarrow> bool" where
  "disk_ok root d \<longleftrightarrow>
     clean_path root \<and> d_faults d = [] \<and> distinct (map fst (d_files d)) \<and>
     (\<forall>p \<in> keys_of (d_files d). p = revisionPath root \<or> p = uidPath root \<or> object_path root p) \<and>
     (\<forall>p \<in> set (d_dirs d). prefix (snd p) (snd root) \<or> (\<exists>q. object_path root q \<and> strict_prefix (snd p) (snd q))) \<and>
     (\<forall>p \<in> keys_of (d_files d). object_path root p \<longrightarrow> set (ancestors (Dir p)) \<subseteq> set (d_dirs d))"

lemma object_path_elems:
  assumes "clean_path root" and "object_path root p"
  obtains gvk key where "gvk_ok gvk" and "key_ok key" and "p = (fst root, snd root @ gvk_elems gvk @ key_elems key)"
proof -
  obtain gvk key where "gvk_ok gvk" "key_ok key" "p = objectPath root gvk key"
    using assms(2) unfolding object_path_def by blast
  with objectPath_eq [OF assms(1)] show thesis by (intro that) simp_all
qed

lemma object_path_length: "clean_path root \<Longrightarrow> object_path root p \<Longrightarrow> length (snd p) = length (snd root) + 5"
  by (erule (1) object_path_elems) simp

lemma file_not_dir:
  assumes "disk_ok root d" and "p = revisionPath root \<or> p = uidPath root \<or> object_path root p"
  shows "p \<notin> set (d_dirs d)"
proof
  assume p: "p \<in> set (d_dirs d)"
  have c: "clean_path root" using assms(1) by (simp add: disk_ok_def)
  have hd_ok: "hd (gvk_elems gvk) \<noteq> ''.revision'' \<and> hd (gvk_elems gvk) \<noteq> ''.uid-counter''" if "gvk_ok gvk" for gvk
    using valid_elems(1) [OF that] by (auto simp: gvk_elems_def valid_elem_def)
  from p assms(1) consider "prefix (snd p) (snd root)"
    | q where "object_path root q" "strict_prefix (snd p) (snd q)" by (auto simp: disk_ok_def)
  then show False
  proof cases
    case 1
    then have "length (snd p) \<le> length (snd root)" by (rule prefix_length_le)
    with assms(2) c show ?thesis by (auto simp: counterPath_eq dest: object_path_length)
  next
    case (2 q)
    then obtain gvk key where q: "gvk_ok gvk" "snd q = snd root @ gvk_elems gvk @ key_elems key"
      using c by (auto elim: object_path_elems)
    have "length (snd p) < length (snd root) + 5"
      using prefix_length_less [OF 2(2)] q by simp
    with assms(2) c have "p = revisionPath root \<or> p = uidPath root" by (auto dest: object_path_length)
    with c 2(2) q hd_ok [OF q(1)] show ?thesis
      by (auto simp: counterPath_eq gvk_elems_def strict_prefix_def prefix_def)
  qed
qed

lemma elem_not_counter: "gvk_ok gvk \<Longrightarrow> group_elem gvk \<noteq> ''.revision'' \<and> group_elem gvk \<noteq> ''.uid-counter''"
  using valid_elems(1) [of gvk] by (auto simp: gvk_elems_def valid_elem_def)

text \<open>No file lies on the way to an object's file, nor on the way to the root.\<close>

lemma take_not_counter:
  assumes "clean_path root" and "gvk_ok gvk" and "key_ok key"
  shows "(fst root, take n (snd (objectPath root gvk key))) \<noteq> revisionPath root"
    and "(fst root, take n (snd (objectPath root gvk key))) \<noteq> uidPath root"
proof -
  have ne: "take n (snd (objectPath root gvk key)) \<noteq> snd root @ [c]" if "c \<noteq> group_elem gvk" for c
  proof
    assume eq: "take n (snd (objectPath root gvk key)) = snd root @ [c]"
    have "snd (objectPath root gvk key) ! length (snd root) = group_elem gvk"
      by (simp add: objectPath_eq [OF assms] gvk_elems_def)
    moreover have "length (snd root) < n"
      using arg_cong [OF eq, of length] by (simp add: min_def split: if_splits)
    then have "take n (snd (objectPath root gvk key)) ! length (snd root) = snd (objectPath root gvk key) ! length (snd root)"
      by simp
    ultimately show False using eq that by simp
  qed
  show "(fst root, take n (snd (objectPath root gvk key))) \<noteq> revisionPath root"
      "(fst root, take n (snd (objectPath root gvk key))) \<noteq> uidPath root"
    using elem_not_counter [OF assms(2)] ne [of "''.revision''"] ne [of "''.uid-counter''"]
    by (auto simp: counterPath_eq [OF assms(1)])
qed

lemma file_at:
  assumes "disk_ok root d" and "map_of (d_files d) p \<noteq> None"
  shows "p = revisionPath root \<or> p = uidPath root \<or> object_path root p"
proof -
  have "p \<in> keys_of (d_files d)" using assms(2) by (simp add: map_of_eq_None_iff)
  with assms(1) show ?thesis unfolding disk_ok_def by blast
qed

lemma no_file_on_way:
  assumes "disk_ok root d" and "gvk_ok gvk" and "key_ok key" and "n < length (snd (objectPath root gvk key))"
  shows "map_of (d_files d) (fst root, take n (snd (objectPath root gvk key))) = None"
proof (rule ccontr)
  let ?p = "(fst root, take n (snd (objectPath root gvk key)))"
  have c: "clean_path root" using assms(1) by (simp add: disk_ok_def)
  assume "map_of (d_files d) ?p \<noteq> None"
  then have "object_path root ?p"
    using file_at [OF assms(1)] take_not_counter [OF c assms(2,3)] by blast
  then have "length (snd ?p) = length (snd root) + 5" by (rule object_path_length [OF c])
  with assms(4) show False by (simp add: objectPath_eq [OF c assms(2,3)])
qed

lemma no_file_on_root:
  assumes "disk_ok root d" and "n \<le> length (snd root)"
  shows "map_of (d_files d) (fst root, take n (snd root)) = None"
proof (rule ccontr)
  let ?p = "(fst root, take n (snd root))"
  have c: "clean_path root" using assms(1) by (simp add: disk_ok_def)
  assume "map_of (d_files d) ?p \<noteq> None"
  from file_at [OF assms(1) this] object_path_length [OF c, of ?p] assms(2)
  show False by (auto simp: counterPath_eq [OF c] dest: arg_cong [of _ _ length])
qed

section \<open>Calls that cannot fail\<close>

lemma next_fault_ok [simp]: "d_faults d = [] \<Longrightarrow> next_fault d = (d, None)"
  by (simp add: next_fault_def)

lemma disk_ok_faults: "disk_ok root d \<Longrightarrow> d_faults d = []"
  by (simp add: disk_ok_def)

lemma object_missing:
  assumes "disk_ok root d" and "gvk_ok gvk" and "key_ok key"
  shows "file_error d (objectPath root gvk key) = ErrNotExist"
proof -
  have c: "clean_path root" using assms(1) by (simp add: disk_ok_def)
  have "object_path root (objectPath root gvk key)" using assms(2,3) unfolding object_path_def by blast
  then have "objectPath root gvk key \<notin> set (d_dirs d)" using file_not_dir [OF assms(1)] by blast
  moreover have "clear_way d (objectPath root gvk key)"
    using no_file_on_way [OF assms] by (simp add: clear_way_def list_all_iff objectPath_eq [OF c assms(2,3)])
  ultimately show ?thesis by (simp add: file_error_def)
qed

lemma ReadFile_object:
  assumes "disk_ok root d" and "gvk_ok gvk" and "key_ok key"
  shows "os_ReadFile (objectPath root gvk key) d =
    (d, case map_of (d_files d) (objectPath root gvk key) of Some c \<Rightarrow> Inr c | None \<Rightarrow> Inl ErrNotExist)"
  using object_missing [OF assms] disk_ok_faults [OF assms(1)] by (simp add: os_ReadFile_def split: option.split)

lemma Stat_object:
  assumes "disk_ok root d" and "gvk_ok gvk" and "key_ok key"
  shows "os_Stat (objectPath root gvk key) d =
    (d, case map_of (d_files d) (objectPath root gvk key) of Some c \<Rightarrow> Inr () | None \<Rightarrow> Inl ErrNotExist)"
proof -
  have "object_path root (objectPath root gvk key)" using assms(2,3) unfolding object_path_def by blast
  then have "objectPath root gvk key \<notin> set (d_dirs d)" using file_not_dir [OF assms(1)] by blast
  with object_missing [OF assms] disk_ok_faults [OF assms(1)] show ?thesis
    by (simp add: os_Stat_def split: option.split)
qed

lemma set_ancestors: "q \<in> set (ancestors p) \<longleftrightarrow> (\<exists>n \<le> length (snd p). q = (fst p, take n (snd p)))"
  unfolding ancestors_def set_map set_upt by (auto simp: image_iff less_Suc_eq_le Bex_def)

lemma self_ancestors [simp]: "p \<in> set (ancestors p)"
  by (auto simp: set_ancestors intro!: exI [of _ "length (snd p)"])

lemma disk_ok_dirs:
  assumes "disk_ok root d"
    and "\<forall>q \<in> set qs. prefix (snd q) (snd root) \<or> (\<exists>o1. object_path root o1 \<and> strict_prefix (snd q) (snd o1))"
  shows "disk_ok root (d\<lparr>d_dirs := List.union qs (d_dirs d)\<rparr>)"
  using assms unfolding disk_ok_def by (simp add: ball_Un le_supI2)

lemma MkdirAll_object:
  assumes "disk_ok root d" and "gvk_ok gvk" and "key_ok key"
  defines "p \<equiv> objectPath root gvk key"
  obtains d' where "os_MkdirAll (Dir p) d = (d', Inr ())" and "disk_ok root d'" and "d_files d' = d_files d"
    and "set (ancestors (Dir p)) \<subseteq> set (d_dirs d')"
proof -
  let ?d = "d\<lparr>d_dirs := List.union (ancestors (Dir p)) (d_dirs d)\<rparr>"
  have c: "clean_path root" using assms(1) by (simp add: disk_ok_def)
  note p = objectPath_eq [OF c assms(2,3), folded p_def]
  have op: "object_path root p" using assms(2,3) unfolding object_path_def p_def by blast
  have pre: "\<exists>n < length (snd p). q = (fst root, take n (snd p))" if "q \<in> set (ancestors (Dir p))" for q
  proof -
    from that obtain n where n: "n \<le> length (snd (Dir p)) \<and> q = (fst (Dir p), take n (snd (Dir p)))"
      unfolding set_ancestors ..
    then have "n < length (snd p)" "q = (fst root, take n (snd p))"
      by (auto simp: Dir_def p butlast_conv_take min_def)
    then show ?thesis by blast
  qed
  have "map_of (d_files d) q = None" if "q \<in> set (ancestors (Dir p))" for q
  proof -
    from pre [OF that] obtain n where "n < length (snd p)" and "q = (fst root, take n (snd p))" by (elim exE conjE)
    then show ?thesis using no_file_on_way [OF assms(1-3), of n] by (simp add: p_def)
  qed
  then have "list_all (\<lambda>q. map_of (d_files d) q = None) (ancestors (Dir p))"
    by (simp add: list_all_iff)
  then have "os_MkdirAll (Dir p) d = (?d, Inr ())"
    using disk_ok_faults [OF assms(1)] by (simp add: os_MkdirAll_def)
  moreover have "strict_prefix (snd q) (snd p)" if "q \<in> set (ancestors (Dir p))" for q
    using pre [OF that] by (auto simp: strict_prefix_def take_is_prefix dest: arg_cong [of _ _ length])
  with op have "disk_ok root ?d" by (intro disk_ok_dirs [OF assms(1)]) blast
  ultimately show thesis by (intro that [of ?d]) auto
qed

lemma MkdirAll_root:
  assumes "disk_ok root d"
  obtains d' where "os_MkdirAll root d = (d', Inr ())" and "disk_ok root d'" and "d_files d' = d_files d"
    and "root \<in> set (d_dirs d')" and "set (d_dirs d) \<subseteq> set (d_dirs d')"
proof -
  let ?d = "d\<lparr>d_dirs := List.union (ancestors root) (d_dirs d)\<rparr>"
  have "list_all (\<lambda>q. map_of (d_files d) q = None) (ancestors root)"
    using no_file_on_root [OF assms] unfolding list_all_iff by (auto simp: set_ancestors)
  then have "os_MkdirAll root d = (?d, Inr ())"
    using disk_ok_faults [OF assms] by (simp add: os_MkdirAll_def)
  moreover have "prefix (snd q) (snd root)" if "q \<in> set (ancestors root)" for q
    using that by (auto simp: set_ancestors take_is_prefix)
  then have "disk_ok root ?d" by (intro disk_ok_dirs [OF assms]) blast
  ultimately show thesis by (intro that [of ?d]) auto
qed

lemma disk_ok_put:
  assumes "disk_ok root d" and "p = revisionPath root \<or> p = uidPath root \<or> object_path root p"
    and "object_path root p \<longrightarrow> set (ancestors (Dir p)) \<subseteq> set (d_dirs d)"
  shows "disk_ok root (d\<lparr>d_files := AList.update p c (d_files d)\<rparr>)"
proof -
  have "keys_of (AList.update p c (d_files d)) = insert p (keys_of (d_files d))"
    using dom_update [of p c "d_files d"] by (simp add: dom_map_of_conv_image_fst)
  with assms show ?thesis by (simp add: disk_ok_def)
qed

lemma WriteFile_ok:
  assumes "disk_ok root d" and "p = revisionPath root \<or> p = uidPath root \<or> object_path root p" and "Dir p \<in> set (d_dirs d)"
  shows "os_WriteFile p c d = (d\<lparr>d_files := AList.update p c (d_files d)\<rparr>, Inr ())"
  using assms(3) file_not_dir [OF assms(1,2)] disk_ok_faults [OF assms(1)] by (simp add: os_WriteFile_def)

lemma counter_not_object:
  assumes "clean_path root" and "p = revisionPath root \<or> p = uidPath root"
  shows "\<not> object_path root p" and "Dir p = root"
  using assms object_path_length [OF assms(1), of p] by (auto simp: counterPath_eq Dir_def)

lemma counters_differ: "clean_path root \<Longrightarrow> revisionPath root \<noteq> uidPath root"
  by (simp add: counterPath_eq)

lemma persistNumber_ok:
  assumes "disk_ok root d" and "p = revisionPath root \<or> p = uidPath root"
  obtains d' where "persistNumber root p n d = (d', None)" and "disk_ok root d'"
    and "d_files d' = AList.update p (Text (FormatInt n)) (d_files d)" and "set (d_dirs d) \<subseteq> set (d_dirs d')"
proof -
  have c: "clean_path root" using assms(1) by (simp add: disk_ok_def)
  obtain d1 where d1: "os_MkdirAll root d = (d1, Inr ())" "disk_ok root d1" "d_files d1 = d_files d"
      "root \<in> set (d_dirs d1)" "set (d_dirs d) \<subseteq> set (d_dirs d1)"
    using assms(1) by (rule MkdirAll_root)
  have w: "os_WriteFile p (Text (FormatInt n)) d1 = (d1\<lparr>d_files := AList.update p (Text (FormatInt n)) (d_files d1)\<rparr>, Inr ())"
    using assms(2) counter_not_object(2) [OF c assms(2)] d1(4) by (intro WriteFile_ok [OF d1(2)]) auto
  moreover have "disk_ok root (d1\<lparr>d_files := AList.update p (Text (FormatInt n)) (d_files d1)\<rparr>)"
    using assms(2) counter_not_object(1) [OF c assms(2)] by (intro disk_ok_put [OF d1(2)]) auto
  ultimately show thesis using d1
    by (intro that [of "d1\<lparr>d_files := AList.update p (Text (FormatInt n)) (d_files d1)\<rparr>"]) (simp_all add: persistNumber_def)
qed

lemma Remove_object:
  assumes "disk_ok root d" and "map_of (d_files d) p = Some c"
  shows "os_Remove p d = (d\<lparr>d_files := AList.delete p (d_files d)\<rparr>, Inr ())"
    and "disk_ok root (d\<lparr>d_files := AList.delete p (d_files d)\<rparr>)"
proof -
  show "os_Remove p d = (d\<lparr>d_files := AList.delete p (d_files d)\<rparr>, Inr ())"
    using assms disk_ok_faults [OF assms(1)] by (simp add: os_Remove_def)
  have "keys_of (AList.delete p (d_files d)) \<subseteq> keys_of (d_files d)" by (auto simp: AList.delete_eq)
  with assms(1) show "disk_ok root (d\<lparr>d_files := AList.delete p (d_files d)\<rparr>)"
    unfolding disk_ok_def by (auto 0 4)
qed

end
