(* ===== verification/Json_Types.thy ===== *)
theory Json_Types
  imports File_Store Memory_Props
begin

text \<open>
  A contract between a store that keeps objects as JSON documents and the Go types of those objects:
  the values that clients pass (\<open>good\<close>) are of registered types that emit all their top-level
  fields, and a document of one decodes to the value itself. The types of the conformance suite keep it.
\<close>

locale json_types =
  fixes sch :: scheme and good :: "object \<Rightarrow> bool"
  assumes good_kind: "good o1 \<Longrightarrow> \<exists>gvk z. mem_gvkForObject sch o1 = Inr gvk \<and> sch_New sch gvk = Inr (RObject z) \<and>
      GoType z = GoType o1 \<and> Meta z = emptyMeta \<and> ApiVersion z = [] \<and> TypeKind z = [] \<and> fmdom (Body z) = fmdom (Body o1)"
    and good_full: "good o1 \<Longrightarrow> full_doc sch o1"
    and good_fields: "good a \<Longrightarrow> good b \<Longrightarrow> GoType a = GoType b \<Longrightarrow> fmdom (Body a) = fmdom (Body b)"
    and good_mix: "good a \<Longrightarrow> good b \<Longrightarrow> GoType a = GoType b \<Longrightarrow> GoType c = GoType b \<Longrightarrow>
      (\<forall>k. fmlookup (Body c) k = (if k = ''status'' then GetStatus a else fmlookup (Body b) k)) \<Longrightarrow> good c"
    and good_decodes: "good o1 \<Longrightarrow> fmmap snd rb = Body o1 \<Longrightarrow> decodable sch (GoType o1) rb"
begin

lemma good_same: "good a \<Longrightarrow> GoType b = GoType a \<Longrightarrow> Body b = Body a \<Longrightarrow> good b"
  by (rule good_mix [of a a]) simp_all

lemma good_meta [simp]: "good (SetResourceVersion v a) = good a" "good (SetUID u a) = good a" "good (SetGeneration g a) = good a"
  by (rule iffI; erule good_same; simp)+

lemma fmmap_snd_Pair [simp]: "fmmap snd (fmmap (Pair l) m) = m"
  by (rule fmap_ext) (simp add: option.map_comp comp_def option.map_ident)

text \<open>What was written is what is read.\<close>

lemma load_written:
  assumes "good o1" and "mem_gvkForObject sch o1 = Inr gvk"
  shows "loadStored sch gvk (Doc (marshal l o1)) = Inr o1"
proof -
  obtain z where z: "sch_New sch gvk = Inr (RObject z)" "GoType z = GoType o1" "Meta z = emptyMeta"
      "ApiVersion z = []" "TypeKind z = []" "fmdom (Body z) = fmdom (Body o1)"
    using good_kind [OF assms(1)] assms(2) by auto
  have "decodable sch (GoType o1) (fmmap (Pair l) (Body o1))"
    by (rule good_decodes [OF assms(1)]) simp
  with z good_full [OF assms(1)] have "unmarshalInto sch (marshal l o1) z = Inr o1"
    by (intro unmarshalInto_fresh) simp_all
  then show ?thesis by (simp add: loadStored_def decodeFile_def z(1))
qed

lemma good_type:
  assumes "good a" and "mem_gvkForObject sch a = Inr gvk" and "good b" and "mem_gvkForObject sch b = Inr gvk"
  shows "GoType a = GoType b"
  using good_kind [OF assms(1)] good_kind [OF assms(3)] assms(2,4) by auto

lemma copy_decodes:
  assumes "good a" and "good b" and "GoType a = GoType b"
  obtains o1 where "unmarshalInto sch (marshal l a) b = Inr o1"
proof -
  have "decodable sch (GoType b) (rm_Body (marshal l a))"
    using good_decodes [OF assms(1), of "fmmap (Pair l) (Body a)"] assms(3) by simp
  then show thesis using unmarshalInto_decodable that by blast
qed

text \<open>The merges of \<open>Update\<close> and \<open>UpdateStatus\<close>.\<close>

lemma merge_decodes:
  assumes a: "good a" and b: "good b" and ty: "GoType a = GoType b" and d: "good d" "GoType d = GoType b"
    and rb: "\<forall>k. map_option snd (fmlookup (rm_Body rm) k) = (if k = ''status'' then GetStatus a else fmlookup (Body b) k)"
  obtains m where "unmarshalInto sch (compactMap rm) d = Inr m" and "good m" and "GoType m = GoType b"
    and "Meta m = meta_into (rm_Meta rm) (Meta d)"
    and "\<forall>k. fmlookup (Body m) k = (if k = ''status'' then GetStatus a else fmlookup (Body b) k)"
proof -
  define c where "c = b\<lparr>Body := fmmap snd (rm_Body rm)\<rparr>"
  have c: "fmlookup (Body c) k = (if k = ''status'' then GetStatus a else fmlookup (Body b) k)" for k
    using rb by (simp add: c_def)
  have "GoType c = GoType b" by (simp add: c_def)
  then have good_c: "good c" using c by (intro good_mix [OF a b ty]) simp_all
  have body: "fmmap snd (rm_Body (compactMap rm)) = Body c"
    by (rule fmap_ext) (simp add: compactMap_def c_def option.map_comp comp_def)
  then have "decodable sch (GoType d) (rm_Body (compactMap rm))"
    using good_decodes [OF good_c] d(2) \<open>GoType c = GoType b\<close> by simp
  then obtain m where m: "unmarshalInto sch (compactMap rm) d = Inr m"
    using unmarshalInto_decodable by blast
  have bm: "fmlookup (Body m) k = fmlookup (Body c) k" for k
  proof (cases "fmlookup (rm_Body rm) k")
    case None
    then have none: "fmlookup (Body c) k = None" by (simp add: c_def)
    have "fmdom (Body d) = fmdom (Body c)" using good_fields [OF d(1) good_c] d(2) \<open>GoType c = GoType b\<close> by simp
    then have "fmlookup (Body d) k = None" using none by (metis fmdom_notD fmdom_notI)
    then show ?thesis using unmarshalInto_Inr(3) [OF m, of k] None none by (simp add: compactMap_def)
  next
    case (Some r)
    then have j: "fmlookup (Body c) k = Some (snd r)" by (simp add: c_def)
    have "sch_unmarshal sch (GoType d) k (snd r) old = snd r" for old
      using good_full [OF good_c] j d(2) \<open>GoType c = GoType b\<close> by (simp add: full_doc_def)
    then show ?thesis using unmarshalInto_Inr(3) [OF m, of k] Some j by (simp add: compactMap_def)
  qed
  have ty_m: "GoType m = GoType b" using unmarshalInto_Inr(1) [OF m] d(2) by simp
  have fields: "\<forall>k. fmlookup (Body m) k = (if k = ''status'' then GetStatus a else fmlookup (Body b) k)"
    unfolding bm c by blast
  have "Meta m = meta_into (rm_Meta rm) (Meta d)"
    using unmarshalInto_Inr(2) [OF m] by (simp add: compactMap_def)
  then show thesis using m good_mix [OF a b ty ty_m fields] ty_m fields by (intro that)
qed

lemma merge_spec:
  assumes "good stored" and "good obj" and "GoType stored = GoType obj"
  obtains m where "unmarshalInto sch (compactMap (file_mergeSpec (marshal l stored) (marshal Compact obj))) obj = Inr m"
    and "good m" and "GoType m = GoType obj" and "Meta m = Meta obj"
    and "\<forall>k. fmlookup (Body m) k = (if k = ''status'' then GetStatus stored else fmlookup (Body obj) k)"
proof -
  let ?rm = "file_mergeSpec (marshal l stored) (marshal Compact obj)"
  have "\<forall>k. map_option snd (fmlookup (rm_Body ?rm) k) = (if k = ''status'' then GetStatus stored else fmlookup (Body obj) k)"
    by (simp add: file_mergeSpec_def option.map_comp comp_def option.map_ident split: option.split)
  from merge_decodes [OF assms assms(2) refl this] obtain m where m: "unmarshalInto sch (compactMap ?rm) obj = Inr m"
      "good m" "GoType m = GoType obj" "Meta m = meta_into (rm_Meta ?rm) (Meta obj)"
      "\<forall>k. fmlookup (Body m) k = (if k = ''status'' then GetStatus stored else fmlookup (Body obj) k)" .
  have "rm_Meta ?rm = Meta obj" by (simp add: file_mergeSpec_def)
  with m(4) have "Meta m = Meta obj" by simp
  with m show thesis by (intro that)
qed

lemma merge_status:
  assumes "good stored" and "good obj" and "GoType stored = GoType obj"
  obtains m where "unmarshalInto sch (compactMap (file_mergeStatus (marshal l stored) (marshal Compact obj))) obj = Inr m"
    and "good m" and "GoType m = GoType obj" and "Meta m = meta_into (Meta stored) (Meta obj)"
    and "\<forall>k. fmlookup (Body m) k = (if k = ''status'' then GetStatus obj else fmlookup (Body stored) k)"
proof -
  let ?rm = "file_mergeStatus (marshal l stored) (marshal Compact obj)"
  have "\<forall>k. map_option snd (fmlookup (rm_Body ?rm) k) = (if k = ''status'' then GetStatus obj else fmlookup (Body stored) k)"
    by (simp add: file_mergeStatus_def option.map_comp comp_def option.map_ident split: option.split)
  from merge_decodes [OF assms(2,1) assms(3) [symmetric] assms(2) assms(3) [symmetric] this] obtain m where m: "unmarshalInto sch (compactMap ?rm) obj = Inr m"
      "good m" "GoType m = GoType stored" "Meta m = meta_into (rm_Meta ?rm) (Meta obj)"
      "\<forall>k. fmlookup (Body m) k = (if k = ''status'' then GetStatus obj else fmlookup (Body stored) k)"
    using assms(3) by auto
  have "rm_Meta ?rm = Meta stored" by (simp add: file_mergeStatus_def)
  with m(4) have "Meta m = meta_into (Meta stored) (Meta obj)" by simp
  with m show thesis using assms(3) by (intro that) auto
qed

end

section \<open>The types of the conformance suite\<close>

definition is_testGadget :: "object \<Rightarrow> bool" where
  "is_testGadget o1 \<longleftrightarrow> GoType o1 = ''storetest.testGadget'' \<and> Body o1 = fmempty"

definition is_conformance :: "object \<Rightarrow> bool" where
  "is_conformance o1 \<longleftrightarrow> is_testWidget o1 \<or> is_testGadget o1"

lemma testWidget_body:
  assumes "is_testWidget o1"
  obtains c n r p where "Body o1 = fmap_of_list [(''spec'', testWidgetSpec c n), (''status'', testWidgetStatus r p)]"
  using assms by (auto simp: is_testWidget_def)

lemma conformance_decodes:
  assumes "is_conformance o1" and "fmmap snd rb = Body o1"
  shows "decodable testScheme (GoType o1) rb"
proof (cases "is_testWidget o1")
  case True
  then obtain c n r p where b: "Body o1 = fmap_of_list [(''spec'', testWidgetSpec c n), (''status'', testWidgetStatus r p)]"
    by (rule testWidget_body)
  have "fmlookup (fmmap snd rb) ''spec'' = Some (testWidgetSpec c n)"
      "fmlookup (fmmap snd rb) ''status'' = Some (testWidgetStatus r p)"
    unfolding assms(2) b by (simp_all add: fmlookup_of_list)
  then have "struct_ok specZeros (fmlookup rb ''spec'')" "struct_ok statusZeros (fmlookup rb ''status'')"
    by (auto simp: struct_ok_def specZeros_def statusZeros_def testWidgetSpec_def testWidgetStatus_def)
  then show ?thesis by (simp add: decodable_def testScheme_def)
next
  case False
  with assms(1) show ?thesis by (simp add: is_conformance_def is_testGadget_def decodable_def testScheme_def)
qed

interpretation conformance: json_types testScheme is_conformance
proof
  fix o1 assume o1: "is_conformance o1"
  show "\<exists>gvk z. mem_gvkForObject testScheme o1 = Inr gvk \<and> sch_New testScheme gvk = Inr (RObject z) \<and>
      GoType z = GoType o1 \<and> Meta z = emptyMeta \<and> ApiVersion z = [] \<and> TypeKind z = [] \<and> fmdom (Body z) = fmdom (Body o1)"
  proof (cases "is_testWidget o1")
    case True
    then have "sch_New testScheme widgetGVK = Inr (RObject zeroWidget)" "GoType zeroWidget = GoType o1"
        "fmdom (Body zeroWidget) = fmdom (Body o1)" "mem_gvkForObject testScheme o1 = Inr widgetGVK"
      by (auto simp: is_testWidget_def testScheme_def zeroWidget_def mem_gvkForObject_def)
    then show ?thesis by (auto simp: zeroWidget_def)
  next
    case False
    with o1 have "sch_New testScheme gadgetGVK = Inr (RObject zeroGadget)" "GoType zeroGadget = GoType o1"
        "Body zeroGadget = Body o1" "mem_gvkForObject testScheme o1 = Inr gadgetGVK"
      by (auto simp: is_conformance_def is_testGadget_def testScheme_def zeroGadget_def mem_gvkForObject_def widgetGVK_def gadgetGVK_def)
    then show ?thesis by (auto simp: zeroGadget_def)
  qed
  show "full_doc testScheme o1"
    using o1 testWidget_full_doc by (auto simp: is_conformance_def is_testGadget_def full_doc_def)
  show "decodable testScheme (GoType o1) rb" if "fmmap snd rb = Body o1" for rb
    using o1 that by (rule conformance_decodes)
next
  fix a b assume ab: "is_conformance a" "is_conformance b" "GoType a = GoType b"
  then show "fmdom (Body a) = fmdom (Body b)"
    by (auto simp: is_conformance_def is_testWidget_def is_testGadget_def)
  fix c :: object assume c: "GoType c = GoType b" "\<forall>k. fmlookup (Body c) k = (if k = ''status'' then GetStatus a else fmlookup (Body b) k)"
  show "is_conformance c"
  proof (cases "is_testWidget b")
    case True
    then have "is_testWidget a" using ab by (auto simp: is_conformance_def is_testWidget_def is_testGadget_def)
    then obtain ca na ra pa where a: "Body a = fmap_of_list [(''spec'', testWidgetSpec ca na), (''status'', testWidgetStatus ra pa)]"
      by (rule testWidget_body)
    obtain cb nb rb pb where b: "Body b = fmap_of_list [(''spec'', testWidgetSpec cb nb), (''status'', testWidgetStatus rb pb)]"
      using True by (rule testWidget_body)
    have "Body c = fmap_of_list [(''spec'', testWidgetSpec cb nb), (''status'', testWidgetStatus ra pa)]"
      by (rule fmap_ext) (auto simp: c(2) a b fmlookup_of_list)
    with True c(1) show ?thesis by (auto simp: is_conformance_def is_testWidget_def)
  next
    case False
    then have g: "GoType b = ''storetest.testGadget''" "Body b = fmempty" "Body a = fmempty"
      using ab by (auto simp: is_conformance_def is_testWidget_def is_testGadget_def)
    then have "Body c = fmempty" by (intro fmap_ext) (simp add: c(2))
    with g c(1) show ?thesis by (simp add: is_conformance_def is_testGadget_def)
  qed
qed

end
