(* ===== verification/File_Refine.thy ===== *)
theory File_Refine
  imports File_Disk Json_Types
begin

text \<open>
  The filesystem store refines the memory store: \<open>file_abs\<close> is the memory store that holds what the
  files say, and on a disk that does not fail every method but \<open>Update\<close> does to it what the method
  of the memory store does. \<open>Update\<close> differs in the generation, and is one committed mutation too.
\<close>

section \<open>The abstraction\<close>

text \<open>The object of a kind that a file holds, if it is at that object's own place.\<close>

definition file_entry :: "scheme \<Rightarrow> path \<Rightarrow> GroupVersionKind \<Rightarrow> path \<times> content \<Rightarrow> (ObjectKey \<times> object) option" where
  "file_entry sch root gvk pc =
     (case loadStored sch gvk (snd pc) of
        Inl _ \<Rightarrow> None
      | Inr o1 \<Rightarrow>
          if gvk_ok gvk \<and> key_ok (ObjectKeyFromObject o1) \<and> fst pc = objectPath root gvk (ObjectKeyFromObject o1)
          then Some (ObjectKeyFromObject o1, o1) else None)"

definition file_objects :: "scheme \<Rightarrow> path \<Rightarrow> (path, content) gomap \<Rightarrow> GroupVersionKind \<Rightarrow> (ObjectKey, object) gomap" where
  "file_objects sch root files gvk = List.map_filter (file_entry sch root gvk) files"

definition file_abs :: "scheme \<Rightarrow> FileStore \<Rightarrow> MemoryStore" where
  "file_abs sch s =
     \<lparr>objects = (\<lambda>gvk. Some (file_objects sch (f_root s) (d_files (f_disk s)) gvk)), watchers = f_watchers s,
      uidCounter = f_uidCounter s, revision = f_revision s, eventLog = f_eventLog s, eventLogMax = f_eventLogMax s,
      wheap = f_wheap s, nextWatcher = f_nextWatcher s\<rparr>"

lemma file_abs_simps [simp]:
  "objects (file_abs sch s) gvk = Some (file_objects sch (f_root s) (d_files (f_disk s)) gvk)"
  "watchers (file_abs sch s) = f_watchers s" "uidCounter (file_abs sch s) = f_uidCounter s"
  "revision (file_abs sch s) = f_revision s" "eventLog (file_abs sch s) = f_eventLog s"
  "eventLogMax (file_abs sch s) = f_eventLogMax s" "wheap (file_abs sch s) = f_wheap s"
  "nextWatcher (file_abs sch s) = f_nextWatcher s"
  by (simp_all add: file_abs_def)

lemma same_disk [simp]: "s\<lparr>f_disk := f_disk s\<rparr> = s"
  by (cases s) simp

lemma file_abs_view: "mem_view (file_abs sch s) gvk = map_of (file_objects sch (f_root s) (d_files (f_disk s)) gvk)"
  by (simp add: mem_view_def)

section \<open>The invariant\<close>

definition file_doc_ok :: "scheme \<Rightarrow> (object \<Rightarrow> bool) \<Rightarrow> path \<Rightarrow> path \<Rightarrow> content \<Rightarrow> bool" where
  "file_doc_ok sch good root p c \<longleftrightarrow>
     (\<exists>gvk o1. c = Doc (marshal Indented o1) \<and> good o1 \<and> mem_gvkForObject sch o1 = Inr gvk \<and> gvk_ok gvk \<and>
        key_ok (ObjectKeyFromObject o1) \<and> p = objectPath root gvk (ObjectKeyFromObject o1))"

definition counter_ok :: "(path, content) gomap \<Rightarrow> path \<Rightarrow> int \<Rightarrow> bool" where
  "counter_ok files p n \<longleftrightarrow>
     is_int64 n \<and> (map_of files p = Some (Text (FormatInt n)) \<or> map_of files p = None \<and> n = 0)"

definition files_ok :: "scheme \<Rightarrow> (object \<Rightarrow> bool) \<Rightarrow> path \<Rightarrow> (path, content) gomap \<Rightarrow> int \<Rightarrow> int \<Rightarrow> bool" where
  "files_ok sch good root files rv uid \<longleftrightarrow>
     (\<forall>p c. map_of files p = Some c \<longrightarrow> object_path root p \<longrightarrow> file_doc_ok sch good root p c) \<and>
     counter_ok files (revisionPath root) rv \<and> counter_ok files (uidPath root) uid"

definition file_inv :: "scheme \<Rightarrow> (object \<Rightarrow> bool) \<Rightarrow> FileStore \<Rightarrow> bool" where
  "file_inv sch good s \<longleftrightarrow>
     disk_ok (f_root s) (f_disk s) \<and>
     files_ok sch good (f_root s) (d_files (f_disk s)) (f_revision s) (f_uidCounter s) \<and>
     mem_inv sch (file_abs sch s)"

text \<open>The objects and kinds that have files of their own.\<close>

definition file_arg_ok :: "scheme \<Rightarrow> (object \<Rightarrow> bool) \<Rightarrow> object \<Rightarrow> bool" where
  "file_arg_ok sch good obj \<longleftrightarrow>
     good obj \<and> key_ok (ObjectKeyFromObject obj) \<and> (\<forall>gvk. mem_gvkForObject sch obj = Inr gvk \<longrightarrow> gvk_ok gvk)"

section \<open>Entries of association lists\<close>

lemma map_filter_skip:
  assumes "f (p, c) = None" and "\<forall>c0. (p, c0) \<in> set m \<longrightarrow> f (p, c0) = None"
  shows "List.map_filter f (AList.update p c m) = List.map_filter f m"
    and "List.map_filter f (AList.delete p m) = List.map_filter f m"
  using assms by (induction m) (auto simp: map_filter_simps AList.delete_eq split: option.split)

definition entry_at :: "('a \<times> 'b \<Rightarrow> ('k \<times> 'v) option) \<Rightarrow> 'a \<Rightarrow> 'k \<Rightarrow> 'a \<times> 'b \<Rightarrow> bool" where
  "entry_at f p k qc \<longleftrightarrow> (case f qc of None \<Rightarrow> fst qc \<noteq> p | Some kv \<Rightarrow> fst kv = k \<longleftrightarrow> fst qc = p)"

lemma map_filter_update:
  assumes "f (p, c) = Some (k, v)" and "\<forall>qc \<in> set m. entry_at f p k qc"
  shows "List.map_filter f (AList.update p c m) = AList.update k v (List.map_filter f m)"
  using assms(2)
proof (induction m)
  case Nil
  then show ?case by (simp add: map_filter_simps assms(1))
next
  case (Cons qc m)
  obtain q c0 where qc: "qc = (q, c0)" by (cases qc)
  from Cons.prems have "entry_at f p k (q, c0)" by (simp add: qc)
  with Cons show ?case
    by (cases "f (q, c0)") (auto simp: qc entry_at_def map_filter_simps assms(1))
qed

lemma map_filter_delete:
  assumes "\<forall>qc \<in> set m. entry_at f p k qc"
  shows "List.map_filter f (AList.delete p m) = AList.delete k (List.map_filter f m)"
  using assms
proof (induction m)
  case Nil
  then show ?case by (simp add: map_filter_simps)
next
  case (Cons qc m)
  obtain q c0 where qc: "qc = (q, c0)" by (cases qc)
  from Cons.prems have "entry_at f p k (q, c0)" by (simp add: qc)
  with Cons show ?case
    by (cases "f (q, c0)") (auto simp: qc entry_at_def map_filter_simps AList.delete_eq)
qed

lemma in_map_filter: "y \<in> set (List.map_filter f xs) \<longleftrightarrow> (\<exists>x \<in> set xs. f x = Some y)"
  by (induction xs) (auto simp: map_filter_simps split: option.split)

section \<open>What the entries are\<close>

lemma file_gvk [simp]: "file_gvkForObject = mem_gvkForObject" "file_gvkForList = mem_gvkForList"
  by (simp_all add: fun_eq_iff file_gvkForObject_def mem_gvkForObject_def file_gvkForList_def mem_gvkForList_def)

lemma entry_Text [simp]: "file_entry sch root gvk (p, Text t) = None"
  by (simp add: file_entry_def loadStored_def decodeFile_def split: sum.split runtime_object.split)

context json_types
begin

lemma entry_doc:
  assumes root: "clean_path root" and o1: "good o1" "mem_gvkForObject sch o1 = Inr g" "gvk_ok g" "key_ok (ObjectKeyFromObject o1)"
  shows "file_entry sch root gvk (objectPath root g (ObjectKeyFromObject o1), Doc (marshal Indented o1)) =
    (if gvk = g then Some (ObjectKeyFromObject o1, o1) else None)"
proof (cases "gvk = g")
  case True
  with o1 load_written [OF o1(1,2)] show ?thesis by (simp add: file_entry_def)
next
  case False
  with objectPath_inject [OF root _ _ o1(3,4)] show ?thesis
    by (auto simp: file_entry_def split: sum.split)
qed

lemma entry_cases:
  assumes "disk_ok root d" and "files_ok sch good root (d_files d) rv uid" and "(p, c) \<in> set (d_files d)"
  obtains (counter) t where "c = Text t" and "p = revisionPath root \<or> p = uidPath root"
  | (doc) g o1 where "c = Doc (marshal Indented o1)" and "good o1" and "mem_gvkForObject sch o1 = Inr g" and "gvk_ok g"
      and "key_ok (ObjectKeyFromObject o1)" and "p = objectPath root g (ObjectKeyFromObject o1)"
proof -
  have "distinct (map fst (d_files d))" using assms(1) by (simp add: disk_ok_def)
  then have m: "map_of (d_files d) p = Some c" using assms(3) by simp
  then consider "p = revisionPath root \<or> p = uidPath root" | "object_path root p"
    using file_at [OF assms(1), of p] by auto
  then show thesis
  proof cases
    case 1
    with m assms(2) have "\<exists>t. c = Text t" by (auto simp: files_ok_def counter_ok_def)
    with 1 show ?thesis using counter by blast
  next
    case 2
    with m assms(2) have "file_doc_ok sch good root p c" unfolding files_ok_def by blast
    then show ?thesis using doc by (auto simp: file_doc_ok_def)
  qed
qed

text \<open>A file says something about a kind and a key exactly when it is at their path.\<close>

lemma entry_path:
  assumes "disk_ok root d" and "files_ok sch good root (d_files d) rv uid" and "(p, c) \<in> set (d_files d)"
    and "gvk_ok gvk" and "key_ok key"
  shows "entry_at (file_entry sch root gvk) (objectPath root gvk key) key (p, c)"
proof -
  have root: "clean_path root" using assms(1) by (simp add: disk_ok_def)
  show ?thesis
    using assms(1-3)
  proof (cases rule: entry_cases)
    case (counter t)
    moreover have "object_path root (objectPath root gvk key)" using assms(4,5) unfolding object_path_def by blast
    ultimately show ?thesis using counter_not_object(1) [OF root counter(2)] by (auto simp: entry_at_def)
  next
    case (doc g o1)
    have "p = objectPath root gvk key \<longleftrightarrow> g = gvk \<and> ObjectKeyFromObject o1 = key"
      using objectPath_inject [OF root doc(4,5) assms(4,5)] unfolding doc(6) by blast
    then show ?thesis unfolding doc(1) by (auto simp: entry_at_def doc(6) entry_doc [OF root doc(2-5)])
  qed
qed

lemma entry_other:
  assumes "disk_ok root d" and "files_ok sch good root (d_files d) rv uid" and "(p, c) \<in> set (d_files d)"
    and "p = objectPath root gvk key" and "gvk_ok gvk" and "key_ok key" and "g \<noteq> gvk"
  shows "file_entry sch root g (p, c) = None"
proof -
  have root: "clean_path root" using assms(1) by (simp add: disk_ok_def)
  show ?thesis
    using assms(1-3)
  proof (cases rule: entry_cases)
    case (counter t)
    then show ?thesis by simp
  next
    case (doc h o1)
    have "h = gvk"
      using objectPath_inject [OF root doc(4,5) assms(5,6) trans [OF sym [OF doc(6)] assms(4)]] ..
    with assms(7) entry_doc [OF root doc(2-5), of g] show ?thesis unfolding doc(1) doc(6) by simp
  qed
qed

lemma file_lookup:
  assumes "file_inv sch good s" and "gvk_ok gvk" and "key_ok key"
  obtains (absent) "map_of (d_files (f_disk s)) (objectPath (f_root s) gvk key) = None" and "mem_view (file_abs sch s) gvk key = None"
  | (present) o1 where "map_of (d_files (f_disk s)) (objectPath (f_root s) gvk key) = Some (Doc (marshal Indented o1))"
      and "good o1" and "mem_gvkForObject sch o1 = Inr gvk" and "ObjectKeyFromObject o1 = key"
      and "mem_view (file_abs sch s) gvk key = Some o1"
proof -
  let ?root = "f_root s" and ?files = "d_files (f_disk s)"
  have d: "disk_ok ?root (f_disk s)" "files_ok sch good ?root ?files (f_revision s) (f_uidCounter s)"
    and inv: "mem_inv sch (file_abs sch s)"
    using assms(1) by (simp_all add: file_inv_def)
  have root: "clean_path ?root" and dist: "distinct (map fst ?files)" using d(1) by (simp_all add: disk_ok_def)
  have dm: "distinct (map fst (file_objects sch ?root ?files gvk))"
    using inv by (auto simp: mem_inv_def mem_map_ok_def)
  show thesis
  proof (cases "map_of ?files (objectPath ?root gvk key)")
    case None
    have "key \<notin> keys_of (file_objects sch ?root ?files gvk)"
    proof
      assume "key \<in> keys_of (file_objects sch ?root ?files gvk)"
      then obtain o1 where "(key, o1) \<in> set (file_objects sch ?root ?files gvk)" by auto
      then obtain pc where e: "pc \<in> set ?files" "file_entry sch ?root gvk pc = Some (key, o1)"
        unfolding file_objects_def in_map_filter by blast
      with entry_path [OF d _ assms(2,3), of "fst pc" "snd pc"] have "fst pc = objectPath ?root gvk key"
        by (simp add: entry_at_def)
      then have "objectPath ?root gvk key \<in> keys_of ?files" using e(1) by (metis imageI)
      with None show False by (simp only: map_of_eq_None_iff) simp
    qed
    with None show ?thesis by (intro absent) (simp_all add: file_abs_view map_of_fresh)
  next
    case (Some c)
    then have c: "(objectPath ?root gvk key, c) \<in> set ?files" by (rule map_of_SomeD)
    have "object_path ?root (objectPath ?root gvk key)" using assms(2,3) unfolding object_path_def by blast
    then have "file_doc_ok sch good ?root (objectPath ?root gvk key) c"
      using Some d(2) unfolding files_ok_def by blast
    then obtain g o1 where o1: "c = Doc (marshal Indented o1)" "good o1" "mem_gvkForObject sch o1 = Inr g" "gvk_ok g"
        "key_ok (ObjectKeyFromObject o1)" "objectPath ?root gvk key = objectPath ?root g (ObjectKeyFromObject o1)"
      by (auto simp: file_doc_ok_def)
    with objectPath_inject [OF root assms(2,3) o1(4,5,6)] have g: "g = gvk" "ObjectKeyFromObject o1 = key" by simp_all
    have "file_entry sch ?root gvk (objectPath ?root gvk key, c) = Some (key, o1)"
      using entry_doc [OF root o1(2-5), of gvk] by (simp add: o1(1) g)
    then have "(key, o1) \<in> set (file_objects sch ?root ?files gvk)"
      using c unfolding file_objects_def in_map_filter by blast
    with dm have "mem_view (file_abs sch s) gvk key = Some o1" by (simp add: file_abs_view)
    then show ?thesis using Some o1(1-3) g(2) unfolding g(1) by (intro present) simp_all
  qed
qed

end

end
