(* ===== verification/File_Write.thy ===== *)
theory File_Write
  imports File_Refine
begin

text \<open>
  The methods of the filesystem store on a disk that does not fail: what they do to the files, and
  the memory store's method that they amount to.
\<close>

section \<open>Publishing an event\<close>

lemma filew_eq [simp]: "filew_send = memw_send" "filew_isStopped = memw_isStopped" "filew_Recv = memw_Recv"
    "newFileWatcher = newMemoryWatcher"
  by (simp_all add: fun_eq_iff filew_send_def memw_send_def filew_isStopped_def memw_isStopped_def
      filew_Recv_def memw_Recv_def newFileWatcher_def newMemoryWatcher_def)

lemma file_notifyLoop_eq [simp]: "file_notifyLoop is e h a = mem_notifyLoop is e h a"
  by (induction "is" arbitrary: h a) simp_all

lemma abs_emit: "mem_emit (file_abs sch s) gvk rv e = map_option (file_abs sch) (file_emit s gvk rv e)"
  by (simp add: mem_emit_def file_emit_def mem_logEvent_def file_logEvent_def mem_notifyWatchers_def
      file_notifyWatchers_def file_abs_def Let_def)

lemma emit_frame:
  assumes "file_emit s gvk rv e = Some s'"
  shows "f_root s' = f_root s" "f_disk s' = f_disk s" "f_revision s' = f_revision s" "f_uidCounter s' = f_uidCounter s"
  using assms by (auto simp: file_emit_def file_logEvent_def file_notifyWatchers_def Let_def split: if_splits)

lemma file_publish_ok:
  assumes "disk_ok (f_root s) (f_disk s)" and "files_ok sch good (f_root s) (d_files (f_disk s)) (f_revision s) (f_uidCounter s)"
    and "mem_emit (file_abs sch s) gvk rv e = Some m" and "mem_inv sch m"
  obtains s' where "file_publish s gvk rv e obj = (s', obj, None)" and "file_abs sch s' = m" and "file_inv sch good s'"
proof -
  obtain s' where s': "file_emit s gvk rv e = Some s'" "file_abs sch s' = m"
    using assms(3) by (auto simp: abs_emit)
  have "file_inv sch good s'"
    unfolding file_inv_def emit_frame [OF s'(1)] s'(2) using assms by blast
  with s' show thesis by (intro that) (simp_all add: file_publish_def)
qed

section \<open>Documents\<close>

lemma compact_doc: "fmmap (\<lambda>r. (Compact, snd r)) (fmmap (Pair l) b) = fmmap (Pair Compact) b"
  by (rule fmap_ext) (simp add: option.map_comp comp_def)

lemma compact_merge:
  "compactMap (file_mergeSpec (marshal l stored) (marshal Compact obj)) = mem_mergeSpec (marshal Compact stored) (marshal Compact obj)"
  "compactMap (file_mergeStatus (marshal l stored) (marshal Compact obj)) = mem_mergeStatus (marshal Compact stored) (marshal Compact obj)"
  by (simp_all add: marshal_def compactMap_def file_mergeSpec_def mem_mergeSpec_def file_mergeStatus_def mem_mergeStatus_def
      fmmap_fmupd compact_doc split: option.split)

lemma marshal_eq_iff:
  "marshal l a = marshal l b \<longleftrightarrow> ApiVersion a = ApiVersion b \<and> TypeKind a = TypeKind b \<and> Meta a = Meta b \<and> Body a = Body b"
  by (auto simp: marshal_def dest: fmmap_Pair_inject)

lemma unmarshal_layout:
  assumes "decodable sch (GoType obj) (fmmap (Pair l) (Body src))" and "decodable sch (GoType obj) (fmmap (Pair l') (Body src))"
  shows "unmarshalInto sch (marshal l src) obj = unmarshalInto sch (marshal l' src) obj"
proof -
  have "fmmap_keys (\<lambda>k r. sch_unmarshal sch ty k (snd r) (f k)) (fmmap (Pair l) b) =
      fmmap_keys (\<lambda>k r. sch_unmarshal sch ty k (snd r) (f k)) (fmmap (Pair l') b)" for ty f b
    by (rule fmap_ext) (simp add: option.map_comp comp_def)
  with assms show ?thesis by (simp add: unmarshalInto_def marshal_def decodable_def)
qed

section \<open>Files after a write\<close>

lemma file_objects_frame:
  assumes "\<And>gvk. List.map_filter (file_entry sch root gvk) files' = List.map_filter (file_entry sch root gvk) files"
  shows "file_objects sch root files' = file_objects sch root files"
  using assms by (simp add: file_objects_def fun_eq_iff)

context json_types
begin

lemma objects_counter:
  assumes "disk_ok root d" and "files_ok sch good root (d_files d) rv uid" and "p = revisionPath root \<or> p = uidPath root"
  shows "file_objects sch root (AList.update p (Text t) (d_files d)) = file_objects sch root (d_files d)"
proof (rule file_objects_frame, rule map_filter_skip)
  fix gvk
  have root: "clean_path root" using assms(1) by (simp add: disk_ok_def)
  show "\<forall>c0. (p, c0) \<in> set (d_files d) \<longrightarrow> file_entry sch root gvk (p, c0) = None"
  proof (intro allI impI)
    fix c0 assume "(p, c0) \<in> set (d_files d)"
    with assms(1,2) show "file_entry sch root gvk (p, c0) = None"
    proof (cases rule: entry_cases)
      case (doc g o1)
      then have "object_path root p" unfolding object_path_def by blast
      with counter_not_object(1) [OF root assms(3)] show ?thesis by blast
    qed simp
  qed
qed simp

lemma files_ok_counter:
  assumes "clean_path root" and "files_ok sch good root files rv uid" and "is_int64 n"
  shows "files_ok sch good root (AList.update (revisionPath root) (Text (FormatInt n)) files) n uid"
    and "files_ok sch good root (AList.update (uidPath root) (Text (FormatInt n)) files) rv n"
proof -
  have no: "\<not> object_path root (revisionPath root)" "\<not> object_path root (uidPath root)"
    using counter_not_object(1) [OF assms(1)] by blast+
  have docs: "\<forall>p c. map_of files p = Some c \<longrightarrow> object_path root p \<longrightarrow> file_doc_ok sch good root p c"
    and cs: "counter_ok files (revisionPath root) rv" "counter_ok files (uidPath root) uid"
    using assms(2) unfolding files_ok_def by blast+
  show "files_ok sch good root (AList.update (revisionPath root) (Text (FormatInt n)) files) n uid"
    unfolding files_ok_def
    using docs cs no assms(3) counters_differ [OF assms(1)] by (auto simp: counter_ok_def simp del: split_paired_All)
  show "files_ok sch good root (AList.update (uidPath root) (Text (FormatInt n)) files) rv n"
    unfolding files_ok_def
    using docs cs no assms(3) counters_differ [OF assms(1)] by (auto simp: counter_ok_def simp del: split_paired_All)
qed

lemma files_ok_put:
  assumes "clean_path root" and "files_ok sch good root files rv uid" and "object_path root p" and "file_doc_ok sch good root p c"
  shows "files_ok sch good root (AList.update p c files) rv uid"
proof -
  have no: "p \<noteq> revisionPath root" "p \<noteq> uidPath root"
    using counter_not_object(1) [OF assms(1)] assms(3) by blast+
  have docs: "\<forall>p c. map_of files p = Some c \<longrightarrow> object_path root p \<longrightarrow> file_doc_ok sch good root p c"
    and cs: "counter_ok files (revisionPath root) rv" "counter_ok files (uidPath root) uid"
    using assms(2) unfolding files_ok_def by blast+
  show ?thesis
    unfolding files_ok_def using docs cs no assms(4) by (auto simp: counter_ok_def simp del: split_paired_All)
qed

lemma files_ok_delete:
  assumes "clean_path root" and "files_ok sch good root files rv uid" and "object_path root p"
  shows "files_ok sch good root (AList.delete p files) rv uid"
proof -
  have no: "p \<noteq> revisionPath root" "p \<noteq> uidPath root"
    using counter_not_object(1) [OF assms(1)] assms(3) by blast+
  have docs: "\<forall>p c. map_of files p = Some c \<longrightarrow> object_path root p \<longrightarrow> file_doc_ok sch good root p c"
    and cs: "counter_ok files (revisionPath root) rv" "counter_ok files (uidPath root) uid"
    using assms(2) unfolding files_ok_def by blast+
  show ?thesis
    unfolding files_ok_def using docs cs no by (auto simp: counter_ok_def simp del: split_paired_All)
qed

text \<open>The files of the other kinds say what they said.\<close>

lemma objects_put:
  assumes d: "disk_ok root d" "files_ok sch good root (d_files d) rv uid"
    and o1: "good o1" "mem_gvkForObject sch o1 = Inr gvk" "gvk_ok gvk" "key_ok (ObjectKeyFromObject o1)"
  shows "file_objects sch root (AList.update (objectPath root gvk (ObjectKeyFromObject o1)) (Doc (marshal Indented o1)) (d_files d)) =
    (file_objects sch root (d_files d))(gvk := AList.update (ObjectKeyFromObject o1) o1 (file_objects sch root (d_files d) gvk))"
proof
  fix g
  let ?p = "objectPath root gvk (ObjectKeyFromObject o1)" and ?c = "Doc (marshal Indented o1)"
  have root: "clean_path root" using d(1) by (simp add: disk_ok_def)
  note entry = entry_doc [OF root o1]
  show "file_objects sch root (AList.update ?p ?c (d_files d)) g =
    ((file_objects sch root (d_files d))(gvk := AList.update (ObjectKeyFromObject o1) o1 (file_objects sch root (d_files d) gvk))) g"
  proof (cases "g = gvk")
    case True
    have "\<forall>qc \<in> set (d_files d). entry_at (file_entry sch root gvk) ?p (ObjectKeyFromObject o1) qc"
    proof
      fix qc assume "qc \<in> set (d_files d)"
      then show "entry_at (file_entry sch root gvk) ?p (ObjectKeyFromObject o1) qc"
        using entry_path [OF d _ o1(3,4), of "fst qc" "snd qc"] by simp
    qed
    with map_filter_update [of "file_entry sch root gvk" ?p ?c "ObjectKeyFromObject o1" o1 "d_files d"] True entry [of gvk] show ?thesis
      by (simp add: file_objects_def)
  next
    case False
    have "\<forall>c0. (?p, c0) \<in> set (d_files d) \<longrightarrow> file_entry sch root g (?p, c0) = None"
      using entry_other [OF d _ refl o1(3,4) False] by blast
    with map_filter_skip(1) [of "file_entry sch root g" ?p ?c "d_files d"] False entry [of g] show ?thesis
      by (simp add: file_objects_def)
  qed
qed

lemma objects_delete:
  assumes d: "disk_ok root d" "files_ok sch good root (d_files d) rv uid" and "gvk_ok gvk" and "key_ok key"
  shows "file_objects sch root (AList.delete (objectPath root gvk key) (d_files d)) =
    (file_objects sch root (d_files d))(gvk := AList.delete key (file_objects sch root (d_files d) gvk))"
proof
  fix g
  let ?p = "objectPath root gvk key"
  show "file_objects sch root (AList.delete ?p (d_files d)) g =
    ((file_objects sch root (d_files d))(gvk := AList.delete key (file_objects sch root (d_files d) gvk))) g"
  proof (cases "g = gvk")
    case True
    have "\<forall>qc \<in> set (d_files d). entry_at (file_entry sch root gvk) ?p key qc"
    proof
      fix qc assume "qc \<in> set (d_files d)"
      then show "entry_at (file_entry sch root gvk) ?p key qc"
        using entry_path [OF d _ assms(3,4), of "fst qc" "snd qc"] by simp
    qed
    with map_filter_delete [of "d_files d" "file_entry sch root gvk" ?p key] True show ?thesis
      by (simp add: file_objects_def)
  next
    case False
    have "\<forall>c0. (?p, c0) \<in> set (d_files d) \<longrightarrow> file_entry sch root g (?p, c0) = None"
      using entry_other [OF d _ refl assms(3,4) False] by blast
    with False show ?thesis
      using map_filter_skip(2) [of "file_entry sch root g" ?p "Text []" "d_files d"] by (simp add: file_objects_def)
  qed
qed

end

end
