(* ===== verification/File_Sim.thy ===== *)
theory File_Sim
  imports File_Write
begin

text \<open>
  The simulation: each method of the filesystem store, on a disk that does not fail, keeps
  the invariant and is the memory store's method on the abstraction.
\<close>

text \<open>
  The generation after \<open>Update\<close>: the bytes of the stored spec, cut from an indented document, are
  compared with the bytes of a compact one.
\<close>

definition file_nextGeneration :: "object \<Rightarrow> object \<Rightarrow> int" where
  "file_nextGeneration stored obj =
     (if bytes_Equal (map_option (Pair Indented) (GetSpec stored)) (map_option (Pair Compact) (GetSpec obj))
      then GetGeneration stored else add64 (GetGeneration stored) 1)"

context json_types
begin

section \<open>Arguments and stored objects\<close>

lemma good_gvk:
  assumes "file_arg_ok sch good obj"
  obtains gvk where "mem_gvkForObject sch obj = Inr gvk" and "gvk_ok gvk" and "good obj" and "key_ok (ObjectKeyFromObject obj)"
  using good_kind [of obj] assms by (auto simp: file_arg_ok_def)

lemma self_copy: "good o1 \<Longrightarrow> unmarshalInto sch (marshal l o1) o1 = Inr o1"
  by (rule unmarshalInto_marshal_self [OF good_full good_decodes]) simp_all

lemma good_layout:
  assumes "good a" and "GoType a = GoType obj"
  shows "unmarshalInto sch (marshal l a) obj = unmarshalInto sch (marshal l' a) obj"
  using good_decodes [OF assms(1), of "fmmap (Pair l) (Body a)"] good_decodes [OF assms(1), of "fmmap (Pair l') (Body a)"]
    assms(2) by (intro unmarshal_layout) simp_all

text \<open>\<open>os.WriteFile\<close> of the document, then \<open>persistRevision\<close>.\<close>

lemma file_save_ok:
  assumes d: "disk_ok (f_root s) d" "files_ok sch good (f_root s) (d_files d) rv0 uid"
    and o1: "good o1" "mem_gvkForObject sch o1 = Inr gvk" "gvk_ok gvk" "key_ok (ObjectKeyFromObject o1)" and rv: "is_int64 rv"
  defines "p \<equiv> objectPath (f_root s) gvk (ObjectKeyFromObject o1)"
  assumes dirs: "set (ancestors (Dir p)) \<subseteq> set (d_dirs d)"
  obtains d' where "file_save s p o1 rv d = (d', None)" and "disk_ok (f_root s) d'"
    and "files_ok sch good (f_root s) (d_files d') rv uid"
    and "file_objects sch (f_root s) (d_files d') = (file_objects sch (f_root s) (d_files d))
      (gvk := AList.update (ObjectKeyFromObject o1) o1 (file_objects sch (f_root s) (d_files d) gvk))"
proof -
  let ?root = "f_root s" and ?c = "Doc (marshal Indented o1)"
  let ?d1 = "d\<lparr>d_files := AList.update p ?c (d_files d)\<rparr>"
  have root: "clean_path ?root" using d(1) by (simp add: disk_ok_def)
  have op: "object_path ?root p" using o1(3,4) unfolding object_path_def p_def by blast
  have doc: "file_doc_ok sch good ?root p ?c" using o1 unfolding file_doc_ok_def p_def by blast
  have "Dir p \<in> set (d_dirs d)" using dirs self_ancestors [of "Dir p"] by blast
  with op have w: "os_WriteFile p ?c d = (?d1, Inr ())" by (intro WriteFile_ok [OF d(1)]) simp_all
  have d1: "disk_ok ?root ?d1" using op dirs by (intro disk_ok_put [OF d(1)]) simp_all
  have f1: "files_ok sch good ?root (d_files ?d1) rv0 uid" using files_ok_put [OF root d(2) op doc] by simp
  obtain d' where d': "persistNumber ?root (revisionPath ?root) rv ?d1 = (d', None)" "disk_ok ?root d'"
      "d_files d' = AList.update (revisionPath ?root) (Text (FormatInt rv)) (d_files ?d1)"
    using persistNumber_ok [OF d1, of "revisionPath ?root" rv] by blast
  have "files_ok sch good ?root (d_files d') rv uid"
    unfolding d'(3) by (rule files_ok_counter(1) [OF root f1 rv])
  moreover have "file_objects sch ?root (d_files d') = (file_objects sch ?root (d_files d))
      (gvk := AList.update (ObjectKeyFromObject o1) o1 (file_objects sch ?root (d_files d) gvk))"
    unfolding d'(3) objects_counter [OF d1 f1 disjI1 [OF refl]] using objects_put [OF d o1] by (simp add: p_def)
  ultimately show thesis
    using d' w by (intro that [of d']) (simp_all add: file_save_def file_persistRevision_def)
qed

lemma file_save_root: "f_root a = f_root b \<Longrightarrow> file_save a = file_save b"
  by (simp add: fun_eq_iff file_save_def file_persistRevision_def)

section \<open>Create\<close>

lemma generateUID_ok:
  assumes "file_inv sch good s"
  obtains s' uid where "(if GetUID obj = [] then file_generateUID s else (s, Inr (GetUID obj))) = (s', Inr uid)"
    and "(if GetUID obj = [] then mem_generateUID (file_abs sch s) else (file_abs sch s, GetUID obj)) = (file_abs sch s', uid)"
    and "disk_ok (f_root s) (f_disk s')"
    and "files_ok sch good (f_root s) (d_files (f_disk s')) (f_revision s) (f_uidCounter s')"
    and "s' = s\<lparr>f_disk := f_disk s', f_uidCounter := f_uidCounter s'\<rparr>"
    and "file_abs sch s' = (file_abs sch s)\<lparr>uidCounter := f_uidCounter s'\<rparr>"
    and "file_objects sch (f_root s) (d_files (f_disk s')) = file_objects sch (f_root s) (d_files (f_disk s))"
proof (cases "GetUID obj = []")
  case True
  let ?root = "f_root s" and ?n = "add64 (f_uidCounter s) 1"
  have d: "disk_ok ?root (f_disk s)" "files_ok sch good ?root (d_files (f_disk s)) (f_revision s) (f_uidCounter s)"
    using assms by (simp_all add: file_inv_def)
  have root: "clean_path ?root" using d(1) by (simp add: disk_ok_def)
  obtain d' where d': "persistNumber ?root (uidPath ?root) ?n (f_disk s) = (d', None)" "disk_ok ?root d'"
      "d_files d' = AList.update (uidPath ?root) (Text (FormatInt ?n)) (d_files (f_disk s))"
    using persistNumber_ok [OF d(1), of "uidPath ?root" ?n] by blast
  have "files_ok sch good ?root (d_files d') (f_revision s) ?n"
    unfolding d'(3) by (rule files_ok_counter(2) [OF root d(2)]) simp
  moreover have obs: "file_objects sch ?root (d_files d') = file_objects sch ?root (d_files (f_disk s))"
    unfolding d'(3) by (rule objects_counter [OF d]) simp
  moreover have "file_abs sch (s\<lparr>f_disk := d', f_uidCounter := ?n\<rparr>) = (file_abs sch s)\<lparr>uidCounter := ?n\<rparr>"
    using obs by (simp add: file_abs_def)
  ultimately show thesis
    using True d' by (intro that [of "s\<lparr>f_disk := d', f_uidCounter := ?n\<rparr>" "''uid-'' @ FormatInt ?n"])
      (simp_all add: file_generateUID_def mem_generateUID_def Let_def)
next
  case False
  with assms show thesis by (intro that [of s "GetUID obj"]) (simp_all add: file_inv_def file_abs_def)
qed

lemma file_Create_exists:
  assumes "file_inv sch good s" and "file_arg_ok sch good obj" and gvk: "mem_gvkForObject sch obj = Inr gvk"
    and "mem_view (file_abs sch s) gvk (ObjectKeyFromObject obj) \<noteq> None"
  shows "file_Create sch s obj = (s, obj, Some (AlreadyExistsError (ObjectKey_String (ObjectKeyFromObject obj))))"
proof -
  have ok: "gvk_ok gvk" "key_ok (ObjectKeyFromObject obj)" using assms(2) gvk by (simp_all add: file_arg_ok_def)
  have d: "disk_ok (f_root s) (f_disk s)" using assms(1) by (simp add: file_inv_def)
  obtain o1 where "map_of (d_files (f_disk s)) (objectPath (f_root s) gvk (ObjectKeyFromObject obj)) = Some (Doc (marshal Indented o1))"
    using assms(1) ok assms(4) by (cases rule: file_lookup) simp_all
  with gvk Stat_object [OF d ok] show ?thesis by (simp add: file_Create_def Let_def)
qed

text \<open>The store after a write that is not yet published.\<close>

lemma file_put_commit:
  assumes inv: "file_inv sch good s" and bound: "f_revision s < MaxInt64"
    and s1: "disk_ok (f_root s) d" "files_ok sch good (f_root s) (d_files d) (f_revision s + 1) uid"
      "file_objects sch (f_root s) (d_files d) = (file_objects sch (f_root s) (d_files (f_disk s)))
        (gvk := AList.update key o1 (file_objects sch (f_root s) (d_files (f_disk s)) gvk))"
    and o1: "ObjectKeyFromObject o1 = key" "mem_gvkForObject sch o1 = Inr gvk" "GetResourceVersion o1 = FormatInt (f_revision s + 1)"
    and e: "e = \<lparr>ev_Type = EventAdded, ev_Object = o1\<rparr> \<and> mem_view (file_abs sch s) gvk key = None \<or>
        e = \<lparr>ev_Type = EventModified, ev_Object = o1\<rparr> \<and> mem_view (file_abs sch s) gvk key \<noteq> None"
  obtains s' where "\<And>obj. file_publish (s\<lparr>f_disk := d, f_revision := f_revision s + 1, f_uidCounter := uid\<rparr>) gvk (f_revision s + 1) e obj = (s', obj, None)"
    and "file_inv sch good s'" and "mem_commit (file_abs sch s) (file_abs sch s') gvk e"
    and "mem_emit ((file_abs sch s)\<lparr>uidCounter := uid, revision := f_revision s + 1,
        objects := (objects (file_abs sch s))(gvk \<mapsto> AList.update key o1 (file_objects sch (f_root s) (d_files (f_disk s)) gvk))\<rparr>)
        gvk (f_revision s + 1) e = Some (file_abs sch s')"
proof -
  let ?s1 = "s\<lparr>f_disk := d, f_revision := f_revision s + 1, f_uidCounter := uid\<rparr>"
  let ?m = "file_objects sch (f_root s) (d_files (f_disk s)) gvk"
  let ?m1 = "(file_abs sch s)\<lparr>uidCounter := uid, revision := f_revision s + 1,
      objects := (objects (file_abs sch s))(gvk \<mapsto> AList.update key o1 ?m)\<rparr>"
  have minv: "mem_inv sch (file_abs sch s)" using inv by (simp add: file_inv_def)
  have abs: "file_abs sch ?s1 = ?m1" using s1(3) by (simp add: file_abs_def fun_eq_iff)
  have ok: "mem_map_ok sch (revision (file_abs sch s)) gvk ?m" using minv by (simp add: mem_inv_def)
  have bound': "revision (file_abs sch s) < MaxInt64" using bound by simp
  obtain m2 where m2: "mem_emit ?m1 gvk (revision (file_abs sch s) + 1) e = Some m2" "mem_inv sch m2" "mem_commit (file_abs sch s) m2 gvk e"
    by (rule mem_put_commit [OF minv bound' _ _ _ _ _ _ _ file_abs_view ok, of ?m1 key o1 e])
      (use o1 e in \<open>simp_all add: file_abs_view\<close>)
  have emit: "mem_emit (file_abs sch ?s1) gvk (f_revision s + 1) e = Some m2" using m2(1) abs by simp
  then obtain s' where s': "file_emit ?s1 gvk (f_revision s + 1) e = Some s'" "file_abs sch s' = m2"
    by (auto simp: abs_emit)
  have "file_inv sch good s'"
    unfolding file_inv_def emit_frame [OF s'(1)] s'(2) using s1(1,2) m2(2) by simp
  with s' m2 show thesis by (intro that [of s']) (simp_all add: file_publish_def)
qed

lemma file_Create_absent:
  assumes inv: "file_inv sch good s" and bound: "f_revision s < MaxInt64" and arg: "file_arg_ok sch good obj"
    and gvk: "mem_gvkForObject sch obj = Inr gvk" and absent: "mem_view (file_abs sch s) gvk (ObjectKeyFromObject obj) = None"
  obtains s' o1 where "file_Create sch s obj = (s', o1, None)" and "file_inv sch good s'"
    and "mem_Create sch (file_abs sch s) obj = (file_abs sch s', o1, None)"
proof -
  let ?key = "ObjectKeyFromObject obj" and ?root = "f_root s" and ?rv = "f_revision s + 1"
  let ?p = "objectPath ?root gvk ?key"
  have ok: "gvk_ok gvk" "key_ok ?key" "good obj" using arg gvk by (simp_all add: file_arg_ok_def)
  have d: "disk_ok ?root (f_disk s)" and minv: "mem_inv sch (file_abs sch s)" using inv by (simp_all add: file_inv_def)
  have nofile: "map_of (d_files (f_disk s)) ?p = None"
    using inv ok(1,2) absent by (cases rule: file_lookup) simp_all
  have rv: "add64 (f_revision s) 1 = ?rv" "is_int64 ?rv"
    using mem_revision_bounds [OF minv] bound by (simp_all add: add64_Suc is_int64_def MinInt64_def)
  obtain s2 uid where u: "(if GetUID obj = [] then file_generateUID s else (s, Inr (GetUID obj))) = (s2, Inr uid)"
      "(if GetUID obj = [] then mem_generateUID (file_abs sch s) else (file_abs sch s, GetUID obj)) = (file_abs sch s2, uid)"
      "disk_ok ?root (f_disk s2)" "files_ok sch good ?root (d_files (f_disk s2)) (f_revision s) (f_uidCounter s2)"
      "s2 = s\<lparr>f_disk := f_disk s2, f_uidCounter := f_uidCounter s2\<rparr>"
      "file_abs sch s2 = (file_abs sch s)\<lparr>uidCounter := f_uidCounter s2\<rparr>"
      "file_objects sch ?root (d_files (f_disk s2)) = file_objects sch ?root (d_files (f_disk s))"
    using inv by (rule generateUID_ok)
  define o1 where "o1 = SetGeneration 1 (SetResourceVersion (FormatInt ?rv) (SetUID uid obj))"
  have o1: "good o1" "mem_gvkForObject sch o1 = Inr gvk" "ObjectKeyFromObject o1 = ?key" "GetResourceVersion o1 = FormatInt ?rv"
    using ok(3) gvk mem_gvkForObject_GoType [of o1 obj] by (simp_all add: o1_def)
  obtain d3 where d3: "os_MkdirAll (Dir ?p) (f_disk s2) = (d3, Inr ())" "disk_ok ?root d3" "d_files d3 = d_files (f_disk s2)"
      "set (ancestors (Dir ?p)) \<subseteq> set (d_dirs d3)"
    using u(3) ok(1,2) by (rule MkdirAll_object)
  obtain d4 where d4: "file_save s ?p o1 ?rv d3 = (d4, None)" "disk_ok ?root d4" "files_ok sch good ?root (d_files d4) ?rv (f_uidCounter s2)"
      "file_objects sch ?root (d_files d4) = (file_objects sch ?root (d_files (f_disk s)))
        (gvk := AList.update ?key o1 (file_objects sch ?root (d_files (f_disk s)) gvk))"
    using file_save_ok [OF d3(2), of "f_revision s" "f_uidCounter s2" o1 gvk ?rv] o1 ok(1,2) rv(2) d3(3,4) u(4,7) by auto
  let ?e = "\<lparr>ev_Type = EventAdded, ev_Object = o1\<rparr>"
  obtain s' where s': "\<And>obj. file_publish (s\<lparr>f_disk := d4, f_revision := ?rv, f_uidCounter := f_uidCounter s2\<rparr>) gvk ?rv ?e obj = (s', obj, None)"
      "file_inv sch good s'" "mem_commit (file_abs sch s) (file_abs sch s') gvk ?e"
      "mem_emit ((file_abs sch s)\<lparr>uidCounter := f_uidCounter s2, revision := ?rv,
        objects := (objects (file_abs sch s))(gvk \<mapsto> AList.update ?key o1 (file_objects sch ?root (d_files (f_disk s)) gvk))\<rparr>)
        gvk ?rv ?e = Some (file_abs sch s')"
    by (rule file_put_commit [OF inv bound d4(2-4) o1(3,2,4), of ?e]) (use absent in simp_all)
  have s2: "f_root s2 = ?root" "f_revision s2 = f_revision s"
    "s2\<lparr>f_revision := ?rv, f_disk := d4\<rparr> = s\<lparr>f_disk := d4, f_revision := ?rv, f_uidCounter := f_uidCounter s2\<rparr>"
    by (subst u(5); simp)+
  have "file_Create sch s obj = (s', o1, None)"
    using gvk nofile Stat_object [OF d ok(1,2)] u(1) d3(1) s2 rv(1) s'(1) d4(1) file_save_root [of "s2\<lparr>f_revision := ?rv\<rparr>" s]
    by (simp add: file_Create_def Let_def o1_def cong: if_cong split del: if_split)
  moreover have "mem_Create sch (file_abs sch s) obj = (file_abs sch s', o1, None)"
  proof -
    let ?m = "file_objects sch ?root (d_files (f_disk s)) gvk"
    have "SetResourceVersion (FormatInt ?rv) (SetGeneration 1 (SetUID uid obj)) = o1"
      by (simp add: o1_def setter_defs)
    moreover have "(file_abs sch s)\<lparr>objects := (objects (file_abs sch s))(gvk \<mapsto> ?m)\<rparr> = file_abs sch s"
      by (simp add: file_abs_def fun_eq_iff)
    moreover have "map_of ?m ?key = None" using absent by (simp add: file_abs_view)
    ultimately show ?thesis
      using gvk u(2,6) s'(4) rv(1) self_copy [OF o1(1), of Compact]
      by (simp add: mem_Create_def Let_def mem_copyBack_def mem_copyObject_def cong: if_cong split del: if_split)
  qed
  ultimately show thesis using s'(2) that by blast
qed

section \<open>Update and UpdateStatus\<close>

lemma stored_dirs:
  assumes "disk_ok root d" and "map_of (d_files d) p = Some c" and "object_path root p"
  shows "set (ancestors (Dir p)) \<subseteq> set (d_dirs d)"
proof -
  have "p \<in> keys_of (d_files d)" using map_of_SomeD [OF assms(2)] by (metis fst_conv imageI)
  with assms(1,3) show ?thesis unfolding disk_ok_def by blast
qed

lemma file_open_ok:
  assumes inv: "file_inv sch good s" and ok: "gvk_ok gvk" "key_ok (ObjectKeyFromObject obj)"
  shows "file_open sch s gvk obj = (f_disk s,
    case mem_view (file_abs sch s) gvk (ObjectKeyFromObject obj) of
      None \<Rightarrow> Inl (NotFoundError (ObjectKey_String (ObjectKeyFromObject obj)))
    | Some stored \<Rightarrow>
        if GetResourceVersion obj \<noteq> GetResourceVersion stored then Inl (ConflictError (ObjectKey_String (ObjectKeyFromObject obj)))
        else Inr (marshal Indented stored, stored))"
proof -
  have d: "disk_ok (f_root s) (f_disk s)" using inv by (simp add: file_inv_def)
  show ?thesis
    using inv ok
  proof (cases rule: file_lookup)
    case absent
    then show ?thesis by (simp add: file_open_def ReadFile_object [OF d ok])
  next
    case (present o1)
    with load_written [OF present(2,3)] show ?thesis by (simp add: file_open_def ReadFile_object [OF d ok])
  qed
qed

lemma file_finish_ok:
  assumes inv: "file_inv sch good s" and bound: "f_revision s < MaxInt64" and arg: "file_arg_ok sch good obj"
    and gvk: "mem_gvkForObject sch obj = Inr gvk" and stored: "mem_view (file_abs sch s) gvk (ObjectKeyFromObject obj) = Some stored"
    and m: "good m" "GoType m = GoType obj" "ObjectKeyFromObject m = ObjectKeyFromObject obj"
  defines "new \<equiv> SetResourceVersion (FormatInt (f_revision s + 1)) m"
  obtains s' o2 where "file_finish sch s gvk m obj = (s', o2, None)" and "file_inv sch good s'"
    and "mem_commit (file_abs sch s) (file_abs sch s') gvk \<lparr>ev_Type = EventModified, ev_Object = new\<rparr>"
    and "unmarshalInto sch (marshal Compact new) obj = Inr o2"
    and "mem_emit ((file_abs sch s)\<lparr>revision := f_revision s + 1,
        objects := (objects (file_abs sch s))(gvk \<mapsto> AList.update (ObjectKeyFromObject obj) new (file_objects sch (f_root s) (d_files (f_disk s)) gvk))\<rparr>)
        gvk (f_revision s + 1) \<lparr>ev_Type = EventModified, ev_Object = new\<rparr> = Some (file_abs sch s')"
proof -
  let ?key = "ObjectKeyFromObject obj" and ?root = "f_root s" and ?rv = "f_revision s + 1"
  let ?p = "objectPath ?root gvk ?key" and ?e = "\<lparr>ev_Type = EventModified, ev_Object = new\<rparr>"
  have ok: "gvk_ok gvk" "key_ok ?key" "good obj" using arg gvk by (simp_all add: file_arg_ok_def)
  have d: "disk_ok ?root (f_disk s)" "files_ok sch good ?root (d_files (f_disk s)) (f_revision s) (f_uidCounter s)"
    and minv: "mem_inv sch (file_abs sch s)" using inv by (simp_all add: file_inv_def)
  obtain o0 where o0: "map_of (d_files (f_disk s)) ?p = Some (Doc (marshal Indented o0))"
    using inv ok(1,2) stored by (cases rule: file_lookup) simp_all
  have rv: "add64 (f_revision s) 1 = ?rv" "is_int64 ?rv"
    using mem_revision_bounds [OF minv] bound by (simp_all add: add64_Suc is_int64_def MinInt64_def)
  have new: "good new" "mem_gvkForObject sch new = Inr gvk" "ObjectKeyFromObject new = ?key" "GetResourceVersion new = FormatInt ?rv"
    using m gvk mem_gvkForObject_GoType [of new obj] by (simp_all add: new_def)
  have op: "object_path ?root ?p" using ok(1,2) unfolding object_path_def by blast
  obtain d4 where d4: "file_save s ?p new ?rv (f_disk s) = (d4, None)" "disk_ok ?root d4"
      "files_ok sch good ?root (d_files d4) ?rv (f_uidCounter s)"
      "file_objects sch ?root (d_files d4) = (file_objects sch ?root (d_files (f_disk s)))
        (gvk := AList.update ?key new (file_objects sch ?root (d_files (f_disk s)) gvk))"
    using file_save_ok [OF d new(1,2) ok(1) _ rv(2)] new(3) ok(2) stored_dirs [OF d(1) o0 op] by auto
  obtain s' where s': "\<And>obj. file_publish (s\<lparr>f_disk := d4, f_revision := ?rv, f_uidCounter := f_uidCounter s\<rparr>) gvk ?rv ?e obj = (s', obj, None)"
      "file_inv sch good s'" "mem_commit (file_abs sch s) (file_abs sch s') gvk ?e"
      "mem_emit ((file_abs sch s)\<lparr>uidCounter := f_uidCounter s, revision := ?rv,
        objects := (objects (file_abs sch s))(gvk \<mapsto> AList.update ?key new (file_objects sch ?root (d_files (f_disk s)) gvk))\<rparr>)
        gvk ?rv ?e = Some (file_abs sch s')"
    by (rule file_put_commit [OF inv bound d4(2-4) new(3,2,4), of ?e]) (use stored in simp_all)
  have ty: "GoType new = GoType obj" using m(2) by (simp add: new_def)
  obtain o2 where o2: "unmarshalInto sch (marshal Compact new) obj = Inr o2"
    using new(1) ok(3) ty by (rule copy_decodes)
  have "unmarshalInto sch (marshal Indented new) obj = Inr o2"
    using o2 good_layout [OF new(1) ty, of Indented Compact] by simp
  moreover have "s\<lparr>f_disk := d4, f_revision := ?rv, f_uidCounter := f_uidCounter s\<rparr> = s\<lparr>f_revision := ?rv, f_disk := d4\<rparr>"
    by (cases s) simp
  then have "file_publish (s\<lparr>f_revision := ?rv, f_disk := d4\<rparr>) gvk ?rv ?e o2 = (s', o2, None)"
    using s'(1) [of o2] by (simp only:)
  ultimately have "file_finish sch s gvk m obj = (s', o2, None)"
    using rv(1) d4(1) file_save_root [of "s\<lparr>f_revision := ?rv\<rparr>" s] by (simp add: file_finish_def Let_def new_def)
  moreover have same: "(file_abs sch s)\<lparr>uidCounter := f_uidCounter s, revision := ?rv,
        objects := (objects (file_abs sch s))(gvk \<mapsto> AList.update ?key new (file_objects sch ?root (d_files (f_disk s)) gvk))\<rparr> =
      (file_abs sch s)\<lparr>revision := ?rv,
        objects := (objects (file_abs sch s))(gvk \<mapsto> AList.update ?key new (file_objects sch ?root (d_files (f_disk s)) gvk))\<rparr>"
    by (simp add: file_abs_def)
  ultimately show thesis using s'(2,3) s'(4) [unfolded same] o2 by (intro that [of s' o2])
qed

lemma copyBack_same:
  assumes "good stored" and "good obj" and "GoType stored = GoType obj"
  obtains o1 where "unmarshalInto sch (marshal Indented stored) obj = Inr o1" and "mem_copyBack sch s stored obj = (s, o1, None)"
proof -
  obtain o1 where "unmarshalInto sch (marshal Compact stored) obj = Inr o1" using assms by (rule copy_decodes)
  with good_layout [OF assms(1,3), of Indented Compact] show thesis
    by (intro that [of o1]) (simp_all add: mem_copyBack_def mem_copyObject_def)
qed

lemma noop_check:
  assumes "GetUID m = GetUID stored" and "GetResourceVersion m = GetResourceVersion stored"
  shows "marshal Indented m = marshal Indented stored \<longleftrightarrow> mem_contentEqual stored m"
proof -
  have "SetUID (GetUID stored) (SetResourceVersion (GetResourceVersion stored) m) = m"
    using assms by (simp add: setter_defs)
  then show ?thesis by (auto simp: mem_contentEqual_def marshal_eq_iff Let_def)
qed

lemma file_UpdateStatus_refines:
  assumes inv: "file_inv sch good s" and bound: "f_revision s < MaxInt64" and arg: "file_arg_ok sch good obj"
  obtains s' o1 e where "file_UpdateStatus sch s obj = (s', o1, e)" and "file_inv sch good s'"
    and "mem_UpdateStatus sch (file_abs sch s) obj = (file_abs sch s', o1, e)"
proof -
  let ?key = "ObjectKeyFromObject obj" and ?m = "\<lambda>gvk. file_objects sch (f_root s) (d_files (f_disk s)) gvk"
  obtain gvk where gvk: "mem_gvkForObject sch obj = Inr gvk" "gvk_ok gvk" "good obj" "key_ok ?key"
    using arg by (rule good_gvk)
  note open_ok = file_open_ok [OF inv gvk(2,4)]
  show thesis
    using inv gvk(2,4)
  proof (cases rule: file_lookup)
    case absent
    with inv gvk open_ok show ?thesis
      by (intro that) (simp_all add: file_UpdateStatus_def mem_UpdateStatus_def file_abs_view)
  next
    case (present stored)
    note view = present(5) [unfolded file_abs_view]
    show ?thesis
    proof (cases "GetResourceVersion obj = GetResourceVersion stored")
      case False
      with inv gvk open_ok present(5) view show ?thesis
        by (intro that) (simp_all add: file_UpdateStatus_def mem_UpdateStatus_def)
    next
      case True
      have ty: "GoType stored = GoType obj" by (rule good_type [OF present(2,3) gvk(3,1)])
      obtain m0 where m0: "unmarshalInto sch (mem_mergeStatus (marshal Compact stored) (marshal Compact obj)) obj = Inr m0"
          "good m0" "GoType m0 = GoType obj" "Meta m0 = meta_into (Meta stored) (Meta obj)"
        using merge_status [OF present(2) gvk(3) ty, of Compact] unfolding compact_merge by metis
      define m1 where "m1 = SetGeneration (GetGeneration stored) (SetUID (GetUID stored) (SetResourceVersion (GetResourceVersion stored) m0))"
      have key: "ObjectKeyFromObject m1 = ?key"
        using key_of_meta_into [OF m0(4)] present(4) by (simp add: m1_def)
      have noop: "marshal Indented m1 = marshal Indented stored \<longleftrightarrow> mem_contentEqual stored m1"
        by (rule noop_check) (simp_all add: m1_def)
      show ?thesis
      proof (cases "mem_contentEqual stored m1")
        case same: True
        obtain o1 where "unmarshalInto sch (marshal Indented stored) obj = Inr o1"
            "mem_copyBack sch (file_abs sch s) stored obj = (file_abs sch s, o1, None)"
          using present(2) gvk(3) ty by (rule copyBack_same)
        with inv gvk open_ok present(5) view True m0(1) noop same show ?thesis
          by (intro that [of s o1 None])
            (simp_all add: file_UpdateStatus_def mem_UpdateStatus_def compact_merge Let_def m1_def)
      next
        case diff: False
        let ?new = "SetResourceVersion (FormatInt (f_revision s + 1)) m1"
        have m1: "good m1" "GoType m1 = GoType obj" using m0(2,3) by (simp_all add: m1_def)
        obtain s' o2 where s': "file_finish sch s gvk m1 obj = (s', o2, None)" "file_inv sch good s'"
            "unmarshalInto sch (marshal Compact ?new) obj = Inr o2"
            "mem_emit ((file_abs sch s)\<lparr>revision := f_revision s + 1,
              objects := (objects (file_abs sch s))(gvk \<mapsto> AList.update ?key ?new (?m gvk))\<rparr>)
              gvk (f_revision s + 1) \<lparr>ev_Type = EventModified, ev_Object = ?new\<rparr> = Some (file_abs sch s')"
          using file_finish_ok [OF inv bound arg gvk(1) present(5) m1 key] by metis
        have rv: "add64 (f_revision s) 1 = f_revision s + 1"
          using inv bound mem_rv_next [of sch "file_abs sch s"] by (simp add: file_inv_def)
        with s' inv gvk open_ok present(5) view True m0(1) noop diff show ?thesis
          by (intro that [of s' o2 None])
            (simp_all add: file_UpdateStatus_def mem_UpdateStatus_def compact_merge Let_def m1_def mem_copyBack_def mem_copyObject_def)
      qed
    qed
  qed
qed

lemma file_Update_error:
  assumes inv: "file_inv sch good s" and arg: "file_arg_ok sch good obj" and gvk: "mem_gvkForObject sch obj = Inr gvk"
    and "\<not> (\<exists>stored. mem_view (file_abs sch s) gvk (ObjectKeyFromObject obj) = Some stored \<and> GetResourceVersion obj = GetResourceVersion stored)"
  obtains e where "file_Update sch s obj = (s, obj, Some e)" and "mem_Update sch (file_abs sch s) obj = (file_abs sch s, obj, Some e)"
proof -
  have ok: "gvk_ok gvk" "key_ok (ObjectKeyFromObject obj)" using arg gvk by (simp_all add: file_arg_ok_def)
  show thesis
  proof (cases "mem_view (file_abs sch s) gvk (ObjectKeyFromObject obj)")
    case None
    with gvk show ?thesis
      by (intro that) (simp_all add: file_Update_def file_open_ok [OF inv ok] mem_write_not_found [OF gvk])
  next
    case (Some stored)
    with assms(4) have "GetResourceVersion obj \<noteq> GetResourceVersion stored" by simp
    with Some gvk show ?thesis
      by (intro that) (simp_all add: file_Update_def file_open_ok [OF inv ok] mem_write_conflict [OF gvk Some])
  qed
qed

lemma file_Update_present:
  assumes inv: "file_inv sch good s" and bound: "f_revision s < MaxInt64" and arg: "file_arg_ok sch good obj"
    and gvk: "mem_gvkForObject sch obj = Inr gvk" and stored: "mem_view (file_abs sch s) gvk (ObjectKeyFromObject obj) = Some stored"
    and rv: "GetResourceVersion obj = GetResourceVersion stored"
  obtains m where "good m" and "GoType m = GoType obj"
    and "Meta m = (Meta obj)\<lparr>ResourceVersion := GetResourceVersion stored, UID := GetUID stored, Generation := GetGeneration stored\<rparr>"
    and "\<forall>k. fmlookup (Body m) k = (if k = ''status'' then GetStatus stored else fmlookup (Body obj) k)"
    and "marshal Indented m = marshal Indented stored \<longrightarrow> (\<exists>o1. file_Update sch s obj = (s, o1, None))"
    and "marshal Indented m \<noteq> marshal Indented stored \<longrightarrow> (\<exists>s' o2. file_Update sch s obj = (s', o2, None) \<and> file_inv sch good s' \<and>
      mem_commit (file_abs sch s) (file_abs sch s') gvk \<lparr>ev_Type = EventModified,
        ev_Object = SetResourceVersion (FormatInt (f_revision s + 1)) (SetGeneration (file_nextGeneration stored obj) m)\<rparr> \<and>
      unmarshalInto sch (marshal Compact (SetResourceVersion (FormatInt (f_revision s + 1)) (SetGeneration (file_nextGeneration stored obj) m))) obj = Inr o2)"
proof -
  let ?key = "ObjectKeyFromObject obj"
  have ok: "gvk_ok gvk" "key_ok ?key" "good obj" using arg gvk by (simp_all add: file_arg_ok_def)
  have open_ok: "file_open sch s gvk obj = (f_disk s, Inr (marshal Indented stored, stored))"
    using file_open_ok [OF inv ok(1,2)] stored rv by simp
  have st: "good stored" "mem_gvkForObject sch stored = Inr gvk"
    using inv ok(1,2) stored by (cases rule: file_lookup; simp)+
  have ty: "GoType stored = GoType obj" by (rule good_type [OF st ok(3) gvk])
  obtain m0 where m0: "unmarshalInto sch (compactMap (file_mergeSpec (marshal Indented stored) (marshal Compact obj))) obj = Inr m0"
      "good m0" "GoType m0 = GoType obj" "Meta m0 = Meta obj"
      "\<forall>k. fmlookup (Body m0) k = (if k = ''status'' then GetStatus stored else fmlookup (Body obj) k)"
    using st(1) ok(3) ty by (rule merge_spec)
  define m where "m = SetGeneration (GetGeneration stored) (SetUID (GetUID stored) (SetResourceVersion (GetResourceVersion stored) m0))"
  define g where "g = SetGeneration (file_nextGeneration stored obj) m"
  have g: "good g" "GoType g = GoType obj" "ObjectKeyFromObject g = ?key"
    using m0(2-4) by (simp_all add: g_def m_def) (simp add: ObjectKeyFromObject_def)
  have gen: "(if \<not> bytes_Equal (map_option (Pair Indented) (GetSpec stored)) (map_option (Pair Compact) (GetSpec obj))
      then SetGeneration (add64 (GetGeneration stored) 1) m else m) = g"
    by (simp add: g_def file_nextGeneration_def m_def setter_defs)
  obtain o1 where o1: "unmarshalInto sch (marshal Indented stored) obj = Inr o1"
    using st(1) ok(3) ty by (rule copy_decodes)
  have "file_Update sch s obj = (s, o1, None)" if "marshal Indented m = marshal Indented stored"
    using that gvk open_ok m0(1) o1 by (simp add: file_Update_def Let_def m_def)
  moreover have "file_Update sch s obj = file_finish sch s gvk g obj" if "marshal Indented m \<noteq> marshal Indented stored"
    using that gvk open_ok m0(1)
    by (simp add: file_Update_def Let_def m_def gen [symmetric, unfolded m_def])
  moreover obtain s' o2 where "file_finish sch s gvk g obj = (s', o2, None)" "file_inv sch good s'"
      "mem_commit (file_abs sch s) (file_abs sch s') gvk
        \<lparr>ev_Type = EventModified, ev_Object = SetResourceVersion (FormatInt (f_revision s + 1)) g\<rparr>"
      "unmarshalInto sch (marshal Compact (SetResourceVersion (FormatInt (f_revision s + 1)) g)) obj = Inr o2"
    using file_finish_ok [OF inv bound arg gvk stored g] by metis
  ultimately show thesis
    using m0(2-5) by (intro that [of m]) (auto simp: g_def m_def, auto simp: setter_defs)
qed

lemma file_Update_effect:
  assumes inv: "file_inv sch good s" and bound: "f_revision s < MaxInt64" and arg: "file_arg_ok sch good obj"
  defines "s' \<equiv> fst (file_Update sch s obj)"
  shows "file_inv sch good s' \<and> (s' = s \<or> (\<exists>gvk e. mem_commit (file_abs sch s) (file_abs sch s') gvk e))"
proof -
  obtain gvk where gvk: "mem_gvkForObject sch obj = Inr gvk" using arg by (rule good_gvk)
  show ?thesis
  proof (cases "\<exists>stored. mem_view (file_abs sch s) gvk (ObjectKeyFromObject obj) = Some stored \<and> GetResourceVersion obj = GetResourceVersion stored")
    case True
    then obtain stored where st: "mem_view (file_abs sch s) gvk (ObjectKeyFromObject obj) = Some stored"
        "GetResourceVersion obj = GetResourceVersion stored" by blast
    from file_Update_present [OF inv bound arg gvk st] inv show ?thesis unfolding s'_def by (metis fst_conv)
  next
    case False
    from file_Update_error [OF inv arg gvk False] inv show ?thesis unfolding s'_def by (metis fst_conv)
  qed
qed

section \<open>Delete\<close>

lemma file_Delete_refines:
  assumes inv: "file_inv sch good s" and bound: "f_revision s < MaxInt64" and arg: "file_arg_ok sch good obj"
  obtains s' e where "file_Delete sch s obj = (s', e)" and "file_inv sch good s'"
    and "mem_Delete sch (file_abs sch s) obj = (file_abs sch s', e)"
proof -
  let ?key = "ObjectKeyFromObject obj" and ?root = "f_root s" and ?rv = "f_revision s + 1"
  obtain gvk where gvk: "mem_gvkForObject sch obj = Inr gvk" "gvk_ok gvk" "good obj" "key_ok ?key"
    using arg by (rule good_gvk)
  let ?p = "objectPath ?root gvk ?key"
  have d: "disk_ok ?root (f_disk s)" "files_ok sch good ?root (d_files (f_disk s)) (f_revision s) (f_uidCounter s)"
    and minv: "mem_inv sch (file_abs sch s)" using inv by (simp_all add: file_inv_def)
  note read = ReadFile_object [OF d(1) gvk(2,4)]
  show thesis
    using inv gvk(2,4)
  proof (cases rule: file_lookup)
    case absent
    with inv gvk read show ?thesis
      by (intro that) (simp_all add: file_Delete_def mem_Delete_def file_abs_view)
  next
    case (present stored)
    note view = present(5) [unfolded file_abs_view] and load = load_written [OF present(2,3), of Indented]
    show ?thesis
    proof (cases "GetResourceVersion obj \<noteq> [] \<and> GetResourceVersion obj \<noteq> GetResourceVersion stored")
      case True
      with inv gvk read present(1) load view show ?thesis
        by (intro that) (simp_all add: file_Delete_def mem_Delete_def)
    next
      case False
      have root: "clean_path ?root" using d(1) by (simp add: disk_ok_def)
      have rv: "add64 (f_revision s) 1 = ?rv" "is_int64 ?rv"
        using mem_revision_bounds [OF minv] bound by (simp_all add: add64_Suc is_int64_def MinInt64_def)
      have op: "object_path ?root ?p" using gvk(2,4) unfolding object_path_def by blast
      let ?d1 = "(f_disk s)\<lparr>d_files := AList.delete ?p (d_files (f_disk s))\<rparr>"
      note rm = Remove_object [OF d(1) present(1)]
      have f1: "files_ok sch good ?root (d_files ?d1) (f_revision s) (f_uidCounter s)"
        using files_ok_delete [OF root d(2) op] by simp
      obtain d2 where d2: "persistNumber ?root (revisionPath ?root) ?rv ?d1 = (d2, None)" "disk_ok ?root d2"
          "d_files d2 = AList.update (revisionPath ?root) (Text (FormatInt ?rv)) (d_files ?d1)"
        using persistNumber_ok [OF rm(2), of "revisionPath ?root" ?rv] by blast
      have f2: "files_ok sch good ?root (d_files d2) ?rv (f_uidCounter s)"
        unfolding d2(3) by (rule files_ok_counter(1) [OF root f1 rv(2)])
      have obs: "file_objects sch ?root (d_files d2) = (file_objects sch ?root (d_files (f_disk s)))
          (gvk := AList.delete ?key (file_objects sch ?root (d_files (f_disk s)) gvk))"
        unfolding d2(3) objects_counter [OF rm(2) f1 disjI1 [OF refl]] using objects_delete [OF d gvk(2,4)] by simp
      define s1 where "s1 = s\<lparr>f_revision := ?rv, f_disk := d2\<rparr>"
      let ?e = "\<lparr>ev_Type = EventDeleted, ev_Object = SetResourceVersion (FormatInt ?rv) stored\<rparr>"
      have abs: "file_abs sch s1 = (file_abs sch s)\<lparr>revision := ?rv,
          objects := (objects (file_abs sch s))(gvk \<mapsto> AList.delete ?key (file_objects sch ?root (d_files (f_disk s)) gvk))\<rparr>"
        using obs by (simp add: s1_def file_abs_def fun_eq_iff)
      obtain m2 where m2: "mem_Delete sch (file_abs sch s) obj = (m2, None)" "mem_inv sch m2"
        using mem_Delete_commit [OF minv _ gvk(1) present(5)] bound False by (metis file_abs_simps(4))
      have emit: "mem_emit (file_abs sch s1) gvk ?rv ?e = Some m2"
        using m2(1) gvk(1) view False rv(1) unfolding abs
        by (simp add: mem_Delete_def Let_def split: option.splits)
      obtain s' where s': "file_publish s1 gvk ?rv ?e obj = (s', obj, None)" "file_abs sch s' = m2" "file_inv sch good s'"
        by (rule file_publish_ok [OF _ _ emit m2(2), of good obj]) (use d2(2) f2 in \<open>simp_all add: s1_def\<close>)
      have "file_Delete sch s obj = (s', None)"
        using gvk read present(1) load False rm(1) rv(1) d2(1) s'(1)
        by (simp add: file_Delete_def file_persistRevision_def Let_def s1_def)
      then show ?thesis using s'(3) m2(1) s'(2) [symmetric] by (intro that) simp_all
    qed
  qed
qed

end

end
