(* ===== verification/File_Reads.thy ===== *)
theory File_Reads
  imports File_Sim
begin

text \<open>
  The reads of the filesystem store: \<open>Get\<close> is the memory store's, and \<open>List\<close> finds by walking the
  directories exactly the stored objects that match, each once.
\<close>

section \<open>Directory listings\<close>

lemma child_simps [simp]: "fst (child p n) = fst p" "snd (child p n) = snd p @ [n]" "Dir (child p n) = p"
  by (simp_all add: child_def Dir_def)

lemma child_inject [simp]: "child p a = child p b \<longleftrightarrow> a = b"
  by (simp add: child_def)

lemma in_child_names: "n \<in> set (child_names p ps) \<longleftrightarrow> child p n \<in> set ps"
proof
  assume "n \<in> set (child_names p ps)"
  then obtain q where q: "q \<in> set ps" "snd q \<noteq> []" "Dir q = p" "n = last (snd q)"
    unfolding child_names_def by (auto simp del: split_paired_Ex)
  then have "child p n = q" by (cases q) (auto simp: child_def Dir_def)
  with q(1) show "child p n \<in> set ps" by simp
next
  assume "child p n \<in> set ps"
  then have "child p n \<in> set (filter (\<lambda>q. snd q \<noteq> [] \<and> Dir q = p) ps)" by simp
  then have "(last \<circ> snd) (child p n) \<in> set (child_names p ps)" unfolding child_names_def set_map by (rule imageI)
  then show "n \<in> set (child_names p ps)" by simp
qed

definition dir_entries :: "path \<Rightarrow> disk \<Rightarrow> (string \<times> bool) list" where
  "dir_entries p d = map (\<lambda>n. (n, child p n \<in> set (d_dirs d)))
     (sort (remdups (child_names p (d_dirs d) @ child_names p (map fst (d_files d)))))"

lemma dir_entries_distinct: "distinct (map fst (dir_entries p d))"
  by (simp add: dir_entries_def comp_def)

lemma in_dir_entries:
  "(n, b) \<in> set (dir_entries p d) \<longleftrightarrow>
   (b \<longleftrightarrow> child p n \<in> set (d_dirs d)) \<and> (child p n \<in> set (d_dirs d) \<or> child p n \<in> keys_of (d_files d))"
proof -
  have "(n, b) \<in> (\<lambda>x. (x, f x)) ` S \<longleftrightarrow> n \<in> S \<and> b = f n" for f and S :: "string set" by auto
  then show ?thesis
    unfolding dir_entries_def set_map by (simp only: set_sort set_remdups set_append Un_iff in_child_names set_map) blast
qed

lemma ReadDir_ok: "d_faults d = [] \<Longrightarrow> p \<in> set (d_dirs d) \<Longrightarrow> os_ReadDir p d = (d, Inr (dir_entries p d))"
  by (simp add: os_ReadDir_def dir_entries_def)

section \<open>The loops of List\<close>

definition sel_ok :: "ListOptions \<Rightarrow> object \<Rightarrow> bool" where
  "sel_ok lo o1 \<longleftrightarrow> (case lo_LabelSelector lo of None \<Rightarrow> True | Some sel \<Rightarrow> sel_Matches sel (GetLabels o1))"

text \<open>The object in a file of a directory that \<open>List\<close> takes in.\<close>

definition listed_file :: "scheme \<Rightarrow> GroupVersionKind \<Rightarrow> ListOptions \<Rightarrow> disk \<Rightarrow> path \<Rightarrow> string \<times> bool \<Rightarrow> object option" where
  "listed_file sch gvk lo d dir nb =
     (if snd nb \<or> \<not> HasJsonSuffix (fst nb) then None
      else case map_of (d_files d) (child dir (fst nb)) of
             None \<Rightarrow> None
           | Some c \<Rightarrow> (case loadStored sch gvk c of Inl _ \<Rightarrow> None | Inr o1 \<Rightarrow> if sel_ok lo o1 then Some o1 else None))"

definition listed_dir :: "scheme \<Rightarrow> GroupVersionKind \<Rightarrow> ListOptions \<Rightarrow> disk \<Rightarrow> path \<Rightarrow> string \<times> bool \<Rightarrow> object list" where
  "listed_dir sch gvk lo d dir nb =
     (if \<not> snd nb \<or> lo_Namespace lo \<noteq> [] \<and> nsOfDir (fst nb) \<noteq> lo_Namespace lo then []
      else List.map_filter (listed_file sch gvk lo d (child dir (fst nb))) (dir_entries (child dir (fst nb)) d))"

lemma listFiles_eq:
  assumes "d_faults d = []"
    and "\<forall>nb \<in> set fs. \<not> snd nb \<longrightarrow> (\<exists>c z o1. map_of (d_files d) (child dir (fst nb)) = Some c \<and>
      sch_New sch gvk = Inr (RObject z) \<and> decodeFile sch c z = Inr o1)"
  shows "file_listFiles sch gvk lo dir fs d items = (d, Inr (items @ List.map_filter (listed_file sch gvk lo d dir) fs))"
  using assms(2)
proof (induction fs arbitrary: items)
  case Nil
  then show ?case by (simp add: map_filter_simps)
next
  case (Cons nb fs)
  obtain n b where nb: "nb = (n, b)" by (cases nb)
  have IH: "file_listFiles sch gvk lo dir fs d items = (d, Inr (items @ List.map_filter (listed_file sch gvk lo d dir) fs))" for items
    using Cons by (intro Cons.IH) simp
  show ?case
  proof (cases "b \<or> \<not> HasJsonSuffix n")
    case True
    then have "listed_file sch gvk lo d dir (n, b) = None" by (simp add: listed_file_def)
    with True show ?thesis by (simp add: nb IH map_filter_simps)
  next
    case False
    with Cons.prems obtain c z o1 where c: "map_of (d_files d) (child dir n) = Some c" "sch_New sch gvk = Inr (RObject z)"
        "decodeFile sch c z = Inr o1"
      by (auto simp: nb)
    have "os_ReadFile (child dir n) d = (d, Inr c)" using c(1) assms(1) by (simp add: os_ReadFile_def)
    moreover have "listed_file sch gvk lo d dir (n, b) = (if sel_ok lo o1 then Some o1 else None)"
      using False c by (simp add: listed_file_def loadStored_def)
    ultimately show ?thesis using False c by (simp add: nb IH map_filter_simps sel_ok_def)
  qed
qed

lemma listDirs_eq:
  assumes "d_faults d = []" and "\<forall>nb \<in> set ds. snd nb \<longrightarrow> child dir (fst nb) \<in> set (d_dirs d)"
    and "\<forall>nb \<in> set ds. snd nb \<longrightarrow> (\<forall>fb \<in> set (dir_entries (child dir (fst nb)) d). \<not> snd fb \<longrightarrow>
      (\<exists>c z o1. map_of (d_files d) (child (child dir (fst nb)) (fst fb)) = Some c \<and>
        sch_New sch gvk = Inr (RObject z) \<and> decodeFile sch c z = Inr o1))"
  shows "file_listDirs sch gvk lo dir ds d items = (d, Inr (items @ concat (map (listed_dir sch gvk lo d dir) ds)))"
  using assms(2,3)
proof (induction ds arbitrary: items)
  case Nil
  then show ?case by simp
next
  case (Cons nb ds)
  obtain n b where nb: "nb = (n, b)" by (cases nb)
  have IH: "file_listDirs sch gvk lo dir ds d items = (d, Inr (items @ concat (map (listed_dir sch gvk lo d dir) ds)))" for items
    using Cons by (intro Cons.IH) simp_all
  show ?case
  proof (cases "\<not> b \<or> lo_Namespace lo \<noteq> [] \<and> nsOfDir n \<noteq> lo_Namespace lo")
    case True
    then have "listed_dir sch gvk lo d dir (n, b) = []" by (auto simp: listed_dir_def)
    with True show ?thesis by (auto simp: nb IH)
  next
    case False
    have "os_ReadDir (child dir n) d = (d, Inr (dir_entries (child dir n) d))"
      using Cons.prems(1) False assms(1) by (intro ReadDir_ok) (auto simp: nb)
    moreover have "file_listFiles sch gvk lo (child dir n) (dir_entries (child dir n) d) d items =
        (d, Inr (items @ List.map_filter (listed_file sch gvk lo d (child dir n)) (dir_entries (child dir n) d)))"
      using Cons.prems(2) False assms(1) by (intro listFiles_eq) (auto simp: nb)
    moreover have "listed_dir sch gvk lo d dir (n, b) =
        List.map_filter (listed_file sch gvk lo d (child dir n)) (dir_entries (child dir n) d)"
      using False by (auto simp: listed_dir_def)
    ultimately show ?thesis using False by (auto simp: nb IH)
  qed
qed

section \<open>Keys and names\<close>

lemma HasJsonSuffix_append [simp]: "HasJsonSuffix (n @ ''.json'')"
  by (simp add: HasJsonSuffix_def)

lemma nsOfDir_elem: "key_ok k \<Longrightarrow> nsOfDir (ns_elem k) = key_Namespace k"
  by (auto simp: nsOfDir_def ns_elem_def key_ok_def)

lemma objectPath_child:
  assumes "clean_path root" and "gvk_ok gvk" and "key_ok key"
  shows "objectPath root gvk key = child (child (gvkDir root gvk) (ns_elem key)) (key_Name key @ ''.json'')"
  by (simp add: objectPath_eq [OF assms] gvkDir_eq [OF assms(1,2)] child_def key_elems_def)

lemma distinct_concat_keys:
  assumes "distinct (map fst ds)" and "\<forall>nb \<in> set ds. distinct (map f (g nb))"
    and "\<forall>nb \<in> set ds. \<forall>x \<in> set (g nb). h (f x) = fst nb"
  shows "distinct (map f (concat (map g ds)))"
  using assms
proof (induction ds)
  case (Cons nb ds)
  have "f ` set (g nb) \<inter> f ` (\<Union>nb' \<in> set ds. set (g nb')) = {}"
  proof (rule ccontr)
    assume "f ` set (g nb) \<inter> f ` (\<Union>nb' \<in> set ds. set (g nb')) \<noteq> {}"
    then obtain x y nb' where xy: "x \<in> set (g nb)" "y \<in> set (g nb')" "nb' \<in> set ds" "f x = f y" by auto
    then have "fst nb = fst nb'" using Cons.prems(3) by (metis list.set_intros)
    with xy(3) Cons.prems(1) show False by (auto simp: rev_image_eqI)
  qed
  with Cons show ?case by auto
qed simp

lemma distinct_map_filter_keys:
  assumes "distinct (map fst fs)" and "\<forall>fb \<in> set fs. \<forall>x. g fb = Some x \<longrightarrow> h (f x) = fst fb"
  shows "distinct (map f (List.map_filter g fs))"
  using assms
proof (induction fs)
  case (Cons fb fs)
  show ?case
  proof (cases "g fb")
    case None
    with Cons show ?thesis by (simp add: map_filter_simps)
  next
    case (Some x)
    have "f x \<notin> f ` set (List.map_filter g fs)"
    proof
      assume "f x \<in> f ` set (List.map_filter g fs)"
      then obtain y fb' where y: "fb' \<in> set fs" "g fb' = Some y" "f x = f y" by (auto simp: in_map_filter)
      with Some Cons.prems(2) have "fst fb = fst fb'" by (metis list.set_intros)
      with y(1) Cons.prems(1) show False by (auto simp: rev_image_eqI)
    qed
    with Some Cons show ?thesis by (simp add: map_filter_simps)
  qed
qed (simp add: map_filter_simps)

context json_types
begin

section \<open>Get\<close>

lemma file_Get_refines:
  assumes inv: "file_inv sch good s" and obj: "good obj" "mem_gvkForObject sch obj = Inr gvk" and ok: "gvk_ok gvk" "key_ok key"
  shows "file_Get sch s key obj = (s, mem_Get sch (file_abs sch s) key obj)"
proof -
  have d: "disk_ok (f_root s) (f_disk s)" using inv by (simp add: file_inv_def)
  show ?thesis
    using inv ok
  proof (cases rule: file_lookup)
    case absent
    with obj show ?thesis by (simp add: file_Get_def mem_Get_def ReadFile_object [OF d ok] file_abs_view)
  next
    case (present stored)
    have ty: "GoType stored = GoType obj" by (rule good_type [OF present(2,3) obj])
    obtain o1 where "unmarshalInto sch (marshal Indented stored) obj = Inr o1"
        "mem_copyBack sch (file_abs sch s) stored obj = (file_abs sch s, o1, None)"
      using present(2) obj(1) ty by (rule copyBack_same)
    with obj present(1,5) show ?thesis
      by (simp add: file_Get_def mem_Get_def ReadFile_object [OF d ok] file_abs_view decodeFile_def)
  qed
qed

section \<open>List\<close>

lemma view_file:
  assumes "file_inv sch good s" and "mem_view (file_abs sch s) gvk k = Some o1"
  shows "gvk_ok gvk" and "key_ok k" and "ObjectKeyFromObject o1 = k"
proof -
  have "(k, o1) \<in> set (file_objects sch (f_root s) (d_files (f_disk s)) gvk)"
    using assms(2) map_of_SomeD by (simp add: file_abs_view)
  then obtain pc where "file_entry sch (f_root s) gvk pc = Some (k, o1)"
    unfolding file_objects_def in_map_filter by blast
  then show "gvk_ok gvk" "key_ok k" "ObjectKeyFromObject o1 = k"
    by (auto simp: file_entry_def split: sum.splits if_splits)
qed

text \<open>A file two levels below the directory of a kind is the file of an object of that kind.\<close>

lemma file_below:
  assumes inv: "file_inv sch good s" and "gvk_ok gvk" and c: "map_of (d_files (f_disk s)) (child (child (gvkDir (f_root s) gvk) n) f) = Some c"
  obtains o1 where "c = Doc (marshal Indented o1)" and "good o1" and "mem_gvkForObject sch o1 = Inr gvk"
    and "n = ns_elem (ObjectKeyFromObject o1)" and "f = key_Name (ObjectKeyFromObject o1) @ ''.json''" and "key_ok (ObjectKeyFromObject o1)"
    and "mem_view (file_abs sch s) gvk (ObjectKeyFromObject o1) = Some o1"
proof -
  let ?root = "f_root s"
  have d: "disk_ok ?root (f_disk s)" "files_ok sch good ?root (d_files (f_disk s)) (f_revision s) (f_uidCounter s)"
    using inv by (simp_all add: file_inv_def)
  have root: "clean_path ?root" using d(1) by (simp add: disk_ok_def)
  have len: "length (snd (child (child (gvkDir ?root gvk) n) f)) = length (snd ?root) + 5"
    by (simp add: gvkDir_eq [OF root assms(2)])
  from d map_of_SomeD [OF c] show thesis
  proof (cases rule: entry_cases)
    case (counter t)
    have "length (snd p) = length (snd ?root) + 1" if "p = revisionPath ?root \<or> p = uidPath ?root" for p
      using that by (auto simp: counterPath_eq [OF root])
    from this [OF counter(2)] len show ?thesis by simp
  next
    case (doc g o1)
    let ?k = "ObjectKeyFromObject o1"
    have "gvk_elems g @ key_elems ?k = gvk_elems gvk @ [n, f]"
      using doc(6) by (simp add: gvkDir_eq [OF root assms(2)] objectPath_eq [OF root doc(4,5)] child_def)
    then have eq: "gvk_elems g = gvk_elems gvk" "[n, f] = key_elems ?k" by simp_all
    have g: "g = gvk" by (rule gvk_elems_inject [OF doc(4) assms(2) eq(1)])
    have at: "map_of (d_files (f_disk s)) (objectPath ?root gvk ?k) = Some (Doc (marshal Indented o1))"
      using c unfolding doc(6) doc(1) g .
    from inv assms(2) doc(5) have "mem_view (file_abs sch s) gvk ?k = Some o1"
    proof (cases rule: file_lookup)
      case (present o2)
      with at have "marshal Indented o2 = marshal Indented o1" by simp
      moreover have "mem_gvkForObject sch o1 = Inr gvk" using doc(3) g by blast
      ultimately have "o2 = o1"
        using load_written [OF present(2,3), of Indented] load_written [OF doc(2), of gvk Indented] by (metis sum.inject(2))
      with present(5) show ?thesis by simp
    qed (use at in simp)
    with doc(1-3,5) g eq(2) show ?thesis by (intro that) (simp_all add: key_elems_def)
  qed
qed

text \<open>What the walk finds in the directory of a namespace.\<close>

lemma listed_iff:
  assumes inv: "file_inv sch good s" and gvk: "gvk_ok gvk"
  shows "listed_file sch gvk lo (f_disk s) (child (gvkDir (f_root s) gvk) n) (f, False) = Some o1 \<longleftrightarrow>
    n = ns_elem (ObjectKeyFromObject o1) \<and> f = key_Name (ObjectKeyFromObject o1) @ ''.json'' \<and>
    mem_view (file_abs sch s) gvk (ObjectKeyFromObject o1) = Some o1 \<and> sel_ok lo o1"
    (is "?l \<longleftrightarrow> ?r")
proof
  assume ?l
  then obtain c where c: "map_of (d_files (f_disk s)) (child (child (gvkDir (f_root s) gvk) n) f) = Some c"
      "loadStored sch gvk c = Inr o1" "sel_ok lo o1"
    by (auto simp: listed_file_def split: if_splits option.splits sum.splits)
  obtain o2 where o2: "c = Doc (marshal Indented o2)" "good o2" "mem_gvkForObject sch o2 = Inr gvk"
      "n = ns_elem (ObjectKeyFromObject o2)" "f = key_Name (ObjectKeyFromObject o2) @ ''.json''"
      "mem_view (file_abs sch s) gvk (ObjectKeyFromObject o2) = Some o2"
    using inv gvk c(1) by (rule file_below)
  have "o2 = o1" using c(2) load_written [OF o2(2,3), of Indented] by (simp add: o2(1))
  with o2 c(3) show ?r by simp
next
  assume r: ?r
  let ?k = "ObjectKeyFromObject o1"
  have root: "clean_path (f_root s)" using inv by (simp add: file_inv_def disk_ok_def)
  have k: "key_ok ?k" using view_file(2) [OF inv] r by blast
  from inv gvk k show ?l
  proof (cases rule: file_lookup)
    case (present o2)
    with r have "o2 = o1" by simp
    with present load_written [OF present(2,3), of Indented] r show ?thesis
      by (simp add: listed_file_def objectPath_child [OF root gvk k])
  qed (use r in simp)
qed

lemma entries_file:
  assumes inv: "file_inv sch good s" and gvk: "gvk_ok gvk" and view: "mem_view (file_abs sch s) gvk k = Some o1"
  defines "dir \<equiv> gvkDir (f_root s) gvk"
  shows "dir \<in> set (d_dirs (f_disk s))" and "(ns_elem k, True) \<in> set (dir_entries dir (f_disk s))"
    and "(key_Name k @ ''.json'', False) \<in> set (dir_entries (child dir (ns_elem k)) (f_disk s))"
proof -
  let ?d = "f_disk s" and ?p = "child (child dir (ns_elem k)) (key_Name k @ ''.json'')"
  have d: "disk_ok (f_root s) ?d" and root: "clean_path (f_root s)" using inv by (simp_all add: file_inv_def disk_ok_def)
  have k: "key_ok k" using view_file(2) [OF inv view] .
  have p: "objectPath (f_root s) gvk k = ?p" unfolding dir_def by (rule objectPath_child [OF root gvk k])
  have op: "object_path (f_root s) ?p" using gvk k p unfolding object_path_def by metis
  obtain c where c: "map_of (d_files ?d) ?p = Some c"
    using inv gvk k view p by (cases rule: file_lookup) simp_all
  have anc: "set (ancestors (child dir (ns_elem k))) \<subseteq> set (d_dirs ?d)"
    using stored_dirs [OF d c op] by simp
  then have ns: "child dir (ns_elem k) \<in> set (d_dirs ?d)" using self_ancestors by blast
  have "dir \<in> set (ancestors (child dir (ns_elem k)))"
    by (auto simp: set_ancestors intro!: exI [of _ "length (snd dir)"])
  with anc show "dir \<in> set (d_dirs ?d)" by blast
  show "(ns_elem k, True) \<in> set (dir_entries dir ?d)" using ns by (simp add: in_dir_entries)
  have "?p \<notin> set (d_dirs ?d)" using file_not_dir [OF d] op by blast
  moreover have "?p \<in> keys_of (d_files ?d)" using map_of_SomeD [OF c] by (metis fst_conv imageI)
  ultimately show "(key_Name k @ ''.json'', False) \<in> set (dir_entries (child dir (ns_elem k)) ?d)"
    by (simp add: in_dir_entries)
qed

lemma listDirs_items:
  fixes lo :: ListOptions
  assumes inv: "file_inv sch good s" and gvk: "gvk_ok gvk"
  defines "dir \<equiv> gvkDir (f_root s) gvk"
  defines "items \<equiv> concat (map (listed_dir sch gvk lo (f_disk s) dir) (dir_entries dir (f_disk s)))"
  shows "distinct (map ObjectKeyFromObject items)"
    and "set items = {o1. \<exists>k. mem_view (file_abs sch s) gvk k = Some o1 \<and> mem_listMatches lo k o1}"
proof -
  have listed: "listed_file sch gvk lo (f_disk s) (child dir n) (f, b) = Some o1 \<longleftrightarrow> \<not> b \<and>
      n = ns_elem (ObjectKeyFromObject o1) \<and> f = key_Name (ObjectKeyFromObject o1) @ ''.json'' \<and>
      mem_view (file_abs sch s) gvk (ObjectKeyFromObject o1) = Some o1 \<and> sel_ok lo o1" for n f b o1
    using listed_iff [OF inv gvk, of lo n f o1] by (cases b) (simp_all add: dir_def, simp add: listed_file_def)
  have mem: "o1 \<in> set (listed_dir sch gvk lo (f_disk s) dir (n, b)) \<longleftrightarrow>
      b \<and> n = ns_elem (ObjectKeyFromObject o1) \<and> mem_view (file_abs sch s) gvk (ObjectKeyFromObject o1) = Some o1 \<and>
      mem_listMatches lo (ObjectKeyFromObject o1) o1" for n b o1
  proof -
    have "nsOfDir n = key_Namespace (ObjectKeyFromObject o1) \<and>
        (key_Name (ObjectKeyFromObject o1) @ ''.json'', False) \<in> set (dir_entries (child dir n) (f_disk s))"
      if "n = ns_elem (ObjectKeyFromObject o1)" "mem_view (file_abs sch s) gvk (ObjectKeyFromObject o1) = Some o1"
      using that entries_file(3) [OF inv gvk that(2)] nsOfDir_elem [OF view_file(2) [OF inv that(2)]] by (simp add: dir_def)
    then show ?thesis
      unfolding listed_dir_def
      by (auto simp: in_map_filter listed mem_listMatches_def sel_ok_def [symmetric] Bex_def)
  qed
  show "set items = {o1. \<exists>k. mem_view (file_abs sch s) gvk k = Some o1 \<and> mem_listMatches lo k o1}"
  proof (intro set_eqI iffI CollectI)
    fix o1
    assume "o1 \<in> set items"
    then obtain nb where "o1 \<in> set (listed_dir sch gvk lo (f_disk s) dir nb)" by (auto simp: items_def)
    with mem [of o1 "fst nb" "snd nb"] show "\<exists>k. mem_view (file_abs sch s) gvk k = Some o1 \<and> mem_listMatches lo k o1" by auto
  next
    fix o1
    assume "o1 \<in> {o1. \<exists>k. mem_view (file_abs sch s) gvk k = Some o1 \<and> mem_listMatches lo k o1}"
    then obtain k where k: "mem_view (file_abs sch s) gvk k = Some o1" "mem_listMatches lo k o1" by blast
    have "ObjectKeyFromObject o1 = k" by (rule view_file(3) [OF inv k(1)])
    with k mem [of o1 "ns_elem k" True] have "o1 \<in> set (listed_dir sch gvk lo (f_disk s) dir (ns_elem k, True))" by simp
    with entries_file(2) [OF inv gvk k(1)] show "o1 \<in> set items" unfolding items_def dir_def set_concat set_map by blast
  qed
  have keys: "key_Name (ObjectKeyFromObject o1) @ ''.json'' = fst fb" if "listed_file sch gvk lo (f_disk s) (child dir n) fb = Some o1" for n fb o1
    using that listed [of n "fst fb" "snd fb" o1] by simp
  have "distinct (map ObjectKeyFromObject (List.map_filter (listed_file sch gvk lo (f_disk s) (child dir n)) (dir_entries (child dir n) (f_disk s))))" for n
    by (rule distinct_map_filter_keys [OF dir_entries_distinct, where h = "\<lambda>k. key_Name k @ ''.json''"]) (use keys in blast)
  then have "distinct (map ObjectKeyFromObject (listed_dir sch gvk lo (f_disk s) dir nb))" for nb
    by (simp add: listed_dir_def)
  then show "distinct (map ObjectKeyFromObject items)"
    unfolding items_def
    using mem by (intro distinct_concat_keys [OF dir_entries_distinct, where h = ns_elem]) auto
qed

lemma gvkDir_missing:
  assumes "disk_ok root d" and "gvk_ok gvk" and "gvkDir root gvk \<notin> set (d_dirs d)"
  shows "os_ReadDir (gvkDir root gvk) d = (d, Inl ErrNotExist)"
proof -
  let ?dir = "gvkDir root gvk"
  let ?key = "\<lparr>key_Namespace = [], key_Name = ''x''\<rparr>"
  have root: "clean_path root" using assms(1) by (simp add: disk_ok_def)
  have k: "key_ok ?key" by (simp add: key_ok_def valid_elem_def)
  have none: "map_of (d_files d) (fst ?dir, take n (snd ?dir)) = None" if "n \<le> length (snd ?dir)" for n
    using no_file_on_way [OF assms(1,2) k, of n] that
    by (simp add: gvkDir_eq [OF root assms(2)] objectPath_eq [OF root assms(2) k])
  from none [of "length (snd ?dir)"] have "map_of (d_files d) ?dir = None" by simp
  moreover have "clear_way d ?dir" using none by (simp add: clear_way_def list_all_iff)
  ultimately show ?thesis
    using assms(3) disk_ok_faults [OF assms(1)] by (simp add: os_ReadDir_def file_error_def)
qed

lemma file_List_items:
  assumes inv: "file_inv sch good s" and lst: "mem_gvkForList sch lst = Inr gvk" and gvk: "gvk_ok gvk"
  obtains items where "file_List sch s lst opts =
      (s, file_populateListItems sch (lst\<lparr>ListResourceVersion := FormatInt (f_revision s)\<rparr>) items)"
    and "distinct (map ObjectKeyFromObject items)"
    and "set items = {o1. \<exists>k. mem_view (file_abs sch s) gvk k = Some o1 \<and> mem_listMatches (applyListOptions opts) k o1}"
proof -
  let ?dir = "gvkDir (f_root s) gvk" and ?d = "f_disk s" and ?lo = "applyListOptions opts"
  have d: "disk_ok (f_root s) ?d" using inv by (simp add: file_inv_def)
  note nf = disk_ok_faults [OF d]
  show thesis
  proof (cases "?dir \<in> set (d_dirs ?d)")
    case True
    let ?items = "concat (map (listed_dir sch gvk ?lo ?d ?dir) (dir_entries ?dir ?d))"
    have "file_listDirs sch gvk ?lo ?dir (dir_entries ?dir ?d) ?d [] = (?d, Inr ([] @ ?items))"
    proof (rule listDirs_eq [OF nf]; intro ballI impI)
      fix nb assume "nb \<in> set (dir_entries ?dir ?d)" "snd nb"
      then show "child ?dir (fst nb) \<in> set (d_dirs ?d)" by (cases nb rule: prod.exhaust) (simp add: in_dir_entries)
    next
      fix nb fb assume "fb \<in> set (dir_entries (child ?dir (fst nb)) ?d)" "\<not> snd fb"
      then have "child (child ?dir (fst nb)) (fst fb) \<in> keys_of (d_files ?d)"
        by (cases fb rule: prod.exhaust) (simp add: in_dir_entries)
      then obtain c where c: "map_of (d_files ?d) (child (child ?dir (fst nb)) (fst fb)) = Some c"
        by (metis map_of_eq_None_iff option.exhaust)
      obtain o1 where o1: "c = Doc (marshal Indented o1)" "good o1" "mem_gvkForObject sch o1 = Inr gvk"
        using inv gvk c by (rule file_below)
      with load_written [OF o1(2,3), of Indented] c
      show "\<exists>c z o1. map_of (d_files ?d) (child (child ?dir (fst nb)) (fst fb)) = Some c \<and>
          sch_New sch gvk = Inr (RObject z) \<and> decodeFile sch c z = Inr o1"
        by (auto simp: loadStored_def split: sum.splits runtime_object.splits)
    qed
    then have "file_List sch s lst opts = (s, file_populateListItems sch (lst\<lparr>ListResourceVersion := FormatInt (f_revision s)\<rparr>) ?items)"
      using lst ReadDir_ok [OF nf True] by (simp add: file_List_def Let_def)
    then show ?thesis using listDirs_items [OF inv gvk, of ?lo] by (intro that)
  next
    case False
    then have "file_List sch s lst opts = (s, file_populateListItems sch (lst\<lparr>ListResourceVersion := FormatInt (f_revision s)\<rparr>) [])"
      using lst gvkDir_missing [OF d gvk] by (simp add: file_List_def Let_def)
    moreover have "mem_view (file_abs sch s) gvk k \<noteq> Some o1" for k o1
      using entries_file(1) [OF inv gvk, of k o1] False by blast
    ultimately show ?thesis by (intro that [of "[]"]) auto
  qed
qed

end

end
