(* ===== verification/File_Contract.thy ===== *)
theory File_Contract
  imports File_Reads Cache_Memory
begin

text \<open>
  Runs of the filesystem store, restarts, and the contract \<open>watched_store\<close>: whatever holds for a cache
  over the memory store holds over the files.
\<close>

section \<open>Runs\<close>

fun file_exec :: "scheme \<Rightarrow> mem_op \<Rightarrow> FileStore \<Rightarrow> FileStore" where
  "file_exec sch (OpCreate o1) s = fst (file_Create sch s o1)"
| "file_exec sch (OpUpdate o1) s = fst (file_Update sch s o1)"
| "file_exec sch (OpUpdateStatus o1) s = fst (file_UpdateStatus sch s o1)"
| "file_exec sch (OpDelete o1) s = fst (file_Delete sch s o1)"
| "file_exec sch (OpWatch l opts) s = fst (file_Watch sch s l opts)"
| "file_exec sch (OpRecv i) s = fst (file_Recv s i)"
| "file_exec sch (OpStop i) s = file_Stop s i"

fun file_execs :: "scheme \<Rightarrow> mem_op list \<Rightarrow> FileStore \<Rightarrow> FileStore" where
  "file_execs sch [] s = s"
| "file_execs sch (op # ops) s = file_execs sch ops (file_exec sch op s)"

fun file_op_ok :: "scheme \<Rightarrow> (object \<Rightarrow> bool) \<Rightarrow> mem_op \<Rightarrow> bool" where
  "file_op_ok sch good (OpCreate o1) = file_arg_ok sch good o1"
| "file_op_ok sch good (OpUpdate o1) = file_arg_ok sch good o1"
| "file_op_ok sch good (OpUpdateStatus o1) = file_arg_ok sch good o1"
| "file_op_ok sch good (OpDelete o1) = file_arg_ok sch good o1"
| "file_op_ok sch good _ = True"

fun is_update :: "mem_op \<Rightarrow> bool" where
  "is_update (OpUpdate _) = True"
| "is_update _ = False"

section \<open>Watchers\<close>

lemma abs_eventsSince: "file_eventsSince s r gvk = mem_eventsSince (file_abs sch s) r gvk"
  by (simp add: file_eventsSince_def mem_eventsSince_def Let_def split: list.split)

lemma abs_Watch:
  "mem_Watch sch (file_abs sch s) lst opts = map_prod (file_abs sch) id (file_Watch sch s lst opts)"
  by (simp add: mem_Watch_def file_Watch_def abs_eventsSince [of s _ _ sch] Let_def split: sum.split option.split)
    (simp add: file_abs_def)

lemma abs_Recv: "mem_Recv (file_abs sch s) i = map_prod (file_abs sch) id (file_Recv s i)"
  by (simp add: mem_Recv_def file_Recv_def file_abs_def Let_def)

lemma abs_Stop: "mem_Stop (file_abs sch s) i = file_abs sch (file_Stop s i)"
  by (simp add: mem_Stop_def file_Stop_def mem_removeWatcher_def file_removeWatcher_def file_abs_def Let_def)

lemma watch_frame:
  "f_root (fst (file_Watch sch s lst opts)) = f_root s \<and> f_disk (fst (file_Watch sch s lst opts)) = f_disk s \<and>
   f_revision (fst (file_Watch sch s lst opts)) = f_revision s \<and> f_uidCounter (fst (file_Watch sch s lst opts)) = f_uidCounter s"
  by (simp add: file_Watch_def Let_def split: sum.split option.split)

lemma recv_frame:
  "f_root (fst (file_Recv s i)) = f_root s \<and> f_disk (fst (file_Recv s i)) = f_disk s \<and>
   f_revision (fst (file_Recv s i)) = f_revision s \<and> f_uidCounter (fst (file_Recv s i)) = f_uidCounter s"
  by (simp add: file_Recv_def Let_def)

lemma stop_frame:
  "f_root (file_Stop s i) = f_root s \<and> f_disk (file_Stop s i) = f_disk s \<and>
   f_revision (file_Stop s i) = f_revision s \<and> f_uidCounter (file_Stop s i) = f_uidCounter s"
  by (simp add: file_Stop_def file_removeWatcher_def Let_def)

lemma file_inv_frame:
  assumes "file_inv sch good s" and "mem_inv sch (file_abs sch s')"
    and "f_root s' = f_root s \<and> f_disk s' = f_disk s \<and> f_revision s' = f_revision s \<and> f_uidCounter s' = f_uidCounter s"
  shows "file_inv sch good s'"
  using assms by (simp add: file_inv_def)

lemma file_watch_step:
  assumes inv: "file_inv sch good s" and op: "\<not> is_write op"
  shows "file_inv sch good (file_exec sch op s) \<and> file_abs sch (file_exec sch op s) = mem_exec sch op (file_abs sch s)"
proof -
  have minv: "mem_inv sch (file_abs sch s)" using inv by (simp add: file_inv_def)
  have abs: "file_abs sch (file_exec sch op s) = mem_exec sch op (file_abs sch s)"
    using op by (cases op) (simp_all add: abs_Watch abs_Recv abs_Stop)
  moreover have "mem_inv sch (mem_exec sch op (file_abs sch s))"
    using op minv mem_Watch_quiet mem_Recv_quiet mem_Stop_quiet by (cases op) auto
  ultimately have "file_inv sch good (file_exec sch op s)"
    using op watch_frame recv_frame stop_frame by (cases op; intro file_inv_frame [OF inv]) simp_all
  with abs show ?thesis by simp
qed

text \<open>No operation moves the store.\<close>

lemma publish_root: "f_root (fst (file_publish s gvk rv e obj)) = f_root s"
  by (auto simp: file_publish_def emit_frame(1) split: option.split)

lemma finish_root: "f_root (fst (file_finish sch s gvk m obj)) = f_root s"
  by (simp add: file_finish_def publish_root Let_def split: prod.split option.split sum.split)

lemma generateUID_root: "f_root (fst (file_generateUID s)) = f_root s"
  by (simp add: file_generateUID_def Let_def split: prod.split option.split)

lemma file_exec_root [simp]: "f_root (file_exec sch op s) = f_root s"
proof (cases op)
  case (OpCreate obj)
  have uid: "f_root s2 = f_root s" if "(if GetUID obj = [] then file_generateUID (s\<lparr>f_disk := d\<rparr>) else (s\<lparr>f_disk := d\<rparr>, Inr (GetUID obj))) = (s2, r)"
    for d s2 r using that generateUID_root [of "s\<lparr>f_disk := d\<rparr>"] by (auto split: if_splits)
  show ?thesis
    unfolding OpCreate file_exec.simps file_Create_def
    by (auto simp: publish_root Let_def dest: uid split del: if_split split: prod.split sum.split option.split)
next
  case (OpUpdate obj)
  then show ?thesis
    by (simp add: file_Update_def finish_root Let_def split: prod.split sum.split)
next
  case (OpUpdateStatus obj)
  then show ?thesis
    by (simp add: file_UpdateStatus_def finish_root Let_def split: prod.split sum.split)
next
  case (OpDelete obj)
  have pub: "f_root s2 = f_root s1" if "file_publish s1 gvk rv e obj = (s2, r)" for s1 s2 gvk rv e r
    using that publish_root [of s1 gvk rv e obj] by simp
  show ?thesis
    unfolding OpDelete file_exec.simps file_Delete_def
    by (auto simp: Let_def dest!: pub split: prod.split sum.split option.split os_error.split)
qed (simp_all add: watch_frame recv_frame stop_frame)

lemma file_execs_root [simp]: "f_root (file_execs sch ops s) = f_root s"
  by (induction ops arbitrary: s) simp_all

section \<open>One operation\<close>

context json_types
begin

lemma file_Create_refines:
  assumes "file_inv sch good s" and "f_revision s < MaxInt64" and "file_arg_ok sch good obj"
  obtains s' o1 e where "file_Create sch s obj = (s', o1, e)" and "file_inv sch good s'"
    and "mem_Create sch (file_abs sch s) obj = (file_abs sch s', o1, e)"
proof -
  obtain gvk where gvk: "mem_gvkForObject sch obj = Inr gvk" using assms(3) by (rule good_gvk)
  show thesis
  proof (cases "mem_view (file_abs sch s) gvk (ObjectKeyFromObject obj)")
    case None
    show ?thesis using assms gvk None by (rule file_Create_absent) (rule that)
  next
    case (Some o1)
    then have "mem_view (file_abs sch s) gvk (ObjectKeyFromObject obj) \<noteq> None" by simp
    with file_Create_exists [OF assms(1,3) gvk] mem_Create_exists [of sch "file_abs sch s" obj gvk] gvk assms(1) show ?thesis
      by (intro that) (simp_all add: file_inv_def)
  qed
qed

lemma file_exec_refines:
  assumes "file_inv sch good s" and "f_revision s < MaxInt64" and "file_op_ok sch good op" and "\<not> is_update op"
  shows "file_inv sch good (file_exec sch op s) \<and> file_abs sch (file_exec sch op s) = mem_exec sch op (file_abs sch s)"
proof (cases "is_write op")
  case False
  with assms(1) show ?thesis by (rule file_watch_step)
next
  case True
  with assms(3,4) consider o1 where "op = OpCreate o1" "file_arg_ok sch good o1"
    | o1 where "op = OpUpdateStatus o1" "file_arg_ok sch good o1" | o1 where "op = OpDelete o1" "file_arg_ok sch good o1"
    by (cases op) simp_all
  then show ?thesis
  proof cases
    case 1
    obtain s' o2 e where "file_Create sch s o1 = (s', o2, e)" "file_inv sch good s'" "mem_Create sch (file_abs sch s) o1 = (file_abs sch s', o2, e)"
      using assms(1,2) 1(2) by (rule file_Create_refines)
    with 1(1) show ?thesis by simp
  next
    case 2
    obtain s' o2 e where "file_UpdateStatus sch s o1 = (s', o2, e)" "file_inv sch good s'" "mem_UpdateStatus sch (file_abs sch s) o1 = (file_abs sch s', o2, e)"
      using assms(1,2) 2(2) by (rule file_UpdateStatus_refines)
    with 2(1) show ?thesis by simp
  next
    case 3
    obtain s' e where "file_Delete sch s o1 = (s', e)" "file_inv sch good s'" "mem_Delete sch (file_abs sch s) o1 = (file_abs sch s', e)"
      using assms(1,2) 3(2) by (rule file_Delete_refines)
    with 3(1) show ?thesis by simp
  qed
qed

lemma file_write_effect:
  assumes inv: "file_inv sch good s" and bound: "f_revision s < MaxInt64" and op: "file_op_ok sch good op" "is_write op"
  shows "file_inv sch good (file_exec sch op s) \<and>
    (file_abs sch (file_exec sch op s) = file_abs sch s \<or> (\<exists>gvk e. mem_commit (file_abs sch s) (file_abs sch (file_exec sch op s)) gvk e))"
proof (cases "is_update op")
  case True
  then obtain o1 where "op = OpUpdate o1" by (cases op) simp_all
  with op file_Update_effect [OF inv bound, of o1] show ?thesis by auto
next
  case False
  have "mem_inv sch (file_abs sch s)" using inv by (simp add: file_inv_def)
  with file_exec_refines [OF inv bound op(1) False] mem_write_effect [of sch "file_abs sch s" op] bound op(2) show ?thesis by simp
qed

lemma file_exec_effect:
  assumes inv: "file_inv sch good s" and bound: "f_revision s < MaxInt64" and op: "file_op_ok sch good op"
  shows "file_inv sch good (file_exec sch op s) \<and>
    (mem_quiet (file_abs sch s) (file_abs sch (file_exec sch op s)) \<or>
     (\<exists>gvk e. mem_commit (file_abs sch s) (file_abs sch (file_exec sch op s)) gvk e))"
proof (cases "is_write op")
  case True
  with file_write_effect [OF assms True] show ?thesis by auto
next
  case False
  have "mem_inv sch (file_abs sch s)" using inv by (simp add: file_inv_def)
  with file_watch_step [OF inv False] mem_exec_effect [of sch "file_abs sch s" op] bound show ?thesis by simp
qed

lemma file_exec_revision:
  assumes "file_inv sch good s" and "f_revision s < MaxInt64" and "file_op_ok sch good op"
  shows "f_revision s \<le> f_revision (file_exec sch op s)" and "f_revision (file_exec sch op s) \<le> f_revision s + 1"
  using file_exec_effect [OF assms] by (auto simp: mem_quiet_def mem_commit_def)

lemma file_execs_history:
  assumes "file_inv sch good s" and "mem_extends t h (file_abs sch s)" and "list_all (file_op_ok sch good) ops"
    and "f_revision s + int (length ops) \<le> MaxInt64"
  shows "file_inv sch good (file_execs sch ops s) \<and> (\<exists>h'. mem_extends t (h @ h') (file_abs sch (file_execs sch ops s)) \<and> length h' \<le> length ops)"
  using assms
proof (induction ops arbitrary: s h)
  case Nil
  then show ?case by (auto intro: exI [of _ "[]"])
next
  case (Cons op ops)
  let ?s = "file_exec sch op s"
  have bound: "f_revision s < MaxInt64" and ok: "file_op_ok sch good op" using Cons.prems(3,4) by simp_all
  note eff = file_exec_effect [OF Cons.prems(1) bound ok]
  obtain h1 where h1: "mem_extends t (h @ h1) (file_abs sch ?s)" "length h1 \<le> 1"
  proof (cases "mem_quiet (file_abs sch s) (file_abs sch ?s)")
    case True
    then show ?thesis using mem_extends_quiet [OF Cons.prems(2)] by (intro that [of "[]"]) simp_all
  next
    case False
    with eff obtain gvk e where "mem_commit (file_abs sch s) (file_abs sch ?s) gvk e" by blast
    from mem_extends_commit [OF Cons.prems(2) this] show ?thesis by (rule that) (metis One_nat_def length_Cons list.size(3) order_refl)
  qed
  have "f_revision ?s + int (length ops) \<le> MaxInt64"
    using file_exec_revision(2) [OF Cons.prems(1) bound ok] Cons.prems(4) by simp
  with Cons.IH [OF conjunct1 [OF eff] h1(1)] Cons.prems(3) obtain h2 where
    "file_inv sch good (file_execs sch ops ?s)" "mem_extends t ((h @ h1) @ h2) (file_abs sch (file_execs sch ops ?s))" "length h2 \<le> length ops"
    by auto
  with h1(2) show ?case by (auto intro!: exI [of _ "h1 @ h2"])
qed

end

section \<open>The contract of a watched store\<close>

definition fileStore :: "scheme \<Rightarrow> FileStore Store" where
  "fileStore sch =
     \<lparr>st_Get = (\<lambda>s key obj. snd (file_Get sch s key obj)), st_List = file_List sch,
      st_Create = file_Create sch, st_Update = file_Update sch, st_UpdateStatus = file_UpdateStatus sch,
      st_Delete = file_Delete sch, st_Watch = file_Watch sch, st_Recv = file_Recv, st_Stop = file_Stop\<rparr>"

lemma fileStore_simps [simp]:
  "st_List (fileStore sch) = file_List sch" "st_Watch (fileStore sch) = file_Watch sch"
  "st_Recv (fileStore sch) = file_Recv" "st_Stop (fileStore sch) = file_Stop"
  by (simp_all add: fileStore_def)

definition file_ok :: "scheme \<Rightarrow> (object \<Rightarrow> bool) \<Rightarrow> GroupVersionKind \<Rightarrow> string \<Rightarrow> FileStore \<Rightarrow> bool" where
  "file_ok sch good gvk ty s \<longleftrightarrow> json_types sch good \<and> file_inv sch good s \<and> kind_ok sch gvk ty \<and> gvk_ok gvk"

definition file_env :: "scheme \<Rightarrow> (object \<Rightarrow> bool) \<Rightarrow> watcher_id option \<Rightarrow> FileStore \<Rightarrow> FileStore \<Rightarrow> bool" where
  "file_env sch good ox s s' \<longleftrightarrow>
     f_revision s < MaxInt64 \<and>
     (\<exists>op. file_op_ok sch good op \<and> s' = file_exec sch op s \<and> (\<forall>j. ox = Some j \<longrightarrow> op \<noteq> OpRecv j \<and> op \<noteq> OpStop j))"

lemma file_ok_mem: "file_ok sch good gvk ty s \<Longrightarrow> mem_ok sch gvk ty (file_abs sch s)"
  by (simp add: file_ok_def mem_ok_def file_inv_def)

lemma file_ok_step:
  assumes "file_ok sch good gvk ty s" and "\<not> is_write op"
  shows "file_ok sch good gvk ty (file_exec sch op s)" and "file_abs sch (file_exec sch op s) = mem_exec sch op (file_abs sch s)"
  using assms file_watch_step [of sch good s op] by (auto simp: file_ok_def)

lemma file_Watch_Inl: "file_Watch sch s lst opts = (s', Inl e) \<Longrightarrow> s' = s"
  by (auto simp: file_Watch_def Let_def split: sum.splits option.splits)

lemma file_Recv_idle:
  "file_Recv s x = (s', ChanClosed) \<Longrightarrow> s' = s" "file_Recv s x = (s', WouldBlock) \<Longrightarrow> s' = s"
  by (cases "w_ch (f_wheap s x)"; auto simp: file_Recv_def memw_Recv_def Let_def split: if_splits)+

lemma file_list_contract:
  assumes ok: "file_ok sch good gvk ty s" and l: "mem_list_ok sch gvk ty l" and plain: "plain_opts opts"
  shows "\<exists>l' r. file_List sch s l opts = (s, l', None) \<and> mem_list_ok sch gvk ty l' \<and>
    distinct (map ObjectKeyFromObject (Items l')) \<and>
    (\<forall>k o1. mem_view (file_abs sch s) gvk k = Some o1 \<longleftrightarrow> o1 \<in> set (Items l') \<and> ObjectKeyFromObject o1 = k) \<and>
    ParseInt (ListResourceVersion l') = (r, None) \<and> mem_follows gvk (file_abs sch s) r (mem_view (file_abs sch s) gvk) [] \<and>
    mem_fresh (file_abs sch s) r"
proof -
  have f: "json_types sch good" "file_inv sch good s" "kind_ok sch gvk ty" "gvk_ok gvk" using ok by (simp_all add: file_ok_def)
  have minv: "mem_inv sch (file_abs sch s)" using f(2) by (simp add: file_inv_def)
  obtain items where items: "file_List sch s l opts = (s, file_populateListItems sch (l\<lparr>ListResourceVersion := FormatInt (f_revision s)\<rparr>) items)"
      "distinct (map ObjectKeyFromObject items)"
      "set items = {o1. \<exists>k. mem_view (file_abs sch s) gvk k = Some o1 \<and> mem_listMatches (applyListOptions opts) k o1}"
    using json_types.file_List_items [OF f(1,2) _ f(4), of l opts] l by (auto simp: mem_list_ok_def)
  let ?l = "l\<lparr>ListResourceVersion := FormatInt (f_revision s), Items := items\<rparr>"
  have items': "o1 \<in> set items \<longleftrightarrow> (\<exists>k. mem_view (file_abs sch s) gvk k = Some o1)" for o1
    using items(3) plain by (simp add: mem_listMatches_def plain_opts_def)
  have obj: "mem_obj_ok sch (f_revision s) gvk k o1" if "mem_view (file_abs sch s) gvk k = Some o1" for k o1
    using mem_view_Some [OF minv that] by (metis file_abs_simps(4))
  have key: "ObjectKeyFromObject o1 = k" and ty: "GoType o1 = ty" if "mem_view (file_abs sch s) gvk k = Some o1" for k o1
    using obj [OF that] f(3) by (auto simp: mem_obj_ok_def kind_ok_def)
  have "list_all (\<lambda>i. GoType i = ty) items" using items' ty by (auto simp: list_all_iff)
  then have "file_List sch s l opts = (s, ?l, None)"
    using items(1) l by (simp add: file_populateListItems_def mem_list_ok_def)
  moreover have "ListType ?l = ListType l" by simp
  then have "mem_list_ok sch gvk ty ?l" using l by (simp only: mem_list_ok_def mem_gvkForList_def)
  moreover have "ParseInt (FormatInt (f_revision s)) = (f_revision s, None)"
    using mem_revision_bounds [OF minv] by (simp add: is_int64_def MinInt64_def)
  moreover have "mem_history (file_abs sch s) (f_revision s) []"
    using minv unfolding mem_history_def
    by (auto simp: mem_inv_def mem_log_ok_def last_n_all nat_le_iff intro!: exI [of _ "f_eventLog s"])
  then have "mem_follows gvk (file_abs sch s) (f_revision s) (mem_view (file_abs sch s) gvk) []"
    unfolding mem_follows_def by (auto intro!: exI [of _ "[]"])
  ultimately show ?thesis
    using items(2) items' key by (intro exI [of _ ?l] exI [of _ "f_revision s"]) (auto simp: mem_fresh_def)
qed

lemma file_watch_contract:
  assumes ok: "file_ok sch good gvk ty s" and l: "mem_list_ok sch gvk ty l" and plain: "plain_opts opts"
    and f: "mem_follows gvk (file_abs sch s) r b es"
  shows "(\<exists>e. file_Watch sch s l (WatchFromRevision r # opts) = (s, Inl e) \<and> isRevisionTooOld e \<and> \<not> mem_fresh (file_abs sch s) r) \<or>
    (\<exists>s' x. file_Watch sch s l (WatchFromRevision r # opts) = (s', Inr x) \<and> file_ok sch good gvk ty s' \<and>
       mem_view (file_abs sch s') gvk = mem_view (file_abs sch s) gvk \<and> mem_follows gvk (file_abs sch s') r b es \<and>
       mem_live gvk (file_abs sch s') x es)"
proof -
  let ?opts = "WatchFromRevision r # opts"
  obtain s' res where w: "file_Watch sch s l ?opts = (s', res)" by (cases "file_Watch sch s l ?opts")
  then have m: "mem_Watch sch (file_abs sch s) l ?opts = (file_abs sch s', res)" by (simp add: abs_Watch)
  have "file_ok sch good gvk ty s'" using file_ok_step(1) [OF ok, of "OpWatch l ?opts"] w by simp
  with mem_watch_contract [OF file_ok_mem [OF ok] l plain f] m w file_Watch_Inl [of sch s l ?opts s'] show ?thesis by auto
qed

lemma file_recv_contract:
  assumes ok: "file_ok sch good gvk ty s" and sub: "mem_subscribed gvk (file_abs sch s) x es" and recv: "file_Recv s x = (s', Received e)"
  shows "\<exists>es'. es = e # es' \<and> file_ok sch good gvk ty s' \<and> mem_view (file_abs sch s') gvk = mem_view (file_abs sch s) gvk \<and>
    mem_subscribed gvk (file_abs sch s') x es' \<and> (mem_live gvk (file_abs sch s) x es \<longrightarrow> mem_live gvk (file_abs sch s') x es') \<and>
    (\<forall>r b fs. mem_follows gvk (file_abs sch s) r b fs \<longrightarrow> mem_follows gvk (file_abs sch s') r b fs)"
proof -
  have "mem_Recv (file_abs sch s) x = (file_abs sch s', Received e)" using recv by (simp add: abs_Recv)
  moreover have "file_ok sch good gvk ty s'" using file_ok_step(1) [OF ok, of "OpRecv x"] recv by simp
  ultimately show ?thesis using mem_recv_contract [OF file_ok_mem [OF ok] sub] by blast
qed

lemma file_recv_other:
  assumes sub: "mem_subscribed gvk (file_abs sch s) x es"
  shows "file_Recv s x = (s', ChanClosed) \<Longrightarrow> s' = s \<and> \<not> mem_live gvk (file_abs sch s) x es"
    and "file_Recv s x = (s', WouldBlock) \<Longrightarrow> s' = s \<and> es = []"
    and "mem_live gvk (file_abs sch s) x [] \<Longrightarrow> file_Recv s x = (s, WouldBlock)"
proof -
  show "file_Recv s x = (s', ChanClosed) \<Longrightarrow> s' = s \<and> \<not> mem_live gvk (file_abs sch s) x es"
    using mem_recv_other(1) [OF sub] file_Recv_idle(1) [of s x s'] abs_Recv [of sch s x] by simp
  show "file_Recv s x = (s', WouldBlock) \<Longrightarrow> s' = s \<and> es = []"
    using mem_recv_other(2) [OF sub] file_Recv_idle(2) [of s x s'] abs_Recv [of sch s x] by simp
  obtain s1 res where r: "file_Recv s x = (s1, res)" by (cases "file_Recv s x")
  show "mem_live gvk (file_abs sch s) x [] \<Longrightarrow> file_Recv s x = (s, WouldBlock)"
    using mem_recv_other(3) [OF sub] file_Recv_idle(2) [of s x s1] abs_Recv [of sch s x] r by simp
qed

lemma file_env_contract:
  assumes ok: "file_ok sch good gvk ty s" and env: "file_env sch good ox s s'"
  shows "file_ok sch good gvk ty s' \<and>
    (\<exists>es'. (\<forall>r b es. mem_follows gvk (file_abs sch s) r b es \<longrightarrow> mem_follows gvk (file_abs sch s') r b (es @ es')) \<and>
       (\<forall>y es. ox = Some y \<longrightarrow> mem_subscribed gvk (file_abs sch s) y es \<longrightarrow> mem_subscribed gvk (file_abs sch s') y (es @ es')))"
proof -
  obtain op where op: "file_op_ok sch good op" "s' = file_exec sch op s" "\<forall>j. ox = Some j \<longrightarrow> op \<noteq> OpRecv j \<and> op \<noteq> OpStop j"
    and bound: "f_revision s < MaxInt64"
    using env by (auto simp: file_env_def)
  have f: "json_types sch good" "file_inv sch good s" using ok by (simp_all add: file_ok_def)
  have minv: "mem_inv sch (file_abs sch s)" using f(2) by (simp add: file_inv_def)
  have ok': "file_ok sch good gvk ty s'"
    using json_types.file_exec_effect [OF f bound op(1)] ok op(2) by (simp add: file_ok_def)
  show ?thesis
  proof (cases "is_write op")
    case True
    consider "file_abs sch s' = file_abs sch s" | g e where "mem_commit (file_abs sch s) (file_abs sch s') g e"
      using json_types.file_write_effect [OF f bound op(1) True] op(2) by blast
    then show ?thesis
    proof cases
      case 1
      with ok' show ?thesis by (intro conjI exI [of _ "[]"]) auto
    next
      case (2 g e)
      with ok' mem_follows_commit mem_watch_ok_commit [OF minv _ 2] show ?thesis
        by (intro conjI exI [of _ "if g = gvk then [e] else []"]) (auto simp: mem_subscribed_def)
    qed
  next
    case False
    then have "mem_env sch ox (file_abs sch s) (file_abs sch s')"
      using file_watch_step [OF f(2) False] op(2,3) bound by (auto simp: mem_env_def)
    from mem_env_contract [OF file_ok_mem [OF ok] this] ok' show ?thesis by blast
  qed
qed

lemma file_stop_contract:
  assumes ok: "file_ok sch good gvk ty s"
  shows "file_ok sch good gvk ty (file_Stop s x) \<and> mem_view (file_abs sch (file_Stop s x)) gvk = mem_view (file_abs sch s) gvk \<and>
    (\<forall>r b es. mem_follows gvk (file_abs sch s) r b es \<longrightarrow> mem_follows gvk (file_abs sch (file_Stop s x)) r b es) \<and>
    (\<forall>y es. mem_subscribed gvk (file_abs sch s) y es \<longrightarrow> mem_subscribed gvk (file_abs sch (file_Stop s x)) y es)"
  using file_ok_step(1) [OF ok, of "OpStop x"] mem_stop_contract [OF file_ok_mem [OF ok], of x] by (simp add: abs_Stop)

interpretation filewatch: watched_store "fileStore sch" "file_ok sch good gvk ty" "\<lambda>s. mem_view (file_abs sch s) gvk"
  "mem_list_ok sch gvk ty" "\<lambda>s. mem_follows gvk (file_abs sch s)" "\<lambda>s. mem_fresh (file_abs sch s)"
  "\<lambda>s. mem_subscribed gvk (file_abs sch s)" "\<lambda>s. mem_live gvk (file_abs sch s)" "file_env sch good" for sch good gvk ty
  apply unfold_locales
  subgoal by (simp add: mem_follows_def)
  subgoal using mem_follows_next by (auto simp: file_ok_def file_inv_def)
  subgoal using file_list_contract by simp
  subgoal using file_watch_contract by simp
  subgoal by (simp add: mem_live_def)
  subgoal using file_recv_contract by simp
  subgoal using file_recv_other(1) by simp
  subgoal using file_recv_other(2) by simp
  subgoal using file_recv_other(3) unfolding fileStore_simps mem_live_def by blast
  subgoal using file_stop_contract by simp
  subgoal by (rule file_env_contract)
  done

end
