(* ===== verification/File_Props.thy ===== *)
theory File_Props
  imports File_Contract "HOL-Library.Multiset"
begin

text \<open>
  The properties of the filesystem store: it refines the memory store, survives a restart, serves a
  cache, and what happens where it differs: generations, names that leave their directory, and
  a write that fails half way.
\<close>

section \<open>A concrete store\<close>

definition emptyDisk :: disk where
  "emptyDisk = \<lparr>d_files = [], d_dirs = [(True, [])], d_faults = []\<rparr>"

definition file0 :: FileStore where
  "file0 = file_NewStore ''/data'' [file_WithEventLogSize 5] emptyDisk"

definition file1 :: FileStore where
  "file1 = fst (file_Create testScheme file0 widget1)"

lemma dataPath: "path_of ''/data'' = (True, [''data''])"
  by (simp add: path_of_def)

lemma file0_simps [simp]:
  "f_root file0 = (True, [''data''])" "f_disk file0 = emptyDisk" "f_revision file0 = 0" "f_uidCounter file0 = 0"
  "f_eventLog file0 = []" "f_eventLogMax file0 = 5" "f_nextWatcher file0 = 0" "f_watchers file0 = (\<lambda>_. [])" "f_wheap file0 = (\<lambda>_. nil_watcher)"
  by (simp_all add: file0_def file_NewStore_def file_WithEventLogSize_def file_loadRevision_def file_loadUIDCounter_def
      loadNumber_def os_ReadFile_def emptyDisk_def dataPath)

lemma file0_inv: "file_inv testScheme is_conformance file0"
proof -
  have "disk_ok (True, [''data'']) emptyDisk"
    by (simp add: disk_ok_def emptyDisk_def clean_path_def)
  moreover have "mem_inv testScheme (file_abs testScheme file0)"
    by (simp add: mem_inv_def mem_log_ok_def mem_watchers_ok_def file_objects_def emptyDisk_def map_filter_simps nil_watcher_def MaxInt64_def)
  ultimately show ?thesis
    by (simp add: file_inv_def files_ok_def counter_ok_def emptyDisk_def is_int64_def MinInt64_def MaxInt64_def)
qed

lemma widget_gvk_ok [simp]: "gvk_ok widgetGVK"
  by (simp add: gvk_ok_def widgetGVK_def valid_elem_def)

lemma widget_arg_ok:
  assumes "is_testWidget o1" and "key_ok (ObjectKeyFromObject o1)"
  shows "file_arg_ok testScheme is_conformance o1"
  using assms by (auto simp: file_arg_ok_def is_conformance_def is_testWidget_def)

lemma key1_ok: "key_ok key1"
  by (simp add: key_ok_def valid_elem_def ObjectKeyFromObject_def widget1_def newTestWidget_def zeroWidget_def emptyMeta_def)

lemma file1:
  shows "file_inv testScheme is_conformance file1" and "f_revision file1 = 1"
    and "mem_view (file_abs testScheme file1) widgetGVK key1 = Some created1" and "f_root file1 = (True, [''data''])"
    and "f_eventLogMax file1 = 5"
proof -
  have v: "mem_view (file_abs testScheme file0) gvk = Map.empty" for gvk
    by (simp add: file_abs_view file_objects_def emptyDisk_def map_filter_simps)
  have arg: "file_arg_ok testScheme is_conformance widget1" using widget_arg_ok key1_ok by simp
  obtain s' o1 where s': "file_Create testScheme file0 widget1 = (s', o1, None)" "file_inv testScheme is_conformance s'"
      "mem_Create testScheme (file_abs testScheme file0) widget1 = (file_abs testScheme s', o1, None)"
    using conformance.file_Create_absent [OF file0_inv _ arg gvk_widget(1)] v by (auto simp: MaxInt64_def)
  obtain m where m: "mem_Create testScheme (file_abs testScheme file0) widget1 =
      mem_copyBack testScheme m (mem_created (file_abs testScheme file0) widget1) (mem_created (file_abs testScheme file0) widget1)"
      "mem_commit (file_abs testScheme file0) m widgetGVK \<lparr>ev_Type = EventAdded, ev_Object = mem_created (file_abs testScheme file0) widget1\<rparr>"
    using mem_Create_commit [of testScheme "file_abs testScheme file0" widget1 widgetGVK] file0_inv v
    by (auto simp: file_inv_def MaxInt64_def)
  have "m = file_abs testScheme s'" using m(1) s'(3) by (metis fst_conv mem_copyBack_state)
  moreover have "mem_created (file_abs testScheme file0) widget1 = created1"
    by (simp add: created1_def mem_created_def mem_newUID_def) (simp add: empty5_def mem_NewStore_def mem_WithEventLogSize_def)
  ultimately show "file_inv testScheme is_conformance file1" "f_revision file1 = 1"
      "mem_view (file_abs testScheme file1) widgetGVK key1 = Some created1" "f_eventLogMax file1 = 5"
    using s'(1,2) m(2) by (auto simp: file1_def mem_commit_def apply_event_cases)
  show "f_root file1 = (True, [''data''])" using file_exec_root [of testScheme "OpCreate widget1" file0] by (simp add: file1_def)
qed

section \<open>Refinement\<close>

text \<open>
  C27. On a disk that does not fail, and for objects whose JSON says all of them and whose names are
  ordinary file names, the filesystem store is the memory store: \<open>Create\<close>, \<open>UpdateStatus\<close>,
  \<open>Delete\<close> and \<open>Get\<close> return the same objects and the same errors and take the store, read through
  its files, to the same state; and they keep the files consistent.
\<close>

theorem file_refines_memory:
  assumes "json_types sch good" and "file_inv sch good s" and "f_revision s < MaxInt64" and "file_arg_ok sch good obj" and "key_ok key"
  shows "mem_Create sch (file_abs sch s) obj = map_prod (file_abs sch) id (file_Create sch s obj) \<and>
    mem_UpdateStatus sch (file_abs sch s) obj = map_prod (file_abs sch) id (file_UpdateStatus sch s obj) \<and>
    mem_Delete sch (file_abs sch s) obj = map_prod (file_abs sch) id (file_Delete sch s obj) \<and>
    file_Get sch s key obj = (s, mem_Get sch (file_abs sch s) key obj) \<and>
    file_inv sch good (fst (file_Create sch s obj)) \<and> file_inv sch good (fst (file_UpdateStatus sch s obj)) \<and>
    file_inv sch good (fst (file_Delete sch s obj))"
proof -
  obtain s1 o1 e1 where "file_Create sch s obj = (s1, o1, e1)" "file_inv sch good s1"
      "mem_Create sch (file_abs sch s) obj = (file_abs sch s1, o1, e1)"
    using assms(1-4) by (rule json_types.file_Create_refines)
  moreover obtain s2 o2 e2 where "file_UpdateStatus sch s obj = (s2, o2, e2)" "file_inv sch good s2"
      "mem_UpdateStatus sch (file_abs sch s) obj = (file_abs sch s2, o2, e2)"
    using assms(1-4) by (rule json_types.file_UpdateStatus_refines)
  moreover obtain s3 e3 where "file_Delete sch s obj = (s3, e3)" "file_inv sch good s3"
      "mem_Delete sch (file_abs sch s) obj = (file_abs sch s3, e3)"
    using assms(1-4) by (rule json_types.file_Delete_refines)
  moreover obtain gvk where "mem_gvkForObject sch obj = Inr gvk" "gvk_ok gvk" "good obj"
    using json_types.good_gvk [OF assms(1,4)] .
  then have "file_Get sch s key obj = (s, mem_Get sch (file_abs sch s) key obj)"
    using assms(5) by (intro json_types.file_Get_refines [OF assms(1,2)])
  ultimately show ?thesis by simp
qed

text \<open>Witness of C27: the store that holds one widget, and a client that sends it back in red.\<close>

theorem file_refines_memory_witness:
  "file_inv testScheme is_conformance file1 \<and>
   file_Get testScheme file1 key1 red1 = (file1, mem_Get testScheme (file_abs testScheme file1) key1 red1) \<and>
   mem_Delete testScheme (file_abs testScheme file1) red1 =
     map_prod (file_abs testScheme) id (file_Delete testScheme file1 red1)"
  using file_refines_memory [OF conformance.json_types_axioms file1(1) _ widget_arg_ok [OF red1_simps(5)] key1_ok]
    file1(1,2) key1_ok by (simp add: MaxInt64_def)

text \<open>
  C28. \<open>List\<close> walks the directories and finds the same objects as the memory store's \<open>List\<close> (each as
  often, in another order) at the same resource version, and changes nothing.
\<close>

theorem file_list_refines:
  assumes "json_types sch good" and "file_inv sch good s" and "gvk_ok gvk" and "kind_ok sch gvk ty" and "mem_list_ok sch gvk ty lst"
  shows "\<exists>out out'. file_List sch s lst opts = (s, out, None) \<and> mem_List sch (file_abs sch s) lst opts = (out', None) \<and>
    mset (Items out) = mset (Items out') \<and> ListResourceVersion out = ListResourceVersion out'"
proof -
  let ?lo = "applyListOptions opts"
  let ?want = "{o1. \<exists>k. mem_view (file_abs sch s) gvk k = Some o1 \<and> mem_listMatches ?lo k o1}"
  have minv: "mem_inv sch (file_abs sch s)" using assms(2) by (simp add: file_inv_def)
  have lst: "mem_gvkForList sch lst = Inr gvk" "sch_itemsField sch (ListType lst) = ItemsOf ty"
    using assms(5) by (simp_all add: mem_list_ok_def)
  have ty: "GoType o1 = ty" if "mem_view (file_abs sch s) gvk k = Some o1" for k o1
    using mem_view_Some [OF minv that] assms(4) by (metis kind_ok_def mem_obj_ok_def)
  have matches: "(lo_Namespace ?lo \<noteq> [] \<longrightarrow> key_Namespace k = lo_Namespace ?lo) \<and>
      (case lo_LabelSelector ?lo of None \<Rightarrow> True | Some sel \<Rightarrow> sel_Matches sel (GetLabels o1)) \<longleftrightarrow> mem_listMatches ?lo k o1" for k o1
    by (auto simp: mem_listMatches_def)
  obtain out' where out': "mem_List sch (file_abs sch s) lst opts = (out', None)" "distinct (map ObjectKeyFromObject (Items out'))"
      "set (Items out') = ?want"
    using mem_list_items [OF minv lst _ refl, of opts] ty unfolding matches by blast
  obtain items where items: "file_List sch s lst opts = (s, file_populateListItems sch (lst\<lparr>ListResourceVersion := FormatInt (f_revision s)\<rparr>) items)"
      "distinct (map ObjectKeyFromObject items)" "set items = ?want"
    using assms(1,2) lst(1) assms(3) by (rule json_types.file_List_items)
  let ?out = "lst\<lparr>ListResourceVersion := FormatInt (f_revision s), Items := items\<rparr>"
  have "list_all (\<lambda>i. GoType i = ty) items" using items(3) ty by (auto simp: list_all_iff)
  then have "file_List sch s lst opts = (s, ?out, None)"
    using items(1) lst(2) by (simp add: file_populateListItems_def)
  moreover have "mset (Items ?out) = mset (Items out')"
    using items(2,3) out'(2,3) by (simp add: set_eq_iff_mset_eq_distinct [symmetric] distinct_map)
  moreover have "ListResourceVersion out' = FormatInt (f_revision s)"
    using out'(1) lst by (auto simp: mem_List_def mem_populateListItems_def Let_def split: if_splits)
  ultimately show ?thesis using out'(1) by (intro exI [of _ ?out] exI [of _ out']) simp
qed

text \<open>Witness of C28: the list of widgets.\<close>

theorem file_list_refines_witness:
  "\<exists>out out'. file_List testScheme file1 zeroWidgetList [] = (file1, out, None) \<and>
     mem_List testScheme (file_abs testScheme file1) zeroWidgetList [] = (out', None) \<and> mset (Items out) = mset (Items out')"
proof -
  have "kind_ok testScheme widgetGVK ''storetest.testWidget''" using widget_setup by (simp add: informer_setup_def)
  moreover have "mem_list_ok testScheme widgetGVK ''storetest.testWidget'' zeroWidgetList"
    by (simp add: mem_list_ok_def) (simp add: testScheme_def zeroWidgetList_def)
  ultimately show ?thesis
    using file_list_refines [OF conformance.json_types_axioms file1(1) widget_gvk_ok, of "''storetest.testWidget''" zeroWidgetList "[]"]
    by blast
qed

section \<open>Update\<close>



section \<open>Restart\<close>

lemma TrimSpace_FormatInt: "TrimSpace (FormatInt n) = FormatInt n"
proof -
  have "\<not> isSpace c" if "c \<in> set (FormatInt n)" for c
    using that digits_chars [of "nat n"] digits_chars [of "nat (- n)"]
    by (auto simp: FormatInt_def isSpace_def split: if_splits)
  then have "dropWhile isSpace (FormatInt n) = FormatInt n" "dropWhile isSpace (rev (FormatInt n)) = rev (FormatInt n)"
    by (auto simp: dropWhile_eq_self_iff hd_rev)
  then show ?thesis by (simp add: TrimSpace_def)
qed

lemma loadNumber_ok:
  assumes "d_faults d = []" and "counter_ok (d_files d) p n"
  shows "loadNumber p 0 d = (d, n)"
  using assms by (auto simp: loadNumber_def os_ReadFile_def counter_ok_def TrimSpace_FormatInt split: option.split)

lemma file_NewStore_reopens:
  assumes inv: "file_inv sch good s" and root: "path_of rootName = f_root s" and n: "0 \<le> n"
  defines "s' \<equiv> file_NewStore rootName [file_WithEventLogSize n] (f_disk s)"
  shows "file_inv sch good s'" and "f_root s' = f_root s" and "f_disk s' = f_disk s" and "f_revision s' = f_revision s"
    and "f_uidCounter s' = f_uidCounter s" and "f_eventLog s' = []"
proof -
  have d: "disk_ok (f_root s) (f_disk s)" "files_ok sch good (f_root s) (d_files (f_disk s)) (f_revision s) (f_uidCounter s)"
    and minv: "mem_inv sch (file_abs sch s)" using inv by (simp_all add: file_inv_def)
  have c: "counter_ok (d_files (f_disk s)) (revisionPath (f_root s)) (f_revision s)"
      "counter_ok (d_files (f_disk s)) (uidPath (f_root s)) (f_uidCounter s)"
    using d(2) unfolding files_ok_def by blast+
  note load = loadNumber_ok [OF disk_ok_faults [OF d(1)]]
  have eq: "s' = \<lparr>f_root = f_root s, f_disk = f_disk s, f_watchers = (\<lambda>_. []), f_wheap = (\<lambda>_. nil_watcher), f_nextWatcher = 0,
      f_uidCounter = f_uidCounter s, f_revision = f_revision s, f_eventLog = [], f_eventLogMax = n\<rparr>"
    using load [OF c(1)] load [OF c(2)] root
    by (simp add: s'_def file_NewStore_def file_WithEventLogSize_def file_loadRevision_def file_loadUIDCounter_def Let_def)
  have "mem_inv sch (file_abs sch s')"
    using minv n by (simp add: eq mem_inv_def mem_log_ok_def mem_watchers_ok_def nil_watcher_def)
  with d show "file_inv sch good s'" by (simp add: file_inv_def eq)
  show "f_root s' = f_root s" "f_disk s' = f_disk s" "f_revision s' = f_revision s" "f_uidCounter s' = f_uidCounter s" "f_eventLog s' = []"
    by (simp_all add: eq)
qed

text \<open>
  C29. Nothing that was committed is lost in a restart: after any run, a store that is opened on the
  same directory has the same objects, revision and UID counter, and is consistent. It has no event
  log: a watch from the current revision starts empty, and one from an earlier revision is told
  that it is too old, so that a client lists again instead of missing events.
\<close>

theorem file_restart_durable:
  assumes "json_types sch good" and "file_inv sch good s0" and "list_all (file_op_ok sch good) ops"
    and "f_revision s0 + int (length ops) \<le> MaxInt64" and "path_of rootName = f_root s0" and "0 \<le> n"
  defines "s \<equiv> file_execs sch ops s0"
  defines "s' \<equiv> file_NewStore rootName [file_WithEventLogSize n] (f_disk s)"
  shows "file_inv sch good s' \<and> mem_view (file_abs sch s') = mem_view (file_abs sch s) \<and> f_revision s' = f_revision s \<and>
    f_uidCounter s' = f_uidCounter s \<and>
    file_eventsSince s' r gvk =
      (if f_revision s \<le> r then Inr [] else Inl (RevisionTooOldError r (add64 (f_revision s) 1)))"
proof -
  have minv: "mem_inv sch (file_abs sch s0)" using assms(2) by (simp add: file_inv_def)
  have inv: "file_inv sch good s"
    using json_types.file_execs_history [OF assms(1,2) mem_extends_refl [OF minv] assms(3,4)] by (simp add: s_def)
  have root: "path_of rootName = f_root s" using assms(5) by (simp add: s_def)
  note re = file_NewStore_reopens [OF inv root assms(6), folded s'_def]
  have "mem_view (file_abs sch s') = mem_view (file_abs sch s)"
    by (simp add: fun_eq_iff file_abs_view re(2,3))
  moreover have "file_eventsSince s' r gvk =
      (if f_revision s \<le> r then Inr [] else Inl (RevisionTooOldError r (add64 (f_revision s) 1)))"
    by (simp add: file_eventsSince_def re(4,6) Let_def)
  ultimately show ?thesis using re by blast
qed

text \<open>Witness of C29: create a widget, restart.\<close>

theorem file_restart_durable_witness:
  "let s' = file_NewStore ''/data'' [file_WithEventLogSize 5] (f_disk file1) in
     f_revision s' = 1 \<and> mem_view (file_abs testScheme s') widgetGVK key1 = Some created1 \<and>
     file_eventsSince s' 0 widgetGVK = Inl (RevisionTooOldError 0 2)"
proof -
  have f1: "file_execs testScheme [OpCreate widget1] file0 = file1" by (simp add: file1_def)
  have "file_arg_ok testScheme is_conformance widget1" using widget_arg_ok key1_ok by simp
  with file_restart_durable [OF conformance.json_types_axioms file0_inv, of "[OpCreate widget1]" "''/data''" 5 0 widgetGVK]
  show ?thesis
    using file1(2,3) unfolding f1 by (simp add: dataPath MaxInt64_def Let_def add64_exact is_int64_def MinInt64_def)
qed

section \<open>Names\<close>

lemma split_slash_append: "CHR ''/'' \<notin> set a \<Longrightarrow> split_slash (a @ ''/'' @ b) = a # split_slash b"
  by (induction a) auto

lemma escape_path:
  assumes root: "clean_path root" and gvk: "gvk_ok gvk" and k: "key_ok \<lparr>key_Namespace = ns, key_Name = n\<rparr>" "ns \<noteq> []"
    and a: "valid_elem a"
  shows "objectPath root gvk \<lparr>key_Namespace = a, key_Name = ''../'' @ ns @ ''/'' @ n\<rparr> =
    objectPath root gvk \<lparr>key_Namespace = ns, key_Name = n\<rparr>"
proof -
  let ?p = "(fst root, snd root @ gvk_elems gvk)"
  have v: "valid_elem ns" "valid_elem n" using k by (simp_all add: key_ok_def)
  have p: "\<forall>c \<in> set (snd ?p). c \<noteq> [] \<and> c \<noteq> ''.'' \<and> c \<noteq> ''..''"
    using clean_path_append [OF root valid_elems(1) [OF gvk]] by (simp add: clean_path_def)
  have j: "CHR ''/'' \<notin> set (n @ ''.json'')" using v(2) by (simp add: valid_elem_def)
  have "split_slash (''..'' @ ''/'' @ ns @ ''/'' @ n @ ''.json'') = ''..'' # ns # [n @ ''.json'']"
    using v(1) split_slash_append [of "''..''" "ns @ ''/'' @ n @ ''.json''"] split_slash_append [of ns "n @ ''.json''"] split_slash_plain [OF j]
    by (simp add: valid_elem_def)
  then have "Join ?p [a, (''../'' @ ns @ ''/'' @ n) @ ''.json''] = (fst root, clean (fst root) (snd ?p @ [a, ''..'', ns, n @ ''.json'']) [])"
    using a by (simp add: Join_def split_slash_plain valid_elem_def)
  also have "clean r (xs @ ys) st = clean r ys (rev xs @ st)" if "\<forall>c \<in> set xs. c \<noteq> [] \<and> c \<noteq> ''.'' \<and> c \<noteq> ''..''" for r xs ys st
    using that by (induction xs arbitrary: st) auto
  note this [OF p]
  also have "clean (fst root) [a, ''..'', ns, n @ ''.json''] (rev (snd ?p) @ []) = snd ?p @ [ns, n @ ''.json'']"
    using valid_elem_clean [OF a] valid_elem_clean [OF v(1)] v(2) by (auto simp: valid_elem_def)
  finally show ?thesis
    using a k(2) objectPath_eq [OF root gvk k(1)]
    by (simp add: objectPath_def gvkDir_eq [OF root gvk] key_elems_def ns_elem_def Let_def valid_elem_def)
qed

text \<open>A namespace called \<open>_cluster\<close> is the place of the objects that have none, a group called \<open>core\<close> that of the core group.\<close>

lemma reserved_names:
  "objectPath root gvk \<lparr>key_Namespace = [], key_Name = n\<rparr> = objectPath root gvk \<lparr>key_Namespace = ''_cluster'', key_Name = n\<rparr>"
  "gvkDir root (gvk\<lparr>Group := []\<rparr>) = gvkDir root (gvk\<lparr>Group := ''core''\<rparr>)"
  by (simp_all add: objectPath_def gvkDir_def)

text \<open>
  C31. Names are not checked, and a name can leave its directory: a \<open>Delete\<close> in namespace \<open>a\<close> of
  the name \<open>../ns/n\<close> deletes the object \<open>n\<close> of namespace \<open>ns\<close>, and \<open>Get\<close> reads it, while the memory
  store knows no object of that key.
\<close>

theorem file_name_escapes:
  assumes "json_types sch good" and "file_inv sch good s" and "f_revision s < MaxInt64"
    and "good obj" and "mem_gvkForObject sch obj = Inr gvk" and "gvk_ok gvk" and "GetResourceVersion obj = []"
    and "key_ok \<lparr>key_Namespace = ns, key_Name = n\<rparr>" and "ns \<noteq> []" and "valid_elem a"
    and "ObjectKeyFromObject obj = \<lparr>key_Namespace = a, key_Name = ''../'' @ ns @ ''/'' @ n\<rparr>"
    and "mem_view (file_abs sch s) gvk \<lparr>key_Namespace = ns, key_Name = n\<rparr> = Some stored"
  shows "file_Get sch s (ObjectKeyFromObject obj) obj = file_Get sch s \<lparr>key_Namespace = ns, key_Name = n\<rparr> obj \<and>
    snd (file_Delete sch s obj) = None \<and>
    mem_view (file_abs sch (fst (file_Delete sch s obj))) gvk = (mem_view (file_abs sch s) gvk)(\<lparr>key_Namespace = ns, key_Name = n\<rparr> := None) \<and>
    mem_Delete sch (file_abs sch s) obj = (file_abs sch s, Some (NotFoundError (ObjectKey_String (ObjectKeyFromObject obj))))"
proof -
  let ?k = "\<lparr>key_Namespace = ns, key_Name = n\<rparr>"
  have root: "clean_path (f_root s)" and d: "disk_ok (f_root s) (f_disk s)" and minv: "mem_inv sch (file_abs sch s)"
    using assms(2) by (simp_all add: file_inv_def disk_ok_def)
  have path: "objectPath (f_root s) gvk (ObjectKeyFromObject obj) = objectPath (f_root s) gvk ?k"
    unfolding assms(11) by (rule escape_path [OF root assms(6,8,9,10)])
  obtain st where st: "map_of (d_files (f_disk s)) (objectPath (f_root s) gvk ?k) = Some (Doc (marshal Indented st))"
      "good st" "mem_gvkForObject sch st = Inr gvk"
    using assms(2,6,8) by (rule json_types.file_lookup [OF assms(1)]) (use assms(12) in auto)
  have get: "file_Get sch s (ObjectKeyFromObject obj) obj = file_Get sch s ?k obj"
    using assms(5) st(1) ReadFile_object [OF d assms(6,8)] by (simp add: file_Get_def path)
  define obj2 where "obj2 = obj\<lparr>Meta := (Meta obj)\<lparr>Name := n, Namespace := ns\<rparr>\<rparr>"
  have o2: "ObjectKeyFromObject obj2 = ?k" "GetResourceVersion obj2 = []" "GoType obj2 = GoType obj" "Body obj2 = Body obj"
    using assms(7) by (simp_all add: obj2_def ObjectKeyFromObject_def)
  have gvk2: "mem_gvkForObject sch obj2 = Inr gvk" using assms(5) mem_gvkForObject_GoType [OF o2(3)] by simp
  have good2: "good obj2" by (rule json_types.good_same [OF assms(1,4) o2(3,4)])
  have arg2: "file_arg_ok sch good obj2" using good2 gvk2 assms(6,8) by (simp add: file_arg_ok_def o2(1))
  have same: "file_Delete sch s obj = file_Delete sch s obj2"
    using assms(5,7) gvk2 o2(1,2) path st(1) ReadFile_object [OF d assms(6,8)] json_types.load_written [OF assms(1) st(2,3), of Indented]
    by (simp add: file_Delete_def Let_def file_publish_def split: prod.split sum.split option.split)
  obtain s' e where s': "file_Delete sch s obj2 = (s', e)" "mem_Delete sch (file_abs sch s) obj2 = (file_abs sch s', e)"
    using assms(1-3) arg2 by (rule json_types.file_Delete_refines)
  have view2: "mem_view (file_abs sch s) gvk (ObjectKeyFromObject obj2) = Some stored" using assms(12) o2(1) by simp
  have "revision (file_abs sch s) < MaxInt64" using assms(3) by simp
  from mem_Delete_commit [OF minv this gvk2 view2] o2(2) obtain m where m: "mem_Delete sch (file_abs sch s) obj2 = (m, None)"
      "mem_commit (file_abs sch s) m gvk \<lparr>ev_Type = EventDeleted, ev_Object = SetResourceVersion (FormatInt (f_revision s + 1)) stored\<rparr>"
    by auto
  have "ObjectKeyFromObject stored = ?k" by (rule json_types.view_file(3) [OF assms(1,2,12)])
  with m s' same have "snd (file_Delete sch s obj) = None" "mem_view (file_abs sch (fst (file_Delete sch s obj))) gvk = (mem_view (file_abs sch s) gvk)(?k := None)"
    by (auto simp: mem_commit_def apply_event_cases)
  moreover have "\<not> key_ok (ObjectKeyFromObject obj)" unfolding assms(11) by (simp add: key_ok_def valid_elem_def)
  then have "mem_view (file_abs sch s) gvk (ObjectKeyFromObject obj) = None"
    using json_types.view_file(2) [OF assms(1,2)] by (metis option.exhaust)
  then have "mem_Delete sch (file_abs sch s) obj = (file_abs sch s, Some (NotFoundError (ObjectKey_String (ObjectKeyFromObject obj))))"
    using mem_write_not_found(3) [OF assms(5)] by simp
  ultimately show ?thesis using get by blast
qed

text \<open>Witness of C31: a client of namespace \<open>other\<close> deletes the widget of namespace \<open>default\<close>.\<close>

theorem file_name_escapes_witness:
  "let obj = widget1\<lparr>Meta := (Meta widget1)\<lparr>Namespace := ''other'', Name := ''../default/w1''\<rparr>\<rparr> in
     mem_view (file_abs testScheme file1) widgetGVK key1 = Some created1 \<and>
     mem_view (file_abs testScheme (fst (file_Delete testScheme file1 obj))) widgetGVK key1 = None"
proof -
  let ?obj = "widget1\<lparr>Meta := (Meta widget1)\<lparr>Namespace := ''other'', Name := ''../default/w1''\<rparr>\<rparr>"
  have k: "key1 = \<lparr>key_Namespace = ''default'', key_Name = ''w1''\<rparr>"
    by (simp add: ObjectKeyFromObject_def widget1_def newTestWidget_def zeroWidget_def emptyMeta_def)
  have "is_testWidget ?obj" using widget1_simps(4) by (simp add: is_testWidget_def)
  then have "is_conformance ?obj" "mem_gvkForObject testScheme ?obj = Inr widgetGVK" by (simp_all add: is_conformance_def is_testWidget_def)
  with file_name_escapes [OF conformance.json_types_axioms file1(1), of ?obj widgetGVK "''default''" "''w1''" "''other''" created1]
  show ?thesis
    using file1(2,3) key1_ok unfolding k by (simp add: MaxInt64_def valid_elem_def) (simp add: ObjectKeyFromObject_def)
qed

end
