(* ===== verification/Conformance_File.thy ===== *)
theory Conformance_File
  imports Conformance_Memory File_Props
begin

text \<open>
  The filesystem store under the conformance suite: the configuration of \<open>filesystem/store_test.go\<close>
  over an empty disk, the sequential subtests by evaluation, and the filesystem store as a
  \<open>widget_store\<close> through the abstraction \<open>file_abs\<close>.
\<close>

section \<open>The configuration of \<open>filesystem/store_test.go\<close>\<close>

definition fileConfig :: "FileStore Config" where
  "fileConfig =
     \<lparr>NewStore = (\<lambda>sch. (fileStore sch, file_NewStore ''/data'' [] emptyDisk)),
      NewSmallEventLogStore = Some (\<lambda>sch. (fileStore sch, file_NewStore ''/data'' [file_WithEventLogSize 5] emptyDisk)),
      SkipWatchOverflow = False, SkipWatchEventHistory = False,
      SkipConcurrencyWatchCount = False, SkipGlobalRevisionMonotonicity = False\<rparr>"

lemma fileConfig_simps [simp]:
  "NewStore fileConfig sch = (fileStore sch, file_NewStore ''/data'' [] emptyDisk)"
  "NewSmallEventLogStore fileConfig = Some (\<lambda>sch. (fileStore sch, file_NewStore ''/data'' [file_WithEventLogSize 5] emptyDisk))"
  "\<not> SkipWatchOverflow fileConfig" "\<not> SkipGlobalRevisionMonotonicity fileConfig" "\<not> SkipConcurrencyWatchCount fileConfig"
  by (simp_all add: fileConfig_def)

lemma fileStore_writes [simp]:
  "st_Get (fileStore sch) s key obj = snd (file_Get sch s key obj)" "st_Create (fileStore sch) = file_Create sch"
  "st_Update (fileStore sch) = file_Update sch" "st_UpdateStatus (fileStore sch) = file_UpdateStatus sch"
  "st_Delete (fileStore sch) = file_Delete sch"
  by (simp_all add: fileStore_def)

section \<open>Sequential subtests\<close>

lemma file_testCreate: "passes (testCreate (libOf p) fileConfig)"
  by code_simp

lemma file_testGet: "passes (testGet (libOf p) fileConfig)"
  by code_simp

lemma file_testUpdate: "passes (testUpdate (libOf p) fileConfig)"
  by code_simp

lemma file_testDelete: "passes (testDelete (libOf p) fileConfig)"
  by code_simp

lemma file_testGeneration: "passes (testGeneration fileConfig)"
  by code_simp

lemma file_testUpdateStatus: "passes (testUpdateStatus (libOf p) fileConfig)"
  by code_simp

lemma file_list_tests:
  "list_all_objects fileConfig = Some ()" "list_empty_store fileConfig = Some ()"
  "list_by_namespace fileConfig = Some ()" "list_sets_ResourceVersion_on_metadata fileConfig = Some ()"
  by code_simp+

lemma file_list_by_label_selector:
  assumes "p ''color=blue'' = Inr (blueSelector b)"
  shows "list_by_label_selector (libOf p) fileConfig = Some ()"
  unfolding list_by_label_selector_def parse_blue [of p, OF assms] by code_simp

lemma file_watch_tests:
  "watch_streams_events fileConfig = Some ()" "watch_WatchFromRevision_replays fileConfig = Some ()"
  "watch_WatchFromRevision_no_gap fileConfig = Some ()" "watch_replay_mixed_event_types fileConfig = Some ()"
  "watch_replay_filters_by_GVK fileConfig = Some ()"
  by code_simp+

lemma file_split_tests:
  "split_update_preserves_status fileConfig = Some ()" "split_update_ignores_input_status fileConfig = Some ()"
  "split_update_status_preserves_spec fileConfig = Some ()" "split_deep_copy_isolation fileConfig = Some ()"
  "split_delete_without_resource_version (libOf p) fileConfig = Some ()"
  "split_delete_with_resource_version fileConfig = Some ()"
  by code_simp+

lemma file_invariants_tests:
  "invariants_noop_update_suppresses_event fileConfig = Some ()"
  "invariants_watch_resumption_no_gap fileConfig = Some ()" "invariants_resourceversion_is_numeric fileConfig = Some ()"
  by code_simp+

section \<open>The filesystem store as a store of widgets\<close>

lemma suite_key_ok: "suite_key key \<Longrightarrow> key_ok key"
proof -
  assume "suite_key key"
  then obtain pfx i where k: "pfx \<in> suite_prefixes" "key = defaultKey (pfx @ FormatInt (int i))"
    unfolding suite_key_def by blast
  have "CHR ''/'' \<notin> set (FormatInt (int i))" using FormatInt_chars [of "int i"] by auto
  with k show ?thesis by (auto simp: key_ok_def valid_elem_def suite_prefixes_def)
qed

abbreviation file_widgets :: "FileStore \<Rightarrow> bool" where
  "file_widgets \<equiv> file_inv testScheme is_conformance"

abbreviation file_setw :: "watcher_id \<Rightarrow> memoryWatcher \<Rightarrow> FileStore \<Rightarrow> FileStore" where
  "file_setw x w s \<equiv> s\<lparr>f_wheap := (f_wheap s)(x := w)\<rparr>"

lemma file_setw_abs:
  "file_abs sch (file_setw x w s) = (file_abs sch s)\<lparr>wheap := (wheap (file_abs sch s))(x := w)\<rparr>"
  by (simp add: file_abs_def)

lemma suite_arg_ok:
  assumes "is_testWidget obj" and "suite_key (ObjectKeyFromObject obj)"
  shows "file_arg_ok testScheme is_conformance obj"
  using assms by (intro widget_arg_ok suite_key_ok)

lemma file_widgets_inv: "file_widgets s \<Longrightarrow> mem_inv testScheme (file_abs testScheme s)"
  by (simp add: file_inv_def)

lemma file_widget_create:
  assumes "file_widgets s" and "revision (file_abs testScheme s) < MaxInt64"
    and obj: "is_testWidget obj" "suite_key (ObjectKeyFromObject obj)"
    and "mem_view (file_abs testScheme s) widgetGVK (ObjectKeyFromObject obj) = None"
  defines "new \<equiv> mem_created (file_abs testScheme s) obj"
  shows "\<exists>s'. file_Create testScheme s obj = (s', new, None) \<and> file_widgets s' \<and>
    mem_commit (file_abs testScheme s) (file_abs testScheme s') widgetGVK \<lparr>ev_Type = EventAdded, ev_Object = new\<rparr>"
proof -
  have bound: "f_revision s < MaxInt64" using assms(2) by simp
  obtain m where m: "mem_Create testScheme (file_abs testScheme s) obj = (m, new, None)"
      "mem_commit (file_abs testScheme s) m widgetGVK \<lparr>ev_Type = EventAdded, ev_Object = new\<rparr>"
    using widget_create [OF file_widgets_inv [OF assms(1)] assms(2) obj(1) assms(5)] unfolding new_def by metis
  obtain s' o1 e where "file_Create testScheme s obj = (s', o1, e)" "file_widgets s'"
      "mem_Create testScheme (file_abs testScheme s) obj = (file_abs testScheme s', o1, e)"
    using assms(1) bound suite_arg_ok [OF obj] by (rule conformance.file_Create_refines)
  with m show ?thesis by simp
qed

lemma file_widget_update:
  assumes "file_widgets s" and "revision (file_abs testScheme s) < MaxInt64"
    and obj: "is_testWidget obj" "suite_key (ObjectKeyFromObject obj)"
    and st: "mem_view (file_abs testScheme s) widgetGVK (ObjectKeyFromObject obj) = Some stored" "is_testWidget stored"
    and "GetResourceVersion obj = GetResourceVersion stored" and "GetSpec obj \<noteq> GetSpec stored"
  shows "\<exists>s' new w. file_Update testScheme s obj = (s', w, None) \<and> file_widgets s' \<and>
    mem_commit (file_abs testScheme s) (file_abs testScheme s') widgetGVK \<lparr>ev_Type = EventModified, ev_Object = new\<rparr> \<and>
    is_testWidget new \<and> ObjectKeyFromObject new = ObjectKeyFromObject obj \<and>
    GetSpec new = GetSpec obj \<and> GetStatus new = GetStatus stored \<and>
    is_testWidget w \<and> ObjectKeyFromObject w = ObjectKeyFromObject obj \<and>
    GetResourceVersion w = GetResourceVersion new"
proof -
  let ?new = "\<lambda>m. SetResourceVersion (FormatInt (f_revision s + 1)) (SetGeneration (file_nextGeneration stored obj) m)"
  have bound: "f_revision s < MaxInt64" using assms(2) by simp
  note gvk = gvk_widget(1) [OF widget_GoType [OF obj(1)]]
  obtain m where m: "GoType m = GoType obj"
      "Meta m = (Meta obj)\<lparr>ResourceVersion := GetResourceVersion stored, UID := GetUID stored, Generation := GetGeneration stored\<rparr>"
      "\<forall>k. fmlookup (Body m) k = (if k = ''status'' then GetStatus stored else fmlookup (Body obj) k)"
      "marshal Indented m \<noteq> marshal Indented stored \<longrightarrow> (\<exists>s' o2. file_Update testScheme s obj = (s', o2, None) \<and> file_widgets s' \<and>
        mem_commit (file_abs testScheme s) (file_abs testScheme s') widgetGVK \<lparr>ev_Type = EventModified, ev_Object = ?new m\<rparr> \<and>
        unmarshalInto testScheme (marshal Compact (?new m)) obj = Inr o2)"
    by (rule conformance.file_Update_present [OF assms(1) bound suite_arg_ok [OF obj] gvk st(1) assms(7)])
  have "GetSpec m \<noteq> GetSpec stored" using m(3) assms(8) by simp
  then have "marshal Indented m \<noteq> marshal Indented stored" by (auto simp: marshal_eq_iff)
  with m(4) obtain s' w where s': "file_Update testScheme s obj = (s', w, None)" "file_widgets s'"
      "mem_commit (file_abs testScheme s) (file_abs testScheme s') widgetGVK \<lparr>ev_Type = EventModified, ev_Object = ?new m\<rparr>"
      "unmarshalInto testScheme (marshal Compact (?new m)) obj = Inr w" by blast
  have "is_testWidget m" using widget_merge_body [OF obj(1) st(2) _ m(3)] m(1) obj(1) by simp
  then have new: "is_testWidget (?new m)" by (simp add: is_testWidget_def)
  have key: "ObjectKeyFromObject (?new m) = ObjectKeyFromObject obj"
    using m(2) by (simp add: ObjectKeyFromObject_def setter_defs)
  have w: "mem_copyBack testScheme (file_abs testScheme s) (?new m) obj = (file_abs testScheme s, w, None)"
    using s'(4) by (simp add: mem_copyBack_def mem_copyObject_def)
  obtain w' where "mem_copyBack testScheme (file_abs testScheme s) (?new m) obj = (file_abs testScheme s, w', None)"
      "GoType w' = ''storetest.testWidget''" "Meta w' = meta_into (Meta (?new m)) (Meta obj)" "Body w' = Body (?new m)"
    using new obj(1) by (rule widget_copyBack)
  with w have wm: "GoType w = ''storetest.testWidget''" "Meta w = meta_into (Meta (?new m)) (Meta obj)" "Body w = Body (?new m)"
    by simp_all
  have "is_testWidget w" using new wm(1,3) by (simp add: is_testWidget_def)
  moreover have "GetResourceVersion w = GetResourceVersion (?new m)" using wm(2) by (simp add: meta_into_def)
  moreover have "GetSpec (?new m) = GetSpec obj" "GetStatus (?new m) = GetStatus stored" using m(3) by simp_all
  ultimately show ?thesis
    using s'(1-3) new key key_of_meta_into [OF wm(2) key] by blast
qed

lemma file_widget_updateStatus:
  assumes "file_widgets s" and "revision (file_abs testScheme s) < MaxInt64"
    and obj: "is_testWidget obj" "suite_key (ObjectKeyFromObject obj)"
    and st: "mem_view (file_abs testScheme s) widgetGVK (ObjectKeyFromObject obj) = Some stored" "is_testWidget stored"
    and "GetResourceVersion obj = GetResourceVersion stored" and "GetStatus obj \<noteq> GetStatus stored"
  shows "\<exists>s' new w. file_UpdateStatus testScheme s obj = (s', w, None) \<and> file_widgets s' \<and>
    mem_commit (file_abs testScheme s) (file_abs testScheme s') widgetGVK \<lparr>ev_Type = EventModified, ev_Object = new\<rparr> \<and>
    is_testWidget new \<and> ObjectKeyFromObject new = ObjectKeyFromObject obj \<and>
    GetSpec new = GetSpec stored \<and> GetStatus new = GetStatus obj"
proof -
  have bound: "f_revision s < MaxInt64" using assms(2) by simp
  obtain m new w where m: "mem_UpdateStatus testScheme (file_abs testScheme s) obj = (m, w, None)"
      "mem_commit (file_abs testScheme s) m widgetGVK \<lparr>ev_Type = EventModified, ev_Object = new\<rparr>"
      "is_testWidget new" "ObjectKeyFromObject new = ObjectKeyFromObject obj"
      "GetSpec new = GetSpec stored" "GetStatus new = GetStatus obj"
    by (rule widget_updateStatus [OF file_widgets_inv [OF assms(1)] assms(2) obj(1) st(2,1) assms(7,8)])
  obtain s' o1 e where "file_UpdateStatus testScheme s obj = (s', o1, e)" "file_widgets s'"
      "mem_UpdateStatus testScheme (file_abs testScheme s) obj = (file_abs testScheme s', o1, e)"
    using assms(1) bound suite_arg_ok [OF obj] by (rule conformance.file_UpdateStatus_refines)
  with m show ?thesis by (intro exI [of _ s'] exI [of _ new] exI [of _ w]) simp
qed

lemma file_widget_conflict:
  assumes "file_widgets s" and obj: "is_testWidget obj" "suite_key (ObjectKeyFromObject obj)"
    and "mem_view (file_abs testScheme s) widgetGVK (ObjectKeyFromObject obj) = Some stored"
    and "GetResourceVersion obj \<noteq> GetResourceVersion stored"
  shows "\<exists>k o1 o2. file_Update testScheme s obj = (s, o1, Some (ConflictError k)) \<and>
    file_UpdateStatus testScheme s obj = (s, o2, Some (ConflictError k))"
proof -
  have "file_open testScheme s widgetGVK obj =
      (f_disk s, Inl (ConflictError (ObjectKey_String (ObjectKeyFromObject obj))))"
    using conformance.file_open_ok [OF assms(1) widget_gvk_ok suite_key_ok [OF obj(2)]] assms(4,5) by simp
  with obj(1) show ?thesis by (simp add: file_Update_def file_UpdateStatus_def)
qed

lemma file_widget_delete:
  assumes "file_widgets s" and "revision (file_abs testScheme s) < MaxInt64"
    and obj: "is_testWidget obj" "suite_key (ObjectKeyFromObject obj)"
    and st: "mem_view (file_abs testScheme s) widgetGVK (ObjectKeyFromObject obj) = Some stored"
    and rv: "GetResourceVersion obj = GetResourceVersion stored"
  defines "gone \<equiv> SetResourceVersion (FormatInt (revision (file_abs testScheme s) + 1)) stored"
  shows "\<exists>s'. file_Delete testScheme s obj = (s', None) \<and> file_widgets s' \<and>
    mem_commit (file_abs testScheme s) (file_abs testScheme s') widgetGVK \<lparr>ev_Type = EventDeleted, ev_Object = gone\<rparr>"
proof -
  have bound: "f_revision s < MaxInt64" using assms(2) by simp
  obtain m where m: "mem_Delete testScheme (file_abs testScheme s) obj = (m, None)"
      "mem_commit (file_abs testScheme s) m widgetGVK \<lparr>ev_Type = EventDeleted, ev_Object = gone\<rparr>"
    using mem_Delete_commit [OF file_widgets_inv [OF assms(1)] assms(2) gvk_widget(1) [OF widget_GoType [OF obj(1)]] st disjI2 [OF rv]]
    unfolding gone_def by metis
  obtain s' e where "file_Delete testScheme s obj = (s', e)" "file_widgets s'"
      "mem_Delete testScheme (file_abs testScheme s) obj = (file_abs testScheme s', e)"
    using assms(1) bound suite_arg_ok [OF obj] by (rule conformance.file_Delete_refines)
  with m show ?thesis by simp
qed

lemma zeroWidget_is: "is_testWidget zeroWidget"
  by (auto simp: is_testWidget_def zeroWidget_def)

lemma file_widget_get:
  assumes "file_widgets s" and "suite_key key" and "mem_view (file_abs testScheme s) widgetGVK key = Some stored"
    and "is_testWidget stored"
  shows "snd (file_Get testScheme s key zeroWidget) = (stored, None)"
proof -
  have z: "is_conformance zeroWidget" "GoType zeroWidget = ''storetest.testWidget''"
    using zeroWidget_is by (auto simp: is_conformance_def)
  show ?thesis
    using conformance.file_Get_refines [OF assms(1) z(1) gvk_widget(1) [OF z(2)] widget_gvk_ok suite_key_ok [OF assms(2)]]
      widget_get [OF assms(3,4)] by simp
qed

lemma file_widget_list:
  assumes "file_widgets s"
  shows "\<exists>l. file_List testScheme s zeroWidgetList [] = (s, l, None) \<and>
    ParseInt (ListResourceVersion l) = (revision (file_abs testScheme s), None) \<and>
    (\<forall>o1\<in>set (Items l). \<exists>k. mem_view (file_abs testScheme s) widgetGVK k = Some o1)"
proof -
  have k: "kind_ok testScheme widgetGVK ''storetest.testWidget''" using widget_setup by (simp add: informer_setup_def)
  have l: "mem_list_ok testScheme widgetGVK ''storetest.testWidget'' zeroWidgetList"
    by (simp add: mem_list_ok_def) (simp add: testScheme_def zeroWidgetList_def)
  obtain items where items: "file_List testScheme s zeroWidgetList [] = (s,
        file_populateListItems testScheme (zeroWidgetList\<lparr>ListResourceVersion := FormatInt (f_revision s)\<rparr>) items)"
      "set items = {o1. \<exists>k. mem_view (file_abs testScheme s) widgetGVK k = Some o1 \<and> mem_listMatches (applyListOptions []) k o1}"
    using assms gvk_widget(2) widget_gvk_ok by (rule conformance.file_List_items)
  have "GoType o1 = ''storetest.testWidget''" if v: "mem_view (file_abs testScheme s) widgetGVK j = Some o1" for j o1
  proof -
    have "mem_obj_ok testScheme (revision (file_abs testScheme s)) widgetGVK j o1"
      using file_widgets_inv [OF assms] v by (rule mem_view_Some)
    with k show ?thesis by (simp add: mem_obj_ok_def kind_ok_def)
  qed
  then have "list_all (\<lambda>i. GoType i = ''storetest.testWidget'') items" using items(2) by (auto simp: list_all_iff)
  then have "file_List testScheme s zeroWidgetList [] =
      (s, zeroWidgetList\<lparr>ListResourceVersion := FormatInt (f_revision s), Items := items\<rparr>, None)"
    using items(1) l by (simp add: file_populateListItems_def mem_list_ok_def)
  moreover have "is_int64 (f_revision s)"
    using mem_revision_bounds [OF file_widgets_inv [OF assms]] by (simp add: is_int64_def MinInt64_def)
  ultimately show ?thesis using items(2) by auto
qed

interpretation file_heap: watcher_heap "fileStore sch" f_wheap file_setw for sch
  by unfold_locales (simp_all add: file_Recv_def Let_def)

interpretation fw: widget_store "fileStore testScheme" "file_abs testScheme" file_setw file_widgets
proof unfold_locales
  fix s :: FileStore and x and w :: memoryWatcher
  assume s: "file_widgets s" "w_gvk w = w_gvk (wheap (file_abs testScheme s) x)" "length (w_ch w) \<le> w_cap w"
  have "mem_inv testScheme (file_abs testScheme (file_setw x w s))"
    unfolding file_setw_abs using file_widgets_inv [OF s(1)] s(2,3) by (rule mw.ok_setw)
  then show "file_widgets (file_setw x w s)" by (intro file_inv_frame [OF s(1)]) simp_all
next
  fix s opts assume s: "file_widgets s"
  have "file_widgets (file_exec testScheme (OpWatch zeroWidgetList opts) s)"
    using file_watch_step [OF s, of "OpWatch zeroWidgetList opts"] by simp
  then show "mem_Watch testScheme (file_abs testScheme s) zeroWidgetList opts =
      map_prod (file_abs testScheme) id (st_Watch (fileStore testScheme) s zeroWidgetList opts) \<and>
      file_widgets (fst (st_Watch (fileStore testScheme) s zeroWidgetList opts))"
    by (simp add: abs_Watch)
next
  fix s x assume s: "file_widgets s"
  have "file_widgets (file_exec testScheme (OpStop x) s)"
    using file_watch_step [OF s, of "OpStop x"] by simp
  then show "mem_Stop (file_abs testScheme s) x = file_abs testScheme (st_Stop (fileStore testScheme) s x) \<and>
      file_widgets (st_Stop (fileStore testScheme) s x)"
    by (simp add: abs_Stop)
qed (unfold fileStore_simps fileStore_writes,
    (simp add: file_Recv_def Let_def file_setw_abs file_widgets_inv; fail)+,
    (rule file_widget_create file_widget_update file_widget_updateStatus
      file_widget_conflict file_widget_delete file_widget_get file_widget_list; assumption)+)

section \<open>The other subtests\<close>

lemma file_fresh:
  fixes s :: FileStore
  assumes "s = file_NewStore ''/data'' [file_WithEventLogSize n] emptyDisk" and "0 \<le> n"
  shows "file_widgets s" and "fresh_state n (file_abs testScheme s)"
proof -
  have f: "f_root s = (True, [''data''])" "f_disk s = emptyDisk" "f_revision s = 0" "f_uidCounter s = 0"
    "f_eventLog s = []" "f_eventLogMax s = n" "f_nextWatcher s = 0" "f_watchers s = (\<lambda>_. [])" "f_wheap s = (\<lambda>_. nil_watcher)"
    by (simp_all add: assms(1) file_NewStore_def file_WithEventLogSize_def file_loadRevision_def file_loadUIDCounter_def
        loadNumber_def os_ReadFile_def emptyDisk_def dataPath)
  have minv: "mem_inv testScheme (file_abs testScheme s)"
    using assms(2) by (simp add: f mem_inv_def mem_log_ok_def mem_watchers_ok_def file_objects_def emptyDisk_def
        map_filter_simps nil_watcher_def MaxInt64_def)
  moreover have "disk_ok (True, [''data'']) emptyDisk"
    by (simp add: disk_ok_def emptyDisk_def clean_path_def)
  ultimately show "file_widgets s"
    by (simp add: f file_inv_def files_ok_def counter_ok_def emptyDisk_def is_int64_def MinInt64_def MaxInt64_def)
  show "fresh_state n (file_abs testScheme s)"
    using minv assms(2) by (simp add: fresh_state_def f file_abs_view file_objects_def emptyDisk_def map_filter_simps)
qed

lemma file_NewStore_default: "file_NewStore root [] d = file_NewStore root [file_WithEventLogSize 1000] d"
  by (simp add: file_NewStore_def file_WithEventLogSize_def defaultEventLogSize_def)

lemmas file_fresh1000 = file_fresh [OF file_NewStore_default, simplified]
lemmas file_fresh5 = file_fresh [OF refl, of 5, simplified]

lemma file_many_tests:
  "invariants_revision_monotonicity_in_watch fileConfig = Some ()"
  "invariants_list_returns_consistent_snapshot fileConfig = Some ()"
  "watch_overflow_closes_watch fileConfig = Some ()"
  "watch_RevisionTooOldError (libOf p) fileConfig = Some ()"
  "concurrency_concurrent_CRUD_with_watcher fileConfig turns = Some ()"
  "invariants_concurrent_updates_preserve_monotonicity fileConfig turns = Some ()"
  using fw.revision_monotonicity [OF fileConfig_simps(1) file_fresh1000]
    fw.consistent_snapshot [OF fileConfig_simps(1) file_fresh1000]
    fw.overflow_closes [OF fileConfig_simps(1) file_fresh1000]
    fw.too_old [OF fileConfig_simps(2) refl file_fresh5 gone_libOf]
    fw.concurrent_CRUD [OF fileConfig_simps(1) file_fresh1000]
    fw.concurrent_monotonicity [OF fileConfig_simps(1) file_fresh1000] by blast+

lemma file_writers:
  "split_concurrent_spec_and_status_writers fileConfig [] = Some ()"
  "split_concurrent_spec_and_status_writers fileConfig starving_turns = None"
  using fw.writers_pass [OF fileConfig_simps(1) file_fresh1000]
    fw.writers_starve [OF fileConfig_simps(1) file_fresh1000] by blast+

text \<open>The collecting loop on the filesystem store, without the loop.\<close>

definition file_collected :: "watcher_id \<Rightarrow> FileStore \<Rightarrow> Event list \<Rightarrow> (FileStore \<times> Event list) option" where
  "file_collected x s acc =
     (if w_closed (f_wheap s x) then None else Some (file_setw x ((f_wheap s x)\<lparr>w_ch := []\<rparr>) s, acc @ w_ch (f_wheap s x)))"

lemma file_collect: "collect (fileStore testScheme) = file_collected"
  by (simp add: fun_eq_iff file_heap.loops file_collected_def)

lemma file_label_selector_replay:
  assumes "p ''color=blue'' = Inr (blueSelector b)"
  shows "watch_label_selector_replay (libOf p) fileConfig = Some ()"
  unfolding watch_label_selector_replay_def fileConfig_simps prod.case parse_blue [of p, OF assms] file_collect
  by code_simp

end
