(* ===== verification/Conformance_Props.thy ===== *)
theory Conformance_Props
  imports Conformance_File
begin

text \<open>
  The memory store, the filesystem store and the conformance suite: what passes under every
  schedule, and what does not.
\<close>

abbreviation writersTest :: string where
  "writersTest \<equiv> ''SpecStatusSplit/concurrent_spec_and_status_writers''"

lemma failures_append [simp]: "failures (a @ b) = failures a @ failures b"
  by (simp add: failures_def)

lemma failures_passes: "passes tests \<Longrightarrow> failures (t_Run name tests) = []"
  by (auto simp: failures_def t_Run_def list_all_iff filter_empty_conv)

lemma failures_split:
  assumes "passes (butlast tests)" and "tests \<noteq> []" and "last tests = (n, r)"
  shows "failures (t_Run name tests) = (if r = None then [name @ ''/'' @ n] else [])"
proof -
  have "failures (t_Run name (butlast tests @ [(n, r)])) = (if r = None then [name @ ''/'' @ n] else [])"
    using failures_passes [OF assms(1), of name] by (simp add: failures_def t_Run_def)
  with assms(2,3) append_butlast_last_id [of tests] show ?thesis by simp
qed

text \<open>Every group passes, up to the one subtest that depends on the schedule.\<close>

definition groups_pass :: "apimachinery \<Rightarrow> 's Config \<Rightarrow> schedules \<Rightarrow> bool" where
  "groups_pass lib cfg sched \<longleftrightarrow>
     passes (testCreate lib cfg) \<and> passes (testGet lib cfg) \<and> passes (testUpdate lib cfg) \<and>
     passes (testDelete lib cfg) \<and> passes (testList lib cfg) \<and> passes (testWatch lib cfg) \<and>
     passes (testUpdateStatus lib cfg) \<and> passes (testGeneration cfg) \<and>
     passes (butlast (testSpecStatusSplit lib cfg (writer_turns sched))) \<and>
     passes (testConcurrency cfg (crud_turns sched)) \<and> passes (testInvariants cfg (mono_turns sched))"

lemma groups_pass_failures:
  assumes "groups_pass lib cfg sched"
  shows "failures (TestStore lib cfg sched) =
    (if split_concurrent_spec_and_status_writers cfg (writer_turns sched) = None then [writersTest] else [])"
proof -
  have "failures (t_Run ''SpecStatusSplit'' (testSpecStatusSplit lib cfg (writer_turns sched))) =
      (if split_concurrent_spec_and_status_writers cfg (writer_turns sched) = None then [writersTest] else [])"
    using assms failures_split [of "testSpecStatusSplit lib cfg (writer_turns sched)" "''concurrent_spec_and_status_writers''"
        "split_concurrent_spec_and_status_writers cfg (writer_turns sched)" "''SpecStatusSplit''"]
    by (simp add: groups_pass_def testSpecStatusSplit_def)
  with assms show ?thesis
    unfolding TestStore_def groups_pass_def by (simp only: concat.simps append_Nil2 failures_append append_Nil failures_passes)
qed

lemma mem_groups_pass:
  assumes "apimachinery_ok lib"
  shows "groups_pass lib memConfig sched"
proof -
  obtain p b where lib: "lib = libOf p" and p: "p ''color=blue'' = Inr (blueSelector b)"
    using assms by (rule libOf_cases)
  show ?thesis
    unfolding lib groups_pass_def testList_def testWatch_def testSpecStatusSplit_def testConcurrency_def testInvariants_def
    by (simp add: mem_testCreate mem_testGet mem_testUpdate mem_testDelete mem_testUpdateStatus mem_testGeneration
        mem_list_tests mem_list_by_label_selector [of p, OF p] mem_watch_tests mem_label_selector_replay [of p, OF p]
        mem_split_tests mem_invariants_tests mem_many_tests)
qed

lemma file_groups_pass:
  assumes "apimachinery_ok lib"
  shows "groups_pass lib fileConfig sched"
proof -
  obtain p b where lib: "lib = libOf p" and p: "p ''color=blue'' = Inr (blueSelector b)"
    using assms by (rule libOf_cases)
  show ?thesis
    unfolding lib groups_pass_def testList_def testWatch_def testSpecStatusSplit_def testConcurrency_def testInvariants_def
    by (simp add: file_testCreate file_testGet file_testUpdate file_testDelete file_testUpdateStatus file_testGeneration
        file_list_tests file_list_by_label_selector [of p, OF p] file_watch_tests file_label_selector_replay [of p, OF p]
        file_split_tests file_invariants_tests file_many_tests)
qed

text \<open>A library that behaves as documented, for the witnesses.\<close>

definition exampleLib :: apimachinery where
  "exampleLib = libOf (\<lambda>s. if s = ''color=blue'' then Inr (blueSelector False) else Inl (Error ''parse''))"

lemma exampleLib_ok: "apimachinery_ok exampleLib"
  by (simp add: apimachinery_ok_def exampleLib_def libOf_def)

text \<open>
  C39. The memory store and the conformance suite. If apimachinery behaves as documented, then
  however the goroutines of the concurrent subtests are scheduled, no subtest fails but
  \<open>concurrent_spec_and_status_writers\<close>; none fails when its writers run one after the other; and
  this subtest alone fails under the schedule in which, in each of ten rounds, the spec writers
  read, one status writer commits, and the spec writers meet a conflict: their ten attempts are
  used up and the color is still blue.
\<close>

theorem conformance_memory:
  assumes "apimachinery_ok lib"
  shows "set (failures (TestStore lib memConfig sched)) \<subseteq> {writersTest} \<and>
    failures (TestStore lib memConfig (sched\<lparr>writer_turns := []\<rparr>)) = [] \<and>
    failures (TestStore lib memConfig (sched\<lparr>writer_turns := starving_turns\<rparr>)) = [writersTest]"
  by (auto simp: groups_pass_failures [OF mem_groups_pass [OF assms]] mem_writers)

theorem conformance_memory_witness:
  "set (failures (TestStore exampleLib memConfig
      \<lparr>writer_turns = [3, 1], crud_turns = [10, 0, 4, 10], mono_turns = [2, 2, 0]\<rparr>)) \<subseteq> {writersTest} \<and>
   failures (TestStore exampleLib memConfig
      (\<lparr>writer_turns = [3, 1], crud_turns = [10, 0, 4, 10], mono_turns = [2, 2, 0]\<rparr>\<lparr>writer_turns := []\<rparr>)) = []"
  using conformance_memory [OF exampleLib_ok] by blast

text \<open>
  C40. The filesystem store, opened on an empty directory of a disk that does not fail, and the
  conformance suite: the same three statements hold of it; in particular the starving schedule
  is not a matter of one backend.
\<close>

theorem conformance_filesystem:
  assumes "apimachinery_ok lib"
  shows "set (failures (TestStore lib fileConfig sched)) \<subseteq> {writersTest} \<and>
    failures (TestStore lib fileConfig (sched\<lparr>writer_turns := []\<rparr>)) = [] \<and>
    failures (TestStore lib fileConfig (sched\<lparr>writer_turns := starving_turns\<rparr>)) = [writersTest]"
  by (auto simp: groups_pass_failures [OF file_groups_pass [OF assms]] file_writers)

theorem conformance_filesystem_witness:
  "set (failures (TestStore exampleLib fileConfig
      \<lparr>writer_turns = [0, 12, 12, 0], crud_turns = [10, 9, 9, 10], mono_turns = [4, 4, 1]\<rparr>)) \<subseteq> {writersTest} \<and>
   failures (TestStore exampleLib fileConfig
      (\<lparr>writer_turns = [], crud_turns = [1, 2, 3], mono_turns = []\<rparr>\<lparr>writer_turns := starving_turns\<rparr>)) = [writersTest]"
  using conformance_filesystem [OF exampleLib_ok] by blast

end
