(* ===== verification/Lister_Watcher.thy ===== *)
theory Lister_Watcher
  imports Informer
begin

text \<open>
  The adapter of \<open>listerwatcher.go\<close> that lets client-go's \<open>Reflector\<close> list and watch a \<open>Store\<close>.
  \<open>List\<close> and \<open>Watch\<close> are functions on the store's state. A watch is a goroutine between two channels:
  it receives from the store's watcher and sends to a channel of its own. Its program counter
  is \<open>relay_at\<close>, one step of it is \<open>watchAdapter_relay\<close> or \<open>initialEventsAdapter_run\<close>. A \<open>select\<close> with
  two ready branches may take either: the argument \<open>stopFirst\<close> says which.

  \<open>labels.Parse\<close>, \<open>meta.ExtractList\<close> and \<open>reflect.New\<close> of a list's element type are parameters
  (\<open>parse\<close>, \<open>al\<close>, \<open>zeroItem\<close>).
\<close>

section \<open>Options and errors\<close>

text \<open>The fields of \<open>metav1.ListOptions\<close> that the adapter reads.\<close>

record MetaListOptions =
  mo_LabelSelector :: string
  mo_ResourceVersion :: string
  mo_SendInitialEvents :: "bool option"

record StoreListerWatcher =
  lw_listObj :: object_list

definition NewStoreListerWatcher :: "object_list \<Rightarrow> StoreListerWatcher" where
  "NewStoreListerWatcher listObj = \<lparr>lw_listObj = listObj\<rparr>"

text \<open>The verb \<open>%q\<close> on a string of ASCII characters, and the text of the errors of \<open>strconv\<close>.\<close>

definition hex_char :: "nat \<Rightarrow> char" where
  "hex_char n = (if n < 10 then digit_char n else char_of (87 + n))"

definition quote_char :: "char \<Rightarrow> string" where
  "quote_char c =
     (let n = of_char c :: nat
      in if c = CHR 0x22 \<or> c = CHR 0x5C then [CHR 0x5C, c]
         else if n = 7 then [CHR 0x5C, CHR ''a''] else if n = 8 then [CHR 0x5C, CHR ''b'']
         else if n = 9 then [CHR 0x5C, CHR ''t''] else if n = 10 then [CHR 0x5C, CHR ''n'']
         else if n = 11 then [CHR 0x5C, CHR ''v''] else if n = 12 then [CHR 0x5C, CHR ''f'']
         else if n = 13 then [CHR 0x5C, CHR ''r'']
         else if n < 32 \<or> n = 127 then [CHR 0x5C, CHR ''x'', hex_char (n div 16), hex_char (n mod 16)]
         else [c])"

definition Quote :: "string \<Rightarrow> string" where
  "Quote s = [CHR 0x22] @ concat (map quote_char s) @ [CHR 0x22]"

fun NumError_Error :: "string \<Rightarrow> NumError \<Rightarrow> string" where
  "NumError_Error s ErrSyntax = ''strconv.ParseInt: parsing '' @ Quote s @ '': invalid syntax''"
| "NumError_Error s ErrRange = ''strconv.ParseInt: parsing '' @ Quote s @ '': value out of range''"

definition parseListOpts ::
  "(string \<Rightarrow> error + label_selector) \<Rightarrow> MetaListOptions \<Rightarrow> error + ListOption list \<times> label_selector option" where
  "parseListOpts parse options =
     (if mo_LabelSelector options \<noteq> [] then
        (case parse (mo_LabelSelector options) of
           Inl e \<Rightarrow> Inl e
         | Inr sel \<Rightarrow> Inr ([MatchingLabelsSelector sel], Some sel))
      else Inr ([], None))"

section \<open>Watch events and adapters\<close>

datatype watch_EventType = watch_Added | watch_Modified | watch_Deleted | watch_Bookmark

record watch_Event =
  we_Type :: watch_EventType
  we_Object :: runtime_object

fun watchType :: "EventType \<Rightarrow> watch_EventType" where
  "watchType EventAdded = watch_Added"
| "watchType EventModified = watch_Modified"
| "watchType EventDeleted = watch_Deleted"
| "watchType EventBookmark = watch_Bookmark"

definition watchEvt :: "Event \<Rightarrow> watch_Event" where
  "watchEvt evt = \<lparr>we_Type = watchType (ev_Type evt), we_Object = RObject (ev_Object evt)\<rparr>"

text \<open>
  Where the goroutine is: sending the initial items, with the bookmark to follow; waiting for the
  store's watcher; sending an event; returned, with its channel closed.
\<close>

datatype relay_at =
    RelayItems "runtime_object list" "object option"
  | RelayWait
  | RelaySend watch_Event
  | RelayDone

text \<open>\<open>watchAdapter\<close> and \<open>initialEventsAdapter\<close> have the same fields.\<close>

record watchAdapter =
  wa_inner :: watcher_id
  wa_ch :: "watch_Event list"
  wa_stopped :: bool
  wa_selector :: "label_selector option"
  wa_at :: relay_at

type_synonym initialEventsAdapter = watchAdapter

abbreviation adapterCap :: nat where
  "adapterCap \<equiv> 100"

definition newWatchAdapter :: "watcher_id \<Rightarrow> label_selector option \<Rightarrow> watchAdapter" where
  "newWatchAdapter inner selector =
     \<lparr>wa_inner = inner, wa_ch = [], wa_stopped = False, wa_selector = selector, wa_at = RelayWait\<rparr>"

definition newInitialEventsAdapter ::
  "watcher_id \<Rightarrow> runtime_object list \<Rightarrow> object option \<Rightarrow> label_selector option \<Rightarrow> initialEventsAdapter" where
  "newInitialEventsAdapter inner items bookmarkObj selector =
     \<lparr>wa_inner = inner, wa_ch = [], wa_stopped = False, wa_selector = selector, wa_at = RelayItems items bookmarkObj\<rparr>"

text \<open>\<open>select { case a.ch <- evt: (go on at after) case <-a.stopCh: return }\<close>\<close>

definition select_send :: "bool \<Rightarrow> watch_Event \<Rightarrow> relay_at \<Rightarrow> watchAdapter \<Rightarrow> watchAdapter" where
  "select_send stopFirst evt after a =
     (let full = (length (wa_ch a) \<ge> adapterCap)
      in if wa_stopped a \<and> (stopFirst \<or> full) then a\<lparr>wa_at := RelayDone\<rparr>
         else if full then a
         else a\<lparr>wa_ch := wa_ch a @ [evt], wa_at := after\<rparr>)"

definition relay_drops :: "label_selector option \<Rightarrow> Event \<Rightarrow> bool" where
  "relay_drops selector evt =
     (case selector of
        None \<Rightarrow> False
      | Some sel \<Rightarrow> ev_Type evt \<noteq> EventBookmark \<and> \<not> sel_Matches sel (GetLabels (ev_Object evt)))"

definition watchAdapter_relay :: "'s Store \<Rightarrow> bool \<Rightarrow> 's \<times> watchAdapter \<Rightarrow> 's \<times> watchAdapter" where
  "watchAdapter_relay st stopFirst c =
     (case c of (s, a) \<Rightarrow>
       (case wa_at a of
          RelayWait \<Rightarrow>
            (if wa_stopped a \<and> stopFirst then (s, a\<lparr>wa_at := RelayDone\<rparr>)
             else case st_Recv st s (wa_inner a) of
                    (s', ChanClosed) \<Rightarrow> (s', a\<lparr>wa_at := RelayDone\<rparr>)
                  | (s', WouldBlock) \<Rightarrow> (s', if wa_stopped a then a\<lparr>wa_at := RelayDone\<rparr> else a)
                  | (s', Received evt) \<Rightarrow>
                      (s', if relay_drops (wa_selector a) evt then a else a\<lparr>wa_at := RelaySend (watchEvt evt)\<rparr>))
        | RelaySend evt \<Rightarrow> (s, select_send stopFirst evt RelayWait a)
        | _ \<Rightarrow> (s, a)))"

text \<open>
  \<open>run\<close> sends the items and the bookmark, each in a \<open>select\<close> of its own, and then is in a loop that
  reads as the one of \<open>relay\<close>.
\<close>

definition initialEventsAdapter_run :: "'s Store \<Rightarrow> bool \<Rightarrow> 's \<times> initialEventsAdapter \<Rightarrow> 's \<times> initialEventsAdapter" where
  "initialEventsAdapter_run st stopFirst c =
     (case c of (s, a) \<Rightarrow>
       (case wa_at a of
          RelayItems (item # items) bookmarkObj \<Rightarrow>
            (s, select_send stopFirst \<lparr>we_Type = watch_Added, we_Object = item\<rparr> (RelayItems items bookmarkObj) a)
        | RelayItems [] (Some bookmark) \<Rightarrow>
            (s, select_send stopFirst \<lparr>we_Type = watch_Bookmark, we_Object = RObject bookmark\<rparr> RelayWait a)
        | RelayItems [] None \<Rightarrow> (s, a\<lparr>wa_at := RelayWait\<rparr>)
        | _ \<Rightarrow> watchAdapter_relay st stopFirst c))"

text \<open>A receive of the consumer, which sees the channel closed once the goroutine has returned.\<close>

datatype watch_recv = WReceived watch_Event | WClosed | WBlocked

definition adapter_ResultChan :: "watchAdapter \<Rightarrow> watchAdapter \<times> watch_recv" where
  "adapter_ResultChan a =
     (case wa_ch a of
        e # es \<Rightarrow> (a\<lparr>wa_ch := es\<rparr>, WReceived e)
      | [] \<Rightarrow> (a, if wa_at a = RelayDone then WClosed else WBlocked))"

definition adapter_Stop :: "'s Store \<Rightarrow> 's \<times> watchAdapter \<Rightarrow> 's \<times> watchAdapter" where
  "adapter_Stop st c = (case c of (s, a) \<Rightarrow> (st_Stop st s (wa_inner a), a\<lparr>wa_stopped := True\<rparr>))"

section \<open>List and Watch\<close>

definition lw_List ::
  "'s Store \<Rightarrow> (string \<Rightarrow> error + label_selector) \<Rightarrow> StoreListerWatcher \<Rightarrow> MetaListOptions \<Rightarrow> 's \<Rightarrow> 's \<times> (error + object_list)" where
  "lw_List st parse lw options s =
     (case parseListOpts parse options of
        Inl e \<Rightarrow> (s, Inl e)
      | Inr (opts, _) \<Rightarrow>
          (case st_List st s (lw_listObj lw) opts of
             (s', listCopy, Some e) \<Rightarrow> (s', Inl e)
           | (s', listCopy, None) \<Rightarrow> (s', Inr listCopy)))"

definition InitialEventsAnnotationKey :: string where
  "InitialEventsAnnotationKey = ''k8s.io/initial-events-end''"

text \<open>
  \<open>reflect.New\<close> of a pointer type is a pointer to a pointer, which is no \<open>client.Object\<close>: the type
  assertion panics.
\<close>

definition bookmarkForList :: "scheme \<Rightarrow> (string \<Rightarrow> object) \<Rightarrow> object_list \<Rightarrow> string \<Rightarrow> error + object option" where
  "bookmarkForList sch zeroItem listObj rv =
     (case sch_itemsField sch (ListType listObj) of
        NoItemsField \<Rightarrow> Inr None
      | ItemsOfPtr _ \<Rightarrow> Inl (Panic ''interface conversion: not a client.Object'')
      | _ \<Rightarrow> Inr (Some (SetAnnotations (fmupd InitialEventsAnnotationKey ''true'' fmempty)
                 (SetResourceVersion rv (zeroItem (ListType listObj))))))"

text \<open>
  The two calls of the store are two steps: \<open>between\<close> is what other clients do to the store after
  the \<open>List\<close> and before the \<open>Watch\<close>.
\<close>

definition watchWithInitialEvents ::
  "'s Store \<Rightarrow> scheme \<Rightarrow> apilib \<Rightarrow> (string \<Rightarrow> object) \<Rightarrow> ('s \<Rightarrow> 's) \<Rightarrow> StoreListerWatcher
   \<Rightarrow> ListOption list \<Rightarrow> label_selector option \<Rightarrow> 's \<Rightarrow> 's \<times> (error + watchAdapter)" where
  "watchWithInitialEvents st sch al zeroItem between lw opts sel s =
     (case st_List st s (lw_listObj lw) opts of
        (s1, listObj, Some e) \<Rightarrow> (s1, Inl e)
      | (s1, listObj, None) \<Rightarrow>
     (let rv = ListResourceVersion listObj
      in case ParseInt rv of
           (_, Some e) \<Rightarrow> (s1, Inl (Error (''invalid list ResourceVersion '' @ Quote rv @ '': '' @ NumError_Error rv e)))
         | (rvInt, None) \<Rightarrow>
     (case al_ExtractList al listObj of
        Inl e \<Rightarrow> (s1, Inl (Error (''extracting items from list: '' @ error_Error e)))
      | Inr items \<Rightarrow>
     (case st_Watch st (between s1) (lw_listObj lw) (opts @ [WatchFromRevision rvInt]) of
        (s2, Inl e) \<Rightarrow> (s2, Inl e)
      | (s2, Inr watcher) \<Rightarrow>
     (case bookmarkForList sch zeroItem (lw_listObj lw) rv of
        Inl e \<Rightarrow> (s2, Inl e)
      | Inr bookmark \<Rightarrow> (s2, Inr (newInitialEventsAdapter watcher items bookmark sel)))))))"

definition lw_Watch ::
  "'s Store \<Rightarrow> scheme \<Rightarrow> apilib \<Rightarrow> (string \<Rightarrow> error + label_selector) \<Rightarrow> (string \<Rightarrow> object) \<Rightarrow> ('s \<Rightarrow> 's) \<Rightarrow> StoreListerWatcher
   \<Rightarrow> MetaListOptions \<Rightarrow> 's \<Rightarrow> 's \<times> (error + watchAdapter)" where
  "lw_Watch st sch al parse zeroItem between lw options s =
     (case parseListOpts parse options of
        Inl e \<Rightarrow> (s, Inl e)
      | Inr (listOpts, sel) \<Rightarrow>
     if mo_SendInitialEvents options = Some True
     then watchWithInitialEvents st sch al zeroItem between lw listOpts sel s
     else case (if mo_ResourceVersion options = [] then Inr listOpts
                else case ParseInt (mo_ResourceVersion options) of
                       (_, Some e) \<Rightarrow> Inl (Error (''invalid ResourceVersion '' @ Quote (mo_ResourceVersion options) @ '': '' @
                                            NumError_Error (mo_ResourceVersion options) e))
                     | (rv, None) \<Rightarrow> Inr (listOpts @ [WatchFromRevision rv])) of
            Inl e \<Rightarrow> (s, Inl e)
          | Inr opts \<Rightarrow>
              (case st_Watch st s (lw_listObj lw) opts of
                 (s', Inl e) \<Rightarrow> (s', Inl e)
               | (s', Inr watcher) \<Rightarrow> (s', Inr (newWatchAdapter watcher sel))))"

end
