(* ===== verification/Lister_Follow.thy ===== *)
theory Lister_Follow
  imports Lister_Watcher Cache_Follow
begin

text \<open>
  What a reflector behind the adapter sees, for every store that keeps the contract \<open>watched_store\<close>:
  the goroutine of the adapter, the consumer and the other clients of the store take steps in
  any order (\<open>lw_reach\<close>), and what the consumer got is always a part of the sequence that
  the store's own events determine (\<open>lw_inv\<close>).
\<close>

section \<open>Runs\<close>

inductive lw_reach ::
  "'s Store \<Rightarrow> (watcher_id option \<Rightarrow> 's \<Rightarrow> 's \<Rightarrow> bool) \<Rightarrow> 's \<times> watchAdapter \<Rightarrow> 's \<times> watchAdapter \<times> watch_Event list \<Rightarrow> bool"
  for st env c where
  reach_start: "c = (s, a) \<Longrightarrow> lw_reach st env c (s, a, [])"
| reach_relay: "lw_reach st env c (s, a, got) \<Longrightarrow> initialEventsAdapter_run st stopFirst (s, a) = (s', a') \<Longrightarrow>
    lw_reach st env c (s', a', got)"
| reach_take: "lw_reach st env c (s, a, got) \<Longrightarrow> adapter_ResultChan a = (a', WReceived e) \<Longrightarrow>
    lw_reach st env c (s, a', got @ [e])"
| reach_stop: "lw_reach st env c (s, a, got) \<Longrightarrow> adapter_Stop st (s, a) = (s', a') \<Longrightarrow> lw_reach st env c (s', a', got)"
| reach_other: "lw_reach st env c (s, a, got) \<Longrightarrow> env (Some (wa_inner a)) s s' \<Longrightarrow> lw_reach st env c (s', a, got)"

text \<open>What the goroutine has taken on and not yet sent.\<close>

definition added_events :: "runtime_object list \<Rightarrow> watch_Event list" where
  "added_events items = map (\<lambda>item. \<lparr>we_Type = watch_Added, we_Object = item\<rparr>) items"

definition bookmark_events :: "object option \<Rightarrow> watch_Event list" where
  "bookmark_events bm = (case bm of None \<Rightarrow> [] | Some b \<Rightarrow> [\<lparr>we_Type = watch_Bookmark, we_Object = RObject b\<rparr>])"

definition owed :: "relay_at \<Rightarrow> watch_Event list" where
  "owed at = (case at of RelayItems items bm \<Rightarrow> added_events items @ bookmark_events bm | RelaySend e \<Rightarrow> [e] | _ \<Rightarrow> [])"

lemma owed_simps [simp]:
  "owed RelayWait = []" "owed (RelaySend e) = [e]" "owed RelayDone = []"
  "owed (RelayItems (i # is) bm) = \<lparr>we_Type = watch_Added, we_Object = i\<rparr> # owed (RelayItems is bm)"
  "owed (RelayItems [] (Some b)) = [\<lparr>we_Type = watch_Bookmark, we_Object = RObject b\<rparr>]" "owed (RelayItems [] None) = []"
  by (simp_all add: owed_def added_events_def bookmark_events_def)

section \<open>The consumer's picture\<close>

fun reflect :: "watch_Event \<Rightarrow> view \<Rightarrow> view" where
  "reflect e m =
     (case we_Object e of
        RObject o1 \<Rightarrow>
          (case we_Type e of
             watch_Deleted \<Rightarrow> m(ObjectKeyFromObject o1 := None)
           | watch_Bookmark \<Rightarrow> m
           | _ \<Rightarrow> m(ObjectKeyFromObject o1 \<mapsto> o1))
      | _ \<Rightarrow> m)"

lemma reflect_watchEvt: "reflect (watchEvt e) = apply_event e"
  by (rule ext) (simp add: watchEvt_def apply_event.simps split: EventType.split)

declare reflect.simps [simp del]

lemma reflect_live: "fold reflect (map watchEvt es) m = apply_events es m"
  by (induction es arbitrary: m) (simp_all add: reflect_watchEvt)

lemma reflect_bookmark [simp]: "fold reflect (bookmark_events bm) m = m"
  by (simp add: reflect.simps bookmark_events_def split: option.split)

lemma reflect_added:
  assumes "distinct (map ObjectKeyFromObject items)"
    and "\<forall>k o1. v k = Some o1 \<longleftrightarrow> o1 \<in> set items \<and> ObjectKeyFromObject o1 = k"
  shows "fold reflect (added_events (map RObject items)) Map.empty = v"
proof -
  have put: "fold reflect (added_events (map RObject items)) m k =
      (case find (\<lambda>o1. ObjectKeyFromObject o1 = k) items of None \<Rightarrow> m k | Some o1 \<Rightarrow> Some o1)" for m k
    using assms(1)
  proof (induction items arbitrary: m)
    case (Cons o1 items)
    then have "find (\<lambda>o2. ObjectKeyFromObject o2 = ObjectKeyFromObject o1) items = None"
      by (auto simp: find_None_iff image_iff)
    with Cons show ?case by (auto simp: added_events_def reflect.simps split: option.split)
  qed (simp add: added_events_def)
  show ?thesis
  proof
    fix k
    show "fold reflect (added_events (map RObject items)) Map.empty k = v k"
    proof (cases "find (\<lambda>o1. ObjectKeyFromObject o1 = k) items")
      case None
      then have "v k \<noteq> Some o1" for o1 using assms(2) by (auto simp: find_None_iff)
      then have "v k = None" by (cases "v k") auto
      with None show ?thesis by (simp add: put)
    next
      case (Some o1)
      then have "o1 \<in> set items" "ObjectKeyFromObject o1 = k" by (auto simp: find_Some_iff)
      with assms(2) have "v k = Some o1" by blast
      with Some show ?thesis by (simp add: put)
    qed
  qed
qed

section \<open>The invariant\<close>

definition lw_inv ::
  "('s \<Rightarrow> bool) \<Rightarrow> ('s \<Rightarrow> int \<Rightarrow> view \<Rightarrow> Event list \<Rightarrow> bool) \<Rightarrow> ('s \<Rightarrow> watcher_id \<Rightarrow> Event list \<Rightarrow> bool)
   \<Rightarrow> label_selector option \<Rightarrow> watcher_id \<Rightarrow> int \<Rightarrow> view \<Rightarrow> watch_Event list
   \<Rightarrow> 's \<times> watchAdapter \<times> watch_Event list \<Rightarrow> bool" where
  "lw_inv ok follows subscribed sel x r v initial c \<longleftrightarrow>
     (case c of (s, a, got) \<Rightarrow>
        ok s \<and> wa_inner a = x \<and> wa_selector a = sel \<and>
        (\<exists>live es. follows s r v (live @ es) \<and>
           (if wa_at a = RelayDone
            then prefix (got @ wa_ch a) (initial @ map watchEvt (filter (\<lambda>e. \<not> relay_drops sel e) live))
            else got @ wa_ch a @ owed (wa_at a) = initial @ map watchEvt (filter (\<lambda>e. \<not> relay_drops sel e) live) \<and>
                 subscribed s x es)))"

lemma select_send_cases:
  obtains "select_send sf evt after a = a" | "select_send sf evt after a = a\<lparr>wa_at := RelayDone\<rparr>"
  | "select_send sf evt after a = a\<lparr>wa_ch := wa_ch a @ [evt], wa_at := after\<rparr>"
  unfolding select_send_def Let_def by metis

context watched_store
begin

lemma inv_done:
  assumes "lw_inv ok follows subscribed sel x r v initial (s, a, got)" and "wa_at a \<noteq> RelayDone"
  shows "lw_inv ok follows subscribed sel x r v initial (s, a\<lparr>wa_at := RelayDone\<rparr>, got)"
  using assms unfolding lw_inv_def by (auto simp: prefix_def) (metis append.assoc)

lemma inv_send:
  assumes "lw_inv ok follows subscribed sel x r v initial (s, a, got)" and "wa_at a \<noteq> RelayDone" and "after \<noteq> RelayDone"
    and "owed (wa_at a) = evt # owed after"
  shows "lw_inv ok follows subscribed sel x r v initial (s, select_send sf evt after a, got)"
proof (rule select_send_cases [of sf evt after a])
  assume "select_send sf evt after a = a" with assms(1) show ?thesis by simp
next
  assume "select_send sf evt after a = a\<lparr>wa_at := RelayDone\<rparr>" with inv_done [OF assms(1,2)] show ?thesis by simp
next
  assume "select_send sf evt after a = a\<lparr>wa_ch := wa_ch a @ [evt], wa_at := after\<rparr>"
  with assms show ?thesis by (auto simp: lw_inv_def)
qed

lemma inv_wait:
  assumes inv: "lw_inv ok follows subscribed sel x r v initial (s, a, got)" and at: "wa_at a = RelayWait"
    and recv: "st_Recv st s x = (s', rc)"
  shows "(\<exists>evt. rc = Received evt \<and> lw_inv ok follows subscribed sel x r v initial
            (s', if relay_drops sel evt then a else a\<lparr>wa_at := RelaySend (watchEvt evt)\<rparr>, got)) \<or>
    (s' = s \<and> (rc = ChanClosed \<or> rc = WouldBlock))"
proof -
  obtain told es where l: "follows s r v (told @ es)" "subscribed s x es" "ok s" "wa_inner a = x" "wa_selector a = sel"
      "got @ wa_ch a = initial @ map watchEvt (filter (\<lambda>e. \<not> relay_drops sel e) told)"
    using inv at by (auto simp: lw_inv_def)
  show ?thesis
  proof (cases rc)
    case (Received evt)
    then obtain es' where es': "es = evt # es'" "ok s'" "subscribed s' x es'" "follows s' r v ((told @ [evt]) @ es')"
      using recv_received [OF l(3,2) recv [unfolded Received]] l(1) by auto
    have "lw_inv ok follows subscribed sel x r v initial
        (s', if relay_drops sel evt then a else a\<lparr>wa_at := RelaySend (watchEvt evt)\<rparr>, got)"
      unfolding lw_inv_def prod.case
      by (intro conjI exI [of _ "told @ [evt]"] exI [of _ es']) (use l es' at in simp_all)
    with Received show ?thesis by blast
  next
    case ChanClosed
    with recv_closed [OF l(3,2)] recv show ?thesis by auto
  next
    case WouldBlock
    with recv_blocked [OF l(3,2)] recv show ?thesis by auto
  qed
qed

lemma run_inv:
  assumes inv: "lw_inv ok follows subscribed sel x r v initial (s, a, got)"
    and run: "initialEventsAdapter_run st sf (s, a) = (s', a')"
  shows "lw_inv ok follows subscribed sel x r v initial (s', a', got)"
proof (cases "wa_at a")
  case (RelayItems items bm)
  show ?thesis
  proof (cases items)
    case Nil
    have i: "lw_inv ok follows subscribed sel x r v initial (s, a\<lparr>wa_at := RelayWait\<rparr>, got)" if "bm = None"
      using inv RelayItems Nil that by (auto simp: lw_inv_def)
    from inv_send [OF inv, of RelayWait] i run RelayItems Nil show ?thesis
      by (cases bm) (auto simp: initialEventsAdapter_run_def)
  next
    case (Cons i rest)
    from inv_send [OF inv, of "RelayItems rest bm"] run RelayItems Cons show ?thesis
      by (auto simp: initialEventsAdapter_run_def)
  qed
next
  case RelayWait
  have x: "wa_inner a = x" "wa_selector a = sel" using inv by (auto simp: lw_inv_def)
  obtain s1 rc where rc: "st_Recv st s x = (s1, rc)" by fastforce
  from inv_wait [OF inv RelayWait rc] inv_done [OF inv] run RelayWait x rc inv show ?thesis
    by (auto simp: initialEventsAdapter_run_def watchAdapter_relay_def split: if_splits)
next
  case (RelaySend e)
  from inv_send [OF inv, of RelayWait] run RelaySend show ?thesis
    by (auto simp: initialEventsAdapter_run_def watchAdapter_relay_def)
next
  case RelayDone
  with inv run show ?thesis by (auto simp: initialEventsAdapter_run_def watchAdapter_relay_def)
qed

lemma inv_store_step:
  assumes inv: "lw_inv ok follows subscribed sel x r v initial (s, a, got)" and "ok s'"
    and f: "\<And>es. follows s r v es \<Longrightarrow> follows s' r v (es @ es')" and sub: "\<And>es. subscribed s x es \<Longrightarrow> subscribed s' x (es @ es')"
    and a': "wa_ch a' = wa_ch a" "wa_at a' = wa_at a" "wa_inner a' = wa_inner a" "wa_selector a' = wa_selector a"
  shows "lw_inv ok follows subscribed sel x r v initial (s', a', got)"
proof -
  obtain told es where l: "follows s r v (told @ es)"
      "if wa_at a = RelayDone then prefix (got @ wa_ch a) (initial @ map watchEvt (filter (\<lambda>e. \<not> relay_drops sel e) told))
       else got @ wa_ch a @ owed (wa_at a) = initial @ map watchEvt (filter (\<lambda>e. \<not> relay_drops sel e) told) \<and> subscribed s x es"
    using inv by (auto simp: lw_inv_def)
  have "wa_inner a = x" "wa_selector a = sel" using inv by (simp_all add: lw_inv_def)
  with l f [OF l(1)] sub [of es] \<open>ok s'\<close> show ?thesis
    unfolding lw_inv_def prod.case a' by (intro conjI exI [of _ told] exI [of _ "es @ es'"]) (simp_all split: if_splits)
qed

lemma reach_inv:
  assumes "lw_reach st env (s1, a1) c" and "lw_inv ok follows subscribed sel x r v initial (s1, a1, [])"
  shows "lw_inv ok follows subscribed sel x r v initial c"
  using assms(1)
proof (induction rule: lw_reach.induct)
  case (reach_start s a)
  with assms(2) show ?case by simp
next
  case (reach_relay s a got sf s' a')
  from run_inv [OF reach_relay.IH reach_relay.hyps(2)] show ?case .
next
  case (reach_take s a got a' e)
  from reach_take.hyps(2) have "wa_ch a = e # wa_ch a'" "wa_at a' = wa_at a" "wa_inner a' = wa_inner a" "wa_selector a' = wa_selector a"
    by (auto simp: adapter_ResultChan_def split: list.splits if_splits)
  then have "(got @ [e]) @ wa_ch a' = got @ wa_ch a" "(got @ [e]) @ wa_ch a' @ owed (wa_at a') = got @ wa_ch a @ owed (wa_at a)"
      "wa_at a' = wa_at a" "wa_inner a' = wa_inner a" "wa_selector a' = wa_selector a"
    by simp_all
  with reach_take.IH show ?case unfolding lw_inv_def prod.case by (simp only:)
next
  case (reach_stop s a got s' a')
  from reach_stop.hyps(2) have a': "s' = st_Stop st s (wa_inner a)" "wa_ch a' = wa_ch a" "wa_at a' = wa_at a" "wa_inner a' = wa_inner a" "wa_selector a' = wa_selector a"
    by (auto simp: adapter_Stop_def)
  have "ok s" using reach_stop.IH by (simp add: lw_inv_def)
  from stop_keeps [OF this, of "wa_inner a"] have st: "ok s'" "\<And>es. follows s r v es \<Longrightarrow> follows s' r v es"
      "\<And>es. subscribed s x es \<Longrightarrow> subscribed s' x es"
    unfolding a'(1) by blast+
  show ?case
    by (rule inv_store_step [OF reach_stop.IH st(1), of "[]"]) (use a' st in simp_all)
next
  case (reach_other s a got s')
  have "ok s" "wa_inner a = x" using reach_other.IH by (simp_all add: lw_inv_def)
  with env_keeps [OF _ reach_other.hyps(2)] obtain es' where s': "ok s'"
      "\<forall>r b es. follows s r b es \<longrightarrow> follows s' r b (es @ es')" "\<forall>es. subscribed s x es \<longrightarrow> subscribed s' x (es @ es')"
    by blast
  show ?case
    by (rule inv_store_step [OF reach_other.IH s'(1)]) (use s'(2,3) in \<open>force+\<close>)
qed

lemma env_steps:
  assumes "(env None)\<^sup>*\<^sup>* s s'" and "ok s" and "follows s r b es"
  shows "ok s' \<and> (\<exists>es'. follows s' r b (es @ es'))"
  using assms
proof (induction rule: rtranclp_induct)
  case base
  then show ?case by (auto intro: exI [of _ "[]"])
next
  case (step t u)
  then obtain es' where "ok t" "follows t r b (es @ es')" by blast
  with env_keeps [OF \<open>ok t\<close> step.hyps(2)] show ?case by (metis append.assoc)
qed

lemma open_initial:
  assumes "ok s" and "list_ok (lw_listObj lw)" and "extracts_items al" and "(env None)\<^sup>*\<^sup>* s (between s)"
    and "\<And>rv. bookmarkForList sch zeroItem (lw_listObj lw) rv = Inr (bm rv)"
    and "watchWithInitialEvents st sch al zeroItem between lw [] None s = (s2, res)"
  shows "(\<exists>e r. res = Inl e \<and> isRevisionTooOld e \<and> fresh s r \<and> \<not> fresh (between s) r) \<or>
    (\<exists>x items rv r. res = Inr (newInitialEventsAdapter x (map RObject items) (bm rv) None) \<and>
       ParseInt rv = (r, None) \<and> fresh s r \<and> follows s r (vw s) [] \<and> distinct (map ObjectKeyFromObject items) \<and>
       (\<forall>k o1. vw s k = Some o1 \<longleftrightarrow> o1 \<in> set items \<and> ObjectKeyFromObject o1 = k) \<and>
       lw_inv ok follows subscribed None x r (vw s) (added_events (map RObject items) @ bookmark_events (bm rv))
         (s2, newInitialEventsAdapter x (map RObject items) (bm rv) None, []))"
proof -
  have plain: "plain_opts []" by (simp add: plain_opts_def applyListOptions_def emptyListOptions_def)
  obtain l' r where l': "st_List st s (lw_listObj lw) [] = (s, l', None)" "distinct (map ObjectKeyFromObject (Items l'))"
      "\<forall>k o1. vw s k = Some o1 \<longleftrightarrow> o1 \<in> set (Items l') \<and> ObjectKeyFromObject o1 = k"
      "ParseInt (ListResourceVersion l') = (r, None)" "follows s r (vw s) []" "fresh s r"
    using list_snapshot [OF assms(1,2) plain] by blast
  obtain es where t: "ok (between s)" "follows (between s) r (vw s) es"
    using env_steps [OF assms(4,1) l'(5)] by auto
  consider e where "st_Watch st (between s) (lw_listObj lw) [WatchFromRevision r] = (between s, Inl e)" "isRevisionTooOld e" "\<not> fresh (between s) r"
    | s' x where "st_Watch st (between s) (lw_listObj lw) [WatchFromRevision r] = (s', Inr x)" "ok s'" "follows s' r (vw s) es" "live s' x es"
    using watch_result [OF t(1) assms(2) plain t(2)] by blast
  then show ?thesis
  proof cases
    case 1
    with assms(3,6) l' show ?thesis by (auto simp: watchWithInitialEvents_def extracts_items_def)
  next
    case (2 s' x)
    let ?a = "newInitialEventsAdapter x (map RObject (Items l')) (bm (ListResourceVersion l')) None"
    have res: "res = Inr ?a" "s2 = s'"
      using 2(1) assms(3,5,6) l' by (auto simp: watchWithInitialEvents_def extracts_items_def)
    moreover have "lw_inv ok follows subscribed None x r (vw s)
        (added_events (map RObject (Items l')) @ bookmark_events (bm (ListResourceVersion l'))) (s', ?a, [])"
      using 2 live_subscribed unfolding lw_inv_def
      by (auto simp: newInitialEventsAdapter_def owed_def relay_drops_def intro!: exI [of _ "[]"] exI [of _ es])
    ultimately show ?thesis using l' by blast
  qed
qed

lemma inv_told:
  assumes "lw_inv ok follows subscribed None x r v initial (s, a, got)"
  obtains told later where "vw s = apply_events (told @ later) v" and "prefix (got @ wa_ch a) (initial @ map watchEvt told)"
    and "wa_at a \<noteq> RelayDone \<Longrightarrow> got @ wa_ch a @ owed (wa_at a) = initial @ map watchEvt told"
    and "wa_at a = RelayWait \<Longrightarrow> st_Recv st s x = (s', WouldBlock) \<Longrightarrow> later = []"
proof -
  have drops: "filter (\<lambda>e. \<not> relay_drops None e) told = told" for told by (simp add: relay_drops_def)
  obtain told es where l: "ok s" "follows s r v (told @ es)"
      "if wa_at a = RelayDone then prefix (got @ wa_ch a) (initial @ map watchEvt told)
       else got @ wa_ch a @ owed (wa_at a) = initial @ map watchEvt told \<and> subscribed s x es"
    using assms unfolding lw_inv_def drops by auto
  show thesis
  proof (rule that [of told es])
    show "vw s = apply_events (told @ es) v" using follows_view [OF l(1,2)] by blast
    show "prefix (got @ wa_ch a) (initial @ map watchEvt told)" using l(3) by (auto simp: prefix_def split: if_splits) (metis append.assoc)
    show "got @ wa_ch a @ owed (wa_at a) = initial @ map watchEvt told" if "wa_at a \<noteq> RelayDone" using l(3) that by simp
    show "es = []" if "wa_at a = RelayWait" "st_Recv st s x = (s', WouldBlock)"
      using recv_blocked [OF l(1) _ that(2)] l(3) that(1) by auto
  qed
qed

lemma initial_events:
  assumes "ok s" and "list_ok (lw_listObj lw)" and "extracts_items al" and "(env None)\<^sup>*\<^sup>* s (between s)"
    and bm: "\<And>rv. bookmarkForList sch zeroItem (lw_listObj lw) rv = Inr (bm rv)"
    and "mo_LabelSelector options = []" and "mo_SendInitialEvents options = Some True"
    and res: "lw_Watch st sch al parse zeroItem between lw options s = (s2, res)"
  shows "(\<exists>e r. res = Inl e \<and> isRevisionTooOld e \<and> fresh s r \<and> \<not> fresh (between s) r) \<or>
    (\<exists>a items rv r. res = Inr a \<and> ParseInt rv = (r, None) \<and> fresh s r \<and> follows s r (vw s) [] \<and>
       distinct (map ObjectKeyFromObject items) \<and>
       (\<forall>k o1. vw s k = Some o1 \<longleftrightarrow> o1 \<in> set items \<and> ObjectKeyFromObject o1 = k) \<and>
       (\<forall>s' a' got. lw_reach st env (s2, a) (s', a', got) \<longrightarrow>
         (\<exists>told later. vw s' = apply_events (told @ later) (vw s) \<and>
           prefix (got @ wa_ch a') (added_events (map RObject items) @ bookmark_events (bm rv) @ map watchEvt told)) \<and>
         (wa_at a' = RelayWait \<and> wa_ch a' = [] \<and> snd (st_Recv st s' (wa_inner a')) = WouldBlock \<longrightarrow>
           fold reflect got Map.empty = vw s')))"
proof -
  have "watchWithInitialEvents st sch al zeroItem between lw [] None s = (s2, res)"
    using assms(6-8) by (simp add: lw_Watch_def parseListOpts_def)
  from open_initial [OF assms(1-4) bm this] show ?thesis
  proof (elim disjE exE conjE)
    fix x items rv r
    let ?a = "newInitialEventsAdapter x (map RObject items) (bm rv) None"
    let ?initial = "added_events (map RObject items) @ bookmark_events (bm rv)"
    assume a: "res = Inr ?a" "ParseInt rv = (r, None)" "fresh s r" "follows s r (vw s) []" and d: "distinct (map ObjectKeyFromObject items)"
      and v: "\<forall>k o1. vw s k = Some o1 \<longleftrightarrow> o1 \<in> set items \<and> ObjectKeyFromObject o1 = k"
      and inv: "lw_inv ok follows subscribed None x r (vw s) ?initial (s2, ?a, [])"
    have "(\<exists>told later. vw s' = apply_events (told @ later) (vw s) \<and> prefix (got @ wa_ch a') (?initial @ map watchEvt told)) \<and>
        (wa_at a' = RelayWait \<and> wa_ch a' = [] \<and> snd (st_Recv st s' (wa_inner a')) = WouldBlock \<longrightarrow> fold reflect got Map.empty = vw s')"
      if reach: "lw_reach st env (s2, ?a) (s', a', got)" for s' a' got
    proof -
      note inv' = reach_inv [OF reach inv]
      have x: "wa_inner a' = x" using inv' by (simp add: lw_inv_def)
      obtain told later where t: "vw s' = apply_events (told @ later) (vw s)" "prefix (got @ wa_ch a') (?initial @ map watchEvt told)"
          "wa_at a' \<noteq> RelayDone \<Longrightarrow> got @ wa_ch a' @ owed (wa_at a') = ?initial @ map watchEvt told"
          "wa_at a' = RelayWait \<Longrightarrow> st_Recv st s' x = (fst (st_Recv st s' x), WouldBlock) \<Longrightarrow> later = []"
        using inv_told [OF inv'] by blast
      have "fold reflect got Map.empty = vw s'"
        if c: "wa_at a' = RelayWait" "wa_ch a' = []" "snd (st_Recv st s' (wa_inner a')) = WouldBlock"
      proof -
        have "st_Recv st s' x = (fst (st_Recv st s' x), WouldBlock)" using c(3) x by (metis prod.collapse)
        with t(1,3,4) c(1,2) show ?thesis by (simp add: reflect_live reflect_added [OF d v])
      qed
      with t(1,2) show ?thesis by blast
    qed
    with a d v show ?thesis by (intro disjI2 exI [of _ ?a] exI [of _ items] exI [of _ rv] exI [of _ r]) simp
  qed blast
qed

end

end
