(* ===== verification/Lister_Props.thy ===== *)
theory Lister_Props
  imports Lister_Follow Cache_Memory
begin

text \<open>
  The properties of the adapter over the memory store: what a reflector gets when it asks for
  initial events, what a label selector does to it, and that the goroutine ends after \<open>Stop\<close>.
\<close>

section \<open>Initial events\<close>

definition initialBookmark :: "(string \<Rightarrow> object) \<Rightarrow> object_list \<Rightarrow> string \<Rightarrow> object" where
  "initialBookmark zeroItem l rv =
     SetAnnotations (fmupd InitialEventsAnnotationKey ''true'' fmempty) (SetResourceVersion rv (zeroItem (ListType l)))"

lemma bookmarkForList_items:
  "sch_itemsField sch (ListType l) = ItemsOf ty \<Longrightarrow> bookmarkForList sch zeroItem l rv = Inr (Some (initialBookmark zeroItem l rv))"
  by (simp add: bookmarkForList_def initialBookmark_def)

lemma mem_fresh_follows:
  "mem_fresh s r \<Longrightarrow> mem_follows gvk s r (mem_view s gvk) [] \<Longrightarrow> r = revision s"
  by (auto simp: mem_fresh_def mem_follows_def mem_history_def)


section \<open>Opening a stream\<close>

definition selects :: "label_selector option \<Rightarrow> object \<Rightarrow> bool" where
  "selects sel o1 = (case sel of None \<Rightarrow> True | Some f \<Rightarrow> sel_Matches f (GetLabels o1))"

lemma parseListOpts_options:
  assumes "parseListOpts parse options = Inr (opts, sel)"
  shows "applyListOptions opts = emptyListOptions\<lparr>lo_LabelSelector := sel\<rparr>" and "watchFrom (opts @ [WatchFromRevision r]) None = Some r"
    and "applyListOptions (opts @ [WatchFromRevision r]) = emptyListOptions\<lparr>lo_LabelSelector := sel\<rparr>"
  using assms by (auto simp: parseListOpts_def applyListOptions_def emptyListOptions_def split: if_splits sum.splits)

lemma mem_stream_opens:
  assumes inv: "mem_inv sch s0" and kind: "kind_ok sch gvk ty" and l: "mem_list_ok sch gvk ty (lw_listObj lw)" and al: "extracts_items al"
    and parse: "parseListOpts parse options = Inr (opts, sel)" and "mo_SendInitialEvents options = Some True"
  obtains s1 items rv where
    "lw_Watch (memStore sch) sch al parse zeroItem id lw options s0 =
       (s1, Inr (newInitialEventsAdapter (nextWatcher s0) (map RObject items) (Some (initialBookmark zeroItem (lw_listObj lw) rv)) sel))"
    and "ParseInt rv = (revision s0, None)" and "distinct (map ObjectKeyFromObject items)"
    and "set items = {o1. \<exists>k. mem_view s0 gvk k = Some o1 \<and> selects sel o1}"
    and "mem_inv sch s1" and "mem_quiet s0 s1" and "mem_watch_ok (nextWatcher s0) gvk [] [] s1"
    and "w_closed (wheap s1 (nextWatcher s0)) = False" and "w_cap (wheap s1 (nextWatcher s0)) = 100"
proof -
  let ?wo = "opts @ [WatchFromRevision (revision s0)]" and ?l = "lw_listObj lw"
  have gvk: "mem_gvkForList sch ?l = Inr gvk" "sch_itemsField sch (ListType ?l) = ItemsOf ty" using l by (simp_all add: mem_list_ok_def)
  have "\<forall>k o1. mem_view s0 gvk k = Some o1 \<longrightarrow> GoType o1 = ty"
    using mem_view_Some [OF inv] kind unfolding kind_ok_def mem_obj_ok_def by metis
  from mem_list_items [OF inv gvk this refl, of opts] obtain out where out: "mem_List sch s0 ?l opts = (out, None)"
      "ParseInt (ListResourceVersion out) = (revision s0, None)" "distinct (map ObjectKeyFromObject (Items out))"
      "set (Items out) = {o1. \<exists>k. mem_view s0 gvk k = Some o1 \<and> selects sel o1}"
    unfolding parseListOpts_options(1) [OF parse] by (auto simp: emptyListOptions_def selects_def)
  have replay: "mem_replay s0 ?wo gvk = Inr []"
    by (simp add: mem_replay_def parseListOpts_options(2) [OF parse] mem_eventsSince_def)
  note watch = mem_Watch_eq [OF gvk(1) replay] and ok = mem_Watch_watch_ok [OF gvk(1) replay]
  define s1 where "s1 = fst (mem_Watch sch s0 ?l ?wo)"
  have w: "mem_Watch sch s0 ?l ?wo = (s1, Inr (nextWatcher s0))" using watch by (simp add: s1_def)
  show thesis
  proof (rule that [of s1 "Items out" "ListResourceVersion out"])
    show "lw_Watch (memStore sch) sch al parse zeroItem id lw options s0 = (s1, Inr (newInitialEventsAdapter (nextWatcher s0)
        (map RObject (Items out)) (Some (initialBookmark zeroItem ?l (ListResourceVersion out))) sel))"
      using assms(6) parse out(1,2) al w
      by (simp add: lw_Watch_def watchWithInitialEvents_def extracts_items_def bookmarkForList_items [OF gvk(2)])
    show "mem_inv sch s1" "mem_quiet s0 s1" using mem_Watch_quiet [OF inv, of ?l ?wo] w by simp_all
    show "mem_watch_ok (nextWatcher s0) gvk [] [] s1" using ok by (simp add: s1_def mem_replayFilter_def split: option.splits)
    show "w_closed (wheap s1 (nextWatcher s0)) = False" "w_cap (wheap s1 (nextWatcher s0)) = 100"
      by (simp_all add: s1_def watch mem_replayFilter_def watchBufSize_def split: option.split)
  qed (use out in simp_all)
qed

section \<open>A concrete stream\<close>

definition log_since :: "MemoryStore \<Rightarrow> int \<Rightarrow> eventLogEntry list" where
  "log_since s r = last_n (nat (revision s - r)) (eventLog s)"

definition widgetLW :: StoreListerWatcher where
  "widgetLW = NewStoreListerWatcher zeroWidgetList"

definition streamOptions :: "string \<Rightarrow> MetaListOptions" where
  "streamOptions sel = \<lparr>mo_LabelSelector = sel, mo_ResourceVersion = [], mo_SendInitialEvents = Some True\<rparr>"

definition noTier :: label_selector where
  "noTier = \<lparr>sel_Matches = (\<lambda>m. fmlookup m ''tier'' = None), sel_Empty = False\<rparr>"

abbreviation widgetWatch :: "string \<Rightarrow> MemoryStore \<times> (error + watchAdapter)" where
  "widgetWatch sel \<equiv> lw_Watch (memStore testScheme) testScheme plainLib (\<lambda>_. Inr noTier) (\<lambda>_. zeroWidget) id widgetLW (streamOptions sel) store1"

abbreviation widgetReach :: "MemoryStore \<times> watchAdapter \<Rightarrow> MemoryStore \<times> watchAdapter \<times> watch_Event list \<Rightarrow> bool" where
  "widgetReach \<equiv> lw_reach (memStore testScheme) (mem_env testScheme)"

lemma widget_stream_ok:
  "kind_ok testScheme widgetGVK ''storetest.testWidget''"
  "mem_list_ok testScheme widgetGVK ''storetest.testWidget'' (lw_listObj widgetLW)" "extracts_items plainLib"
  using widget_setup
  by (simp_all add: informer_setup_def mem_list_ok_def widgetLW_def NewStoreListerWatcher_def) (simp add: testScheme_def zeroWidgetList_def)

lemma eventLogMax_store1: "eventLogMax store1 = 5"
proof -
  obtain h where "mem_extends empty5 h (mem_execs testScheme [OpCreate widget1] empty5)"
    by (rule mem_run_history [OF empty5_inv, of "[OpCreate widget1]"]) (simp_all add: MaxInt64_def)
  then show ?thesis by (simp add: mem_extends_def store1_def)
qed

text \<open>The stream of the store with one widget: the reflector takes the widget and the bookmark, then a client adds a label.\<close>

lemma widget_stream_run:
  assumes "parseListOpts (\<lambda>_. Inr noTier) (streamOptions str) = Inr (opts, sel)" and "selects sel created1"
  obtains s1 a a2 s2 s3 new rv where "widgetWatch str = (s1, Inr a)"
    and "widgetReach (s1, a) (s2, a2, added_events [RObject created1] @ bookmark_events (Some (initialBookmark (\<lambda>_. zeroWidget) zeroWidgetList rv)))"
    and "wa_at a2 = RelayWait" and "wa_ch a2 = []" and "wa_selector a2 = sel" and "wa_stopped a2 = False"
    and "mem_Recv s2 (wa_inner a2) = (s3, Received \<lparr>ev_Type = EventModified, ev_Object = new\<rparr>)"
    and "mem_Recv s3 (wa_inner a2) = (s3, WouldBlock)"
    and "ObjectKeyFromObject new = key1" and "GetLabels new = GetLabels labelled1"
    and "mem_view s3 widgetGVK key1 = Some new" and "revision s3 = 2" and "eventLogMax s3 = 5"
    and "events_for widgetGVK (log_since s3 1) = [\<lparr>ev_Type = EventModified, ev_Object = new\<rparr>]"
proof -
  let ?x = "nextWatcher store1"
  obtain s1 items rv where o: "widgetWatch str =
        (s1, Inr (newInitialEventsAdapter ?x (map RObject items) (Some (initialBookmark (\<lambda>_. zeroWidget) zeroWidgetList rv)) sel))"
      "distinct (map ObjectKeyFromObject items)" "set items = {o1. \<exists>k. mem_view store1 widgetGVK k = Some o1 \<and> selects sel o1}"
      "mem_inv testScheme s1" "mem_quiet store1 s1" "mem_watch_ok ?x widgetGVK [] [] s1" "w_closed (wheap s1 ?x) = False" "w_cap (wheap s1 ?x) = 100"
    by (rule mem_stream_opens [OF store1(1) widget_stream_ok assms(1), of "\<lambda>_. zeroWidget"])
      (auto simp: streamOptions_def widgetLW_def NewStoreListerWatcher_def)
  have "set items = {created1}" using o(3) assms(2) by (auto simp: store1(4) split: if_splits)
  with o(2) have items: "items = [created1]" by (cases items; cases "tl items") auto
  let ?b = "initialBookmark (\<lambda>_. zeroWidget) zeroWidgetList rv"
  let ?a = "newInitialEventsAdapter ?x [RObject created1] (Some ?b) sel"
  let ?bm = "\<lparr>we_Type = watch_Bookmark, we_Object = RObject ?b\<rparr>" and ?ad = "\<lparr>we_Type = watch_Added, we_Object = RObject created1\<rparr>"
  let ?a2 = "?a\<lparr>wa_at := RelayWait\<rparr>"
  have "widgetReach (s1, ?a) (s1, ?a\<lparr>wa_ch := [?ad], wa_at := RelayItems [] (Some ?b)\<rparr>, [])"
    by (rule reach_relay [where stopFirst = False, OF reach_start [OF refl]])
      (simp add: initialEventsAdapter_run_def select_send_def newInitialEventsAdapter_def)
  then have "widgetReach (s1, ?a) (s1, ?a\<lparr>wa_ch := [?ad, ?bm], wa_at := RelayWait\<rparr>, [])"
    by (rule reach_relay [where stopFirst = False])
      (simp add: initialEventsAdapter_run_def select_send_def newInitialEventsAdapter_def)
  then have "widgetReach (s1, ?a) (s1, ?a\<lparr>wa_ch := [?bm], wa_at := RelayWait\<rparr>, [] @ [?ad])"
    by (rule reach_take) (simp add: adapter_ResultChan_def)
  then have run: "widgetReach (s1, ?a) (s1, ?a2, ([] @ [?ad]) @ [?bm])"
    by (rule reach_take) (simp add: adapter_ResultChan_def newInitialEventsAdapter_def)
  have s1: "revision s1 = 1" "mem_view s1 widgetGVK key1 = Some created1" "eventLogMax s1 = 5"
    using o(5) store1 eventLogMax_store1 by (simp_all add: mem_quiet_def)
  obtain new where new: "mem_commit s1 (fst (mem_Update testScheme s1 labelled1)) widgetGVK \<lparr>ev_Type = EventModified, ev_Object = new\<rparr>"
      "ObjectKeyFromObject new = key1" "GetLabels new = GetLabels labelled1"
    using labelled1_commit [OF o(4) _ s1(2)] s1(1) by (auto simp: MaxInt64_def)
  let ?s2 = "fst (mem_Update testScheme s1 labelled1)" and ?e = "\<lparr>ev_Type = EventModified, ev_Object = new\<rparr>"
  have "mem_env testScheme (Some (wa_inner ?a2)) s1 ?s2"
    using s1(1) unfolding mem_env_def by (intro conjI exI [of _ "OpUpdate labelled1"]) (simp_all add: MaxInt64_def)
  from reach_other [OF run this] have run2: "widgetReach (s1, ?a) (?s2, ?a2, ([] @ [?ad]) @ [?bm])" .
  have w: "wheap ?s2 ?x = (wheap s1 ?x)\<lparr>w_ch := [?e]\<rparr>"
    using new(1) o(6-8) by (auto simp: mem_commit_def mem_watch_ok_def memw_send_cases)
  let ?s3 = "fst (mem_Recv ?s2 ?x)"
  have q: "mem_quiet ?s2 ?s3" by (simp add: mem_quiet_def mem_Recv_def mem_view_def fun_eq_iff Let_def)
  show thesis
  proof (rule that [of s1 ?a ?s2 ?a2 rv ?s3 new])
    show "widgetWatch str = (s1, Inr ?a)" using o(1) items by simp
    show "widgetReach (s1, ?a) (?s2, ?a2, added_events [RObject created1] @ bookmark_events (Some ?b))"
      using run2 by (simp add: added_events_def bookmark_events_def)
    show "mem_Recv ?s2 (wa_inner ?a2) = (?s3, Received ?e)" "mem_Recv ?s3 (wa_inner ?a2) = (?s3, WouldBlock)"
      using w o(7) by (simp_all add: newInitialEventsAdapter_def mem_Recv_def memw_Recv_def Let_def)
    show "events_for widgetGVK (log_since ?s3 1) = [?e]"
      using new(1) s1 q unfolding mem_quiet_def by (simp add: mem_commit_def log_since_def last_n_def)
    show "mem_view ?s3 widgetGVK key1 = Some new" "revision ?s3 = 2" "eventLogMax ?s3 = 5"
      using new(1,2) s1 q unfolding mem_quiet_def by (simp_all add: mem_commit_def apply_event_cases)
  qed (use new(2,3) in \<open>simp_all add: newInitialEventsAdapter_def\<close>)
qed


section \<open>Selectors\<close>

lemma mem_history_log:
  assumes "mem_history s r h" and "revision s - r \<le> eventLogMax s"
  shows "h = log_since s r"
proof -
  obtain pre where pre: "eventLog s = last_n (nat (eventLogMax s)) (pre @ h)" and len: "revision s = r + int (length h)"
    using assms(1) by (auto simp: mem_history_def)
  have "length h \<le> nat (eventLogMax s)" using assms(2) len by linarith
  then have "last_n (length h) (last_n (nat (eventLogMax s)) (pre @ h)) = h"
    by (simp add: last_n_def)
  with pre len show ?thesis by (simp add: log_since_def)
qed

lemma apply_events_other:
  "\<forall>e \<in> set es. ObjectKeyFromObject (ev_Object e) \<noteq> k \<Longrightarrow> apply_events es m k = m k"
  by (induction es arbitrary: m) (auto simp: apply_event.simps split: EventType.split)

lemma selected_view:
  assumes "mem_inv sch s" and "set items = {o1. \<exists>k. mem_view s gvk k = Some o1 \<and> selects sel o1}"
  shows "\<forall>k o1. (case mem_view s gvk k of Some o2 \<Rightarrow> if selects sel o2 then Some o2 else None | None \<Rightarrow> None) = Some o1 \<longleftrightarrow>
    o1 \<in> set items \<and> ObjectKeyFromObject o1 = k"
proof -
  have "ObjectKeyFromObject o1 = k" if "mem_view s gvk k = Some o1" for k o1
    using mem_view_Some [OF assms(1) that] by (auto simp: mem_obj_ok_def)
  then show ?thesis unfolding assms(2) by (auto split: option.split)
qed

lemma mem_follows_now: "mem_inv sch s \<Longrightarrow> mem_follows gvk s (revision s) (mem_view s gvk) []"
  by (auto simp: mem_follows_def mem_history_def mem_inv_def mem_log_ok_def last_n_all nat_le_iff
      intro!: exI [of _ "[]"] exI [of _ "eventLog s"])

text \<open>
  C33. What a label selector does to a stream of initial events. When the goroutine waits for a
  watcher that has nothing, the reflector's picture is the list of the matching objects, with those
  of the later events applied whose object matches. An object that stops matching sends no
  matching event: the reflector keeps it, as it was listed.
\<close>

theorem lw_selector_picture:
  assumes "mem_inv sch s0" and "kind_ok sch gvk ty" and "mem_list_ok sch gvk ty (lw_listObj lw)" and "extracts_items al"
    and "mo_LabelSelector options \<noteq> []" and "parse (mo_LabelSelector options) = Inr sel" and "mo_SendInitialEvents options = Some True"
    and "lw_Watch (memStore sch) sch al parse zeroItem id lw options s0 = (s1, Inr a)"
    and "lw_reach (memStore sch) (mem_env sch) (s1, a) (s, a', got)"
    and "wa_at a' = RelayWait" and "wa_ch a' = []" and "snd (mem_Recv s (wa_inner a')) = WouldBlock"
    and "revision s - revision s0 \<le> eventLogMax s"
  defines "listed \<equiv> (\<lambda>k. case mem_view s0 gvk k of
      Some o1 \<Rightarrow> if sel_Matches sel (GetLabels o1) then Some o1 else None | None \<Rightarrow> None)"
    and "since \<equiv> events_for gvk (log_since s (revision s0))"
  shows "mem_view s gvk = apply_events since (mem_view s0 gvk) \<and>
    fold reflect got Map.empty = apply_events (filter (\<lambda>e. \<not> relay_drops (Some sel) e) since) listed \<and>
    ((\<forall>e \<in> set since. ObjectKeyFromObject (ev_Object e) = k \<longrightarrow> relay_drops (Some sel) e) \<longrightarrow>
      fold reflect got Map.empty k = listed k)"
proof -
  have parse: "parseListOpts parse options = Inr ([MatchingLabelsSelector sel], Some sel)"
    using assms(5,6) by (simp add: parseListOpts_def)
  obtain items rv where o: "a = newInitialEventsAdapter (nextWatcher s0) (map RObject items)
        (Some (initialBookmark zeroItem (lw_listObj lw) rv)) (Some sel)"
      "distinct (map ObjectKeyFromObject items)" "set items = {o1. \<exists>k. mem_view s0 gvk k = Some o1 \<and> selects (Some sel) o1}"
      "mem_inv sch s1" "mem_quiet s0 s1" "mem_watch_ok (nextWatcher s0) gvk [] [] s1"
    by (rule mem_stream_opens [OF assms(1-4) parse assms(7), of zeroItem]) (use assms(8) in auto)
  let ?x = "nextWatcher s0" and ?bm = "bookmark_events (Some (initialBookmark zeroItem (lw_listObj lw) rv))"
  let ?initial = "added_events (map RObject items) @ ?bm"
  have "mem_follows gvk s1 (revision s0) (mem_view s0 gvk) []"
    using mem_follows_quiet [OF mem_follows_now [OF assms(1)] o(5)] .
  then have "lw_inv (mem_ok sch gvk ty) (mem_follows gvk) (mem_subscribed gvk) (Some sel) ?x (revision s0) (mem_view s0 gvk) ?initial (s1, a, [])"
    using o(4,6) assms(2) unfolding lw_inv_def prod.case
    by (intro conjI exI [of _ "[]"]) (simp_all add: o(1) newInitialEventsAdapter_def owed_def mem_ok_def mem_subscribed_def)
  from watched_store.reach_inv [OF memwatch.watched_store_axioms assms(9) this]
  obtain told es where t: "mem_ok sch gvk ty s" "wa_inner a' = ?x" "mem_follows gvk s (revision s0) (mem_view s0 gvk) (told @ es)"
      "got = ?initial @ map watchEvt (filter (\<lambda>e. \<not> relay_drops (Some sel) e) told)" "mem_subscribed gvk s ?x es"
    using assms(10,11) by (auto simp: lw_inv_def)
  have "es = []" using mem_recv_other(2) [OF t(5)] assms(12) t(2) by (metis prod.collapse)
  then obtain h where h: "mem_history s (revision s0) h" "told = events_for gvk h" "mem_view s gvk = apply_events told (mem_view s0 gvk)"
    using t(3) by (auto simp: mem_follows_def)
  have since: "told = since" using h(2) mem_history_log [OF h(1) assms(13)] by (simp add: since_def)
  have listed: "fold reflect ?initial Map.empty = listed"
    using reflect_added [OF o(2) selected_view [OF assms(1) o(3)]] unfolding listed_def selects_def option.case by simp
  have pic: "fold reflect got Map.empty = apply_events (filter (\<lambda>e. \<not> relay_drops (Some sel) e) since) listed"
    using listed by (simp add: t(4) reflect_live since)
  moreover have "fold reflect got Map.empty k = listed k"
    if "\<forall>e \<in> set since. ObjectKeyFromObject (ev_Object e) = k \<longrightarrow> relay_drops (Some sel) e"
    unfolding pic using that by (intro apply_events_other) auto
  ultimately show ?thesis using h(3) since by blast
qed

text \<open>Witness of C33: the widget got the label that the selector excludes, and the reflector still holds it.\<close>

theorem lw_selector_picture_witness:
  "\<exists>s1 a s a' got new. widgetWatch ''!tier'' = (s1, Inr a) \<and> widgetReach (s1, a) (s, a', got) \<and>
     mem_view s widgetGVK key1 = Some new \<and> \<not> sel_Matches noTier (GetLabels new) \<and>
     fold reflect got Map.empty key1 = Some created1"
proof -
  have p: "parseListOpts (\<lambda>_. Inr noTier) (streamOptions ''!tier'') = Inr ([MatchingLabelsSelector noTier], Some noTier)"
      "selects (Some noTier) created1"
    by (simp_all add: parseListOpts_def streamOptions_def selects_def noTier_def)
  obtain s1 a a2 s2 s3 new rv where r: "widgetWatch ''!tier'' = (s1, Inr a)"
      "widgetReach (s1, a) (s2, a2, added_events [RObject created1] @ bookmark_events (Some (initialBookmark (\<lambda>_. zeroWidget) zeroWidgetList rv)))"
      "wa_at a2 = RelayWait" "wa_ch a2 = []" "wa_selector a2 = Some noTier" "wa_stopped a2 = False"
      "mem_Recv s2 (wa_inner a2) = (s3, Received \<lparr>ev_Type = EventModified, ev_Object = new\<rparr>)"
      "mem_Recv s3 (wa_inner a2) = (s3, WouldBlock)" "GetLabels new = GetLabels labelled1" "mem_view s3 widgetGVK key1 = Some new"
      "revision s3 = 2" "eventLogMax s3 = 5" "events_for widgetGVK (log_since s3 1) = [\<lparr>ev_Type = EventModified, ev_Object = new\<rparr>]"
    by (rule widget_stream_run [OF p])
  let ?got = "added_events [RObject created1] @ bookmark_events (Some (initialBookmark (\<lambda>_. zeroWidget) zeroWidgetList rv))"
  have drop: "relay_drops (Some noTier) \<lparr>ev_Type = EventModified, ev_Object = new\<rparr>" "\<not> sel_Matches noTier (GetLabels new)"
    using labelled1_simps(7) by (simp_all add: relay_drops_def noTier_def r(9))
  have run: "widgetReach (s1, a) (s3, a2, ?got)"
    by (rule reach_relay [where stopFirst = False, OF r(2)])
      (simp add: initialEventsAdapter_run_def watchAdapter_relay_def drop r(3,5-7))
  have "fold reflect ?got Map.empty key1 = Some created1"
    using lw_selector_picture [OF store1(1) widget_stream_ok _ _ _ r(1) run r(3,4), of noTier key1] r(8,11-13) drop(1) store1(2,3)
    by (simp add: streamOptions_def) (simp add: noTier_def)
  with r(1,10) run drop(2) show ?thesis by blast
qed

section \<open>Stop\<close>

text \<open>A step of the goroutine, a receive of the consumer, or an operation of another client of the store.\<close>

datatype lw_act = ActRelay bool | ActTake | ActClient mem_op

fun lw_exec :: "scheme \<Rightarrow> lw_act \<Rightarrow> MemoryStore \<times> watchAdapter \<Rightarrow> MemoryStore \<times> watchAdapter" where
  "lw_exec sch (ActRelay stopFirst) c = initialEventsAdapter_run (memStore sch) stopFirst c"
| "lw_exec sch ActTake (s, a) = (s, fst (adapter_ResultChan a))"
| "lw_exec sch (ActClient op) (s, a) = (mem_exec sch op s, a)"

fun is_relay :: "lw_act \<Rightarrow> bool" where
  "is_relay (ActRelay _) = True"
| "is_relay _ = False"

text \<open>How many more steps a stopped goroutine takes at most.\<close>

definition relay_work :: "MemoryStore \<times> watchAdapter \<Rightarrow> nat" where
  "relay_work c =
     (case c of (s, a) \<Rightarrow>
       let n = 2 * length (w_ch (wheap s (wa_inner a)))
       in case wa_at a of RelayDone \<Rightarrow> 0 | RelayWait \<Rightarrow> n + 1 | RelaySend _ \<Rightarrow> n + 2 | RelayItems items _ \<Rightarrow> n + 2 + length items)"

definition relay_stopped :: "scheme \<Rightarrow> MemoryStore \<times> watchAdapter \<Rightarrow> bool" where
  "relay_stopped sch c \<longleftrightarrow>
     (case c of (s, a) \<Rightarrow> mem_inv sch s \<and> wa_inner a < nextWatcher s \<and> w_closed (wheap s (wa_inner a)) \<and> wa_stopped a)"

lemma closed_kept:
  assumes "mem_inv sch s" and "revision s < MaxInt64" and "x < nextWatcher s" and "w_closed (wheap s x)"
  shows "w_closed (wheap (mem_exec sch op s) x) \<and> length (w_ch (wheap (mem_exec sch op s) x)) \<le> length (w_ch (wheap s x)) \<and>
    x < nextWatcher (mem_exec sch op s)"
proof (cases "is_write op")
  case True
  with mem_write_effect [OF assms(1,2) True] assms(3,4) show ?thesis
    by (auto simp: mem_commit_def memw_send_cases)
next
  case False
  have watch: "w_closed (wheap (fst (mem_Watch sch s l opts)) x) \<and> w_ch (wheap (fst (mem_Watch sch s l opts)) x) = w_ch (wheap s x) \<and>
      x < nextWatcher (fst (mem_Watch sch s l opts))" for l opts
  proof (cases "mem_gvkForList sch l")
    case (Inr g)
    with assms(3,4) show ?thesis by (cases "mem_replay s opts g") (auto simp: mem_Watch_error mem_Watch_eq)
  qed (use assms(3,4) in \<open>simp add: mem_Watch_error\<close>)
  from False show ?thesis
  proof (cases op)
    case (OpWatch l opts)
    then show ?thesis using watch [of l opts] by simp
  next
    case (OpRecv j)
    then show ?thesis using assms(3,4) by (auto simp: mem_Recv_def memw_Recv_def Let_def split: list.split)
  next
    case (OpStop j)
    then show ?thesis using assms(3,4) by (auto simp: mem_Stop_def mem_removeWatcher_def Let_def)
  qed auto
qed

lemma revision_step:
  assumes "mem_inv sch s" and "revision s < MaxInt64"
  shows "mem_inv sch (mem_exec sch op s)" and "revision (mem_exec sch op s) \<le> revision s + 1"
  using mem_exec_effect [OF assms, of op] by (auto simp: mem_quiet_def mem_commit_def)

lemma stopped_relay:
  assumes "relay_stopped sch (s, a)" and "initialEventsAdapter_run (memStore sch) sf (s, a) = (s', a')"
  shows "relay_stopped sch (s', a') \<and> relay_work (s', a') \<le> relay_work (s, a) - 1 \<and> revision s' = revision s"
proof -
  have st: "mem_inv sch s" "wa_inner a < nextWatcher s" "w_closed (wheap s (wa_inner a))" "wa_stopped a"
    using assms(1) by (simp_all add: relay_stopped_def)
  show ?thesis
  proof (cases "wa_at a = RelayWait \<and> \<not> sf")
    case True
    have "mem_inv sch (fst (mem_Recv s (wa_inner a)))" "mem_quiet s (fst (mem_Recv s (wa_inner a)))"
      using mem_Recv_quiet [OF st(1)] by simp_all
    with True st assms(2) show ?thesis
      by (cases "w_ch (wheap s (wa_inner a))")
        (auto simp: initialEventsAdapter_run_def watchAdapter_relay_def mem_Recv_def memw_Recv_def relay_stopped_def relay_work_def
          Let_def mem_quiet_def fun_upd_idem split: if_splits)
  next
    case False
    with st assms(2) show ?thesis
      by (cases "wa_at a")
        (auto simp: initialEventsAdapter_run_def watchAdapter_relay_def select_send_def relay_stopped_def relay_work_def Let_def
          split: list.splits option.splits if_splits)
  qed
qed

lemma stopped_runs:
  assumes "relay_stopped sch c" and "revision (fst c) + int (length acts) \<le> MaxInt64"
    and "relay_work c \<le> length (filter is_relay acts)"
  shows "relay_work (fold (lw_exec sch) acts c) = 0"
  using assms
proof (induction acts arbitrary: c)
  case (Cons act acts)
  obtain s a where c: "c = (s, a)" by (cases c)
  have st: "mem_inv sch s" "wa_inner a < nextWatcher s" "w_closed (wheap s (wa_inner a))" "wa_stopped a" and lt: "revision s < MaxInt64"
    using Cons.prems(1,2) by (simp_all add: c relay_stopped_def)
  have "relay_stopped sch (lw_exec sch act c) \<and> revision (fst (lw_exec sch act c)) \<le> revision s + 1 \<and>
      relay_work (lw_exec sch act c) \<le> relay_work c - (if is_relay act then 1 else 0)"
  proof (cases act)
    case (ActRelay sf)
    obtain s' a' where "initialEventsAdapter_run (memStore sch) sf (s, a) = (s', a')" by fastforce
    with stopped_relay [OF Cons.prems(1) [unfolded c]] ActRelay show ?thesis by (simp add: c)
  next
    case ActTake
    with st show ?thesis
      by (auto simp: c adapter_ResultChan_def relay_stopped_def relay_work_def Let_def split: list.split relay_at.split)
  next
    case (ActClient op)
    from closed_kept [OF st(1) lt st(2,3), of op] revision_step [OF st(1) lt, of op] st(4) ActClient show ?thesis
      by (auto simp: c relay_stopped_def relay_work_def Let_def split: relay_at.split)
  qed
  with Cons.IH [of "lw_exec sch act c"] Cons.prems(2,3) c show ?case by (auto split: if_splits)
qed simp

text \<open>
  C34. \<open>Stop\<close> ends the goroutine: wherever it is, blocked on a full channel or waiting, and whatever
  the consumer, the other clients of the store and the choices of \<open>select\<close> do, it has returned and
  closed its channel after at most \<open>relay_work\<close> steps of its own, a bound that does not count on anyone
  to receive from the channel.
\<close>

theorem lw_stop_ends:
  assumes "mem_inv sch s" and "wa_inner a < nextWatcher s" and "revision s + int (length acts) \<le> MaxInt64"
    and "relay_work (s, a) \<le> length (filter is_relay acts)"
  shows "wa_at (snd (fold (lw_exec sch) acts (adapter_Stop (memStore sch) (s, a)))) = RelayDone"
proof -
  let ?c = "adapter_Stop (memStore sch) (s, a)"
  have q: "mem_inv sch (mem_Stop s (wa_inner a))" "mem_quiet s (mem_Stop s (wa_inner a))" using mem_Stop_quiet [OF assms(1)] by simp_all
  have "relay_stopped sch ?c" "revision (fst ?c) = revision s" "relay_work ?c = relay_work (s, a)"
    using assms(2) q
    by (auto simp: adapter_Stop_def relay_stopped_def relay_work_def mem_Stop_def mem_removeWatcher_def mem_quiet_def Let_def
        split: relay_at.split)
  from stopped_runs [OF this(1), of acts] this(2,3) assms(3,4)
  have "relay_work (fold (lw_exec sch) acts ?c) = 0" by simp
  then show ?thesis by (auto simp: relay_work_def Let_def split: prod.splits relay_at.splits)
qed

text \<open>
  Witness of C34: the goroutine of a stream of one widget is stopped before it has sent anything,
  while a client deletes the widget.
\<close>

theorem lw_stop_ends_witness:
  "\<exists>s1 a. widgetWatch [] = (s1, Inr a) \<and> wa_at a \<noteq> RelayDone \<and>
     wa_at (snd (fold (lw_exec testScheme) [ActRelay False, ActClient (OpDelete widget1), ActRelay False, ActRelay True]
       (adapter_Stop (memStore testScheme) (s1, a)))) = RelayDone"
proof -
  let ?x = "nextWatcher store1"
  have p: "parseListOpts (\<lambda>_. Inr noTier) (streamOptions []) = Inr ([], None)"
    by (simp add: parseListOpts_def streamOptions_def)
  obtain s1 items rv where o: "widgetWatch [] = (s1, Inr (newInitialEventsAdapter ?x (map RObject items)
        (Some (initialBookmark (\<lambda>_. zeroWidget) zeroWidgetList rv)) None))"
      "distinct (map ObjectKeyFromObject items)" "set items = {o1. \<exists>k. mem_view store1 widgetGVK k = Some o1 \<and> selects None o1}"
      "mem_inv testScheme s1" "mem_quiet store1 s1" "mem_watch_ok ?x widgetGVK [] [] s1"
    by (rule mem_stream_opens [OF store1(1) widget_stream_ok p, of "\<lambda>_. zeroWidget"])
      (auto simp: streamOptions_def widgetLW_def NewStoreListerWatcher_def)
  have "set items = {created1}" using o(3) by (auto simp: store1(4) selects_def split: if_splits)
  with o(2) have items: "items = [created1]" by (cases items; cases "tl items") auto
  let ?a = "newInitialEventsAdapter ?x (map RObject items) (Some (initialBookmark (\<lambda>_. zeroWidget) zeroWidgetList rv)) None"
  have "revision s1 = 1" using o(5) store1(2) by (simp add: mem_quiet_def)
  moreover have "wa_inner ?a < nextWatcher s1" "relay_work (s1, ?a) = 3"
    using o(6) by (simp_all add: newInitialEventsAdapter_def relay_work_def mem_watch_ok_def items)
  ultimately have "wa_at (snd (fold (lw_exec testScheme) [ActRelay False, ActClient (OpDelete widget1), ActRelay False, ActRelay True]
      (adapter_Stop (memStore testScheme) (s1, ?a)))) = RelayDone"
    by (intro lw_stop_ends [OF o(4)]) (simp_all add: MaxInt64_def)
  with o(1) show ?thesis by (auto simp: newInitialEventsAdapter_def)
qed

end
