(* ===== verification/Memory_Types.thy ===== *)
theory Memory_Types
  imports File_Sim
begin

text \<open>
  Type soundness of the memory store. The contract \<open>json_types\<close> says which values clients pass; the
  store keeps only such values, of the kind they are filed under, in its maps, in its event log
  and in the channels of its watchers, and no operation on such a value fails to decode.
\<close>

section \<open>Typed states\<close>

definition of_kind :: "scheme \<Rightarrow> (object \<Rightarrow> bool) \<Rightarrow> GroupVersionKind \<Rightarrow> object \<Rightarrow> bool" where
  "of_kind sch good gvk o1 \<longleftrightarrow> good o1 \<and> mem_gvkForObject sch o1 = Inr gvk"

definition mem_typed :: "scheme \<Rightarrow> (object \<Rightarrow> bool) \<Rightarrow> MemoryStore \<Rightarrow> bool" where
  "mem_typed sch good s \<longleftrightarrow>
     (\<forall>gvk k o1. mem_view s gvk k = Some o1 \<longrightarrow> of_kind sch good gvk o1) \<and>
     (\<forall>en \<in> set (eventLog s). of_kind sch good (le_gvk en) (ev_Object (le_event en))) \<and>
     (\<forall>i. \<forall>e \<in> set (w_ch (wheap s i)). of_kind sch good (w_gvk (wheap s i)) (ev_Object e))"

lemma mem_typedD:
  assumes "mem_typed sch good s"
  shows "mem_view s gvk k = Some o1 \<Longrightarrow> of_kind sch good gvk o1"
    and "en \<in> set (eventLog s) \<Longrightarrow> of_kind sch good (le_gvk en) (ev_Object (le_event en))"
    and "e \<in> set (w_ch (wheap s i)) \<Longrightarrow> of_kind sch good (w_gvk (wheap s i)) (ev_Object e)"
  using assms by (simp_all add: mem_typed_def)

lemma mem_typed_new: "mem_typed sch good (mem_NewStore [mem_WithEventLogSize n])"
  by (simp add: mem_typed_def mem_NewStore_def mem_WithEventLogSize_def mem_view_def nil_watcher_def)

lemma memw_send_frame: "w_gvk (memw_send w e) = w_gvk w" "set (w_ch (memw_send w e)) \<subseteq> insert e (set (w_ch w))"
  by (cases "w_closed w"; cases "length (w_ch w) < w_cap w"; simp add: memw_send_cases subset_insertI)+

lemma mem_typed_commit:
  assumes inv: "mem_inv sch s" and ty: "mem_typed sch good s" and cm: "mem_commit s s' gvk e"
    and e: "of_kind sch good gvk (ev_Object e)"
  shows "mem_typed sch good s'"
proof -
  have "of_kind sch good g o1" if "mem_view s' g k = Some o1" for g k o1
    using that cm e mem_typedD(1) [OF ty, of g k o1]
    by (auto simp: mem_commit_def apply_event.simps split: EventType.splits if_splits)
  moreover have "of_kind sch good (le_gvk en) (ev_Object (le_event en))" if "en \<in> set (eventLog s')" for en
    using that cm e mem_typedD(2) [OF ty, of en] by (auto simp: mem_commit_def last_n_def dest!: in_set_dropD)
  moreover have "of_kind sch good (w_gvk (wheap s' i)) (ev_Object x)" if x: "x \<in> set (w_ch (wheap s' i))" for i x
  proof (cases "i \<in> set (watchers s gvk)")
    case True
    then have "w_gvk (wheap s i) = gvk" using inv by (simp add: mem_inv_def mem_watchers_ok_def)
    moreover have "wheap s' i = memw_send (wheap s i) e" using cm True by (simp add: mem_commit_def)
    ultimately show ?thesis
      using x e memw_send_frame [of "wheap s i" e] mem_typedD(3) [OF ty, of x i] by auto
  next
    case False
    with x cm mem_typedD(3) [OF ty, of x i] show ?thesis by (simp add: mem_commit_def)
  qed
  ultimately show ?thesis by (simp add: mem_typed_def)
qed

section \<open>Watchers\<close>

lemma mem_replay_log:
  "mem_replay s opts gvk = Inr es \<Longrightarrow> e \<in> set es \<Longrightarrow> \<exists>en \<in> set (eventLog s). le_gvk en = gvk \<and> le_event en = e"
  by (auto simp: mem_replay_def mem_eventsSince_def Let_def split: option.splits if_splits list.splits)

lemma mem_typed_Watch:
  assumes "mem_typed sch good s"
  shows "mem_typed sch good (fst (mem_Watch sch s lst opts))"
proof (cases "mem_gvkForList sch lst")
  case (Inl e)
  with assms show ?thesis by (simp add: mem_Watch_error)
next
  case gvk: (Inr gvk)
  show ?thesis
  proof (cases "mem_replay s opts gvk")
    case (Inl e)
    with gvk assms show ?thesis by (simp add: mem_Watch_error)
  next
    case (Inr es)
    have "of_kind sch good gvk (ev_Object e)" if "e \<in> set (mem_replayFilter (applyListOptions opts) es)" for e
    proof -
      have "e \<in> set es" using that by (auto simp: mem_replayFilter_def split: option.splits)
      from mem_replay_log [OF Inr this] mem_typedD(2) [OF assms] show ?thesis by blast
    qed
    with assms show ?thesis
      by (simp add: mem_Watch_eq [OF gvk Inr] mem_typed_def mem_view_def)
  qed
qed

lemma mem_typed_Recv: "mem_typed sch good s \<Longrightarrow> mem_typed sch good (fst (mem_Recv s i))"
  by (auto simp: mem_typed_def mem_Recv_def memw_Recv_def mem_view_def Let_def split: list.split)

lemma mem_typed_Stop: "mem_typed sch good s \<Longrightarrow> mem_typed sch good (mem_Stop s i)"
  by (auto simp: mem_typed_def mem_Stop_def mem_removeWatcher_def mem_view_def Let_def)

section \<open>Writes\<close>

text \<open>The errors that a client has to expect: the typed ones.\<close>

fun store_error :: "error option \<Rightarrow> bool" where
  "store_error None = True"
| "store_error (Some (AlreadyExistsError _)) = True"
| "store_error (Some (NotFoundError _)) = True"
| "store_error (Some (ConflictError _)) = True"
| "store_error _ = False"

context json_types
begin

lemma good_of_kind: "good o1 \<Longrightarrow> \<exists>gvk. of_kind sch good gvk o1"
  using good_kind [of o1] by (auto simp: of_kind_def)

lemma of_kind_type: "of_kind sch good gvk a \<Longrightarrow> of_kind sch good gvk b \<Longrightarrow> GoType a = GoType b"
  using good_type by (simp add: of_kind_def)

lemma of_kind_same: "of_kind sch good gvk a \<Longrightarrow> good b \<Longrightarrow> GoType b = GoType a \<Longrightarrow> of_kind sch good gvk b"
  using mem_gvkForObject_GoType [of b a sch] by (simp add: of_kind_def)

lemma copyBack_good:
  assumes "of_kind sch good gvk a" and "of_kind sch good gvk b"
  obtains o1 where "mem_copyBack sch s a b = (s, o1, None)" and "of_kind sch good gvk o1"
proof -
  have ty: "GoType a = GoType b" "good a" "good b" using assms of_kind_type [OF assms] by (simp_all add: of_kind_def)
  then obtain o1 where o1: "unmarshalInto sch (marshal Compact a) b = Inr o1" using copy_decodes by metis
  have "Body o1 = Body a"
    using good_full [OF ty(2)] ty(1) good_fields [OF ty(3,2)] o1 by (intro unmarshalInto_full_body) simp_all
  then have "good o1" using good_same [OF ty(2), of o1] unmarshalInto_Inr(1) [OF o1] ty(1) by simp
  then show thesis
    using that [of o1] o1 of_kind_same [OF assms(2), of o1] unmarshalInto_Inr(1) [OF o1]
    by (simp add: mem_copyBack_def mem_copyObject_def)
qed

lemma typed_Create:
  assumes "mem_inv sch s" and "mem_typed sch good s" and "revision s < MaxInt64" and "of_kind sch good gvk obj"
  obtains s' o1 e where "mem_Create sch s obj = (s', o1, e)" and "mem_typed sch good s'"
    and "of_kind sch good gvk o1" and "store_error e"
proof (cases "mem_view s gvk (ObjectKeyFromObject obj)")
  case None
  have gvk: "mem_gvkForObject sch obj = Inr gvk" using assms(4) by (simp add: of_kind_def)
  have new: "of_kind sch good gvk (mem_created s obj)"
    using assms(4) by (intro of_kind_same [OF assms(4)]) (simp_all add: of_kind_def mem_created_def)
  obtain s' where s': "mem_Create sch s obj = mem_copyBack sch s' (mem_created s obj) (mem_created s obj)"
      "mem_commit s s' gvk \<lparr>ev_Type = EventAdded, ev_Object = mem_created s obj\<rparr>"
    using mem_Create_commit [OF assms(1,3) gvk None] by metis
  obtain o1 where "mem_copyBack sch s' (mem_created s obj) (mem_created s obj) = (s', o1, None)" "of_kind sch good gvk o1"
    using new new by (rule copyBack_good)
  moreover have "mem_typed sch good s'"
    using mem_typed_commit [OF assms(1,2) s'(2)] new by simp
  ultimately show thesis using that s'(1) by simp
next
  case (Some o1)
  then have "mem_Create sch s obj = (s, obj, Some (AlreadyExistsError (ObjectKey_String (ObjectKeyFromObject obj))))"
    using assms(1,4) by (intro mem_Create_exists [of sch s obj gvk]) (simp_all add: of_kind_def)
  with assms that show thesis by simp
qed

text \<open>\<open>Update\<close> and \<open>UpdateStatus\<close> up to the merge.\<close>

lemma merged_good:
  assumes "of_kind sch good gvk stored" and "of_kind sch good gvk obj"
  obtains m m' where "mem_mergedSpec sch stored obj = Inr m" and "of_kind sch good gvk m"
    and "mem_mergedStatus sch stored obj = Inr m'" and "of_kind sch good gvk m'"
proof -
  have ty: "good stored" "good obj" "GoType stored = GoType obj" using assms of_kind_type [OF assms] by (simp_all add: of_kind_def)
  obtain m where m: "unmarshalInto sch (mem_mergeSpec (marshal Compact stored) (marshal Compact obj)) obj = Inr m"
      "good m" "GoType m = GoType obj"
    using merge_spec [OF ty, of Compact] unfolding compact_merge by metis
  obtain m' where m': "unmarshalInto sch (mem_mergeStatus (marshal Compact stored) (marshal Compact obj)) obj = Inr m'"
      "good m'" "GoType m' = GoType obj"
    using merge_status [OF ty, of Compact] unfolding compact_merge by metis
  show thesis
    by (rule that) (use m m' in \<open>auto simp: mem_mergedSpec_def mem_mergedStatus_def intro!: of_kind_same [OF assms(2)]\<close>)
qed

text \<open>The end of both: a commit or none, and the copy that the caller gets.\<close>

lemma typed_put:
  assumes "mem_inv sch s" and "mem_typed sch good s" and "of_kind sch good gvk obj" and "of_kind sch good gvk new"
    and "s' = s \<or> mem_commit s s' gvk \<lparr>ev_Type = EventModified, ev_Object = new\<rparr>"
  obtains o1 where "mem_copyBack sch s' new obj = (s', o1, None)" and "mem_typed sch good s'"
    and "of_kind sch good gvk o1" and "store_error None"
proof -
  obtain o1 where "mem_copyBack sch s' new obj = (s', o1, None)" "of_kind sch good gvk o1"
    using assms(4,3) by (rule copyBack_good)
  moreover have "mem_typed sch good s'"
    using assms(2,4,5) mem_typed_commit [OF assms(1,2)] by auto
  ultimately show thesis using that by simp
qed

lemma typed_Update:
  assumes "mem_inv sch s" and "mem_typed sch good s" and "revision s < MaxInt64" and obj: "of_kind sch good gvk obj"
  obtains s' o1 e where "mem_Update sch s obj = (s', o1, e)" and "mem_typed sch good s'"
    and "of_kind sch good gvk o1" and "store_error e"
proof -
  have gvk: "mem_gvkForObject sch obj = Inr gvk" using obj by (simp add: of_kind_def)
  show thesis
  proof (cases "\<exists>stored. mem_view s gvk (ObjectKeyFromObject obj) = Some stored \<and> GetResourceVersion obj = GetResourceVersion stored")
    case False
    then show thesis
      using mem_write_not_found(1) [OF gvk] mem_write_conflict(1) [OF gvk] assms(2) obj that
      by (cases "mem_view s gvk (ObjectKeyFromObject obj)") simp_all
  next
    case True
    then obtain stored where st: "mem_view s gvk (ObjectKeyFromObject obj) = Some stored"
        "GetResourceVersion obj = GetResourceVersion stored" by blast
    have ok: "of_kind sch good gvk stored" using mem_typedD(1) [OF assms(2) st(1)] .
    obtain m where m: "mem_mergedSpec sch stored obj = Inr m" "of_kind sch good gvk m" using ok obj by (rule merged_good)
    have "of_kind sch good gvk (mem_updated s stored obj m)"
      using m(2) by (intro of_kind_same [OF m(2)]) (simp_all add: of_kind_def mem_updated_def)
    with mem_Update_eq [OF assms(1,3) gvk st m(1)] ok
    obtain s' new where "mem_Update sch s obj = mem_copyBack sch s' new obj" "of_kind sch good gvk new"
        "s' = s \<or> mem_commit s s' gvk \<lparr>ev_Type = EventModified, ev_Object = new\<rparr>" by metis
    with typed_put [OF assms(1,2) obj] that show thesis by metis
  qed
qed

lemma typed_UpdateStatus:
  assumes "mem_inv sch s" and "mem_typed sch good s" and "revision s < MaxInt64" and obj: "of_kind sch good gvk obj"
  obtains s' o1 e where "mem_UpdateStatus sch s obj = (s', o1, e)" and "mem_typed sch good s'"
    and "of_kind sch good gvk o1" and "store_error e"
proof -
  have gvk: "mem_gvkForObject sch obj = Inr gvk" using obj by (simp add: of_kind_def)
  show thesis
  proof (cases "\<exists>stored. mem_view s gvk (ObjectKeyFromObject obj) = Some stored \<and> GetResourceVersion obj = GetResourceVersion stored")
    case False
    then show thesis
      using mem_write_not_found(2) [OF gvk] mem_write_conflict(2) [OF gvk] assms(2) obj that
      by (cases "mem_view s gvk (ObjectKeyFromObject obj)") simp_all
  next
    case True
    then obtain stored where st: "mem_view s gvk (ObjectKeyFromObject obj) = Some stored"
        "GetResourceVersion obj = GetResourceVersion stored" by blast
    have ok: "of_kind sch good gvk stored" using mem_typedD(1) [OF assms(2) st(1)] .
    obtain m where m: "mem_mergedStatus sch stored obj = Inr m" "of_kind sch good gvk m" using ok obj by (rule merged_good)
    have "of_kind sch good gvk (SetResourceVersion v m)" for v
      using m(2) by (intro of_kind_same [OF m(2)]) (simp_all add: of_kind_def)
    with mem_UpdateStatus_eq [OF assms(1,3) gvk st m(1)] ok
    obtain s' new where "mem_UpdateStatus sch s obj = mem_copyBack sch s' new obj" "of_kind sch good gvk new"
        "s' = s \<or> mem_commit s s' gvk \<lparr>ev_Type = EventModified, ev_Object = new\<rparr>" by metis
    with typed_put [OF assms(1,2) obj] that show thesis by metis
  qed
qed

lemma typed_Delete:
  assumes "mem_inv sch s" and "mem_typed sch good s" and "revision s < MaxInt64" and obj: "of_kind sch good gvk obj"
  obtains s' e where "mem_Delete sch s obj = (s', e)" and "mem_typed sch good s'" and "store_error e"
proof -
  have gvk: "mem_gvkForObject sch obj = Inr gvk" using obj by (simp add: of_kind_def)
  show thesis
  proof (cases "mem_view s gvk (ObjectKeyFromObject obj)")
    case None
    with mem_write_not_found(3) [OF gvk] assms(2) that show thesis by simp
  next
    case (Some stored)
    show thesis
    proof (cases "GetResourceVersion obj = [] \<or> GetResourceVersion obj = GetResourceVersion stored")
      case False
      with mem_write_conflict(3) [OF gvk Some] assms(2) that show thesis by simp
    next
      case rv: True
      have st: "of_kind sch good gvk stored" using mem_typedD(1) [OF assms(2) Some] .
      have "of_kind sch good gvk (SetResourceVersion v stored)" for v
        using st by (intro of_kind_same [OF st]) (simp_all add: of_kind_def)
      moreover obtain s' where "mem_Delete sch s obj = (s', None)"
          "mem_commit s s' gvk \<lparr>ev_Type = EventDeleted, ev_Object = SetResourceVersion (FormatInt (revision s + 1)) stored\<rparr>"
        using mem_Delete_commit [OF assms(1,3) gvk Some rv] by metis
      ultimately show thesis using that mem_typed_commit [OF assms(1,2)] by simp
    qed
  qed
qed

lemma typed_Get:
  assumes "mem_typed sch good s" and obj: "of_kind sch good gvk obj"
  shows "of_kind sch good gvk (fst (mem_Get sch s key obj)) \<and> store_error (snd (mem_Get sch s key obj))"
proof (cases "mem_view s gvk key")
  case None
  with obj show ?thesis by (simp add: mem_Get_view of_kind_def)
next
  case (Some stored)
  obtain o1 where "mem_copyBack sch s stored obj = (s, o1, None)" "of_kind sch good gvk o1"
    using mem_typedD(1) [OF assms(1) Some] obj by (rule copyBack_good)
  with Some obj mem_Get_view [of sch obj gvk s key] show ?thesis by (simp add: of_kind_def)
qed

end

section \<open>Runs\<close>

fun mem_op_typed :: "(object \<Rightarrow> bool) \<Rightarrow> mem_op \<Rightarrow> bool" where
  "mem_op_typed good (OpCreate o1) = good o1"
| "mem_op_typed good (OpUpdate o1) = good o1"
| "mem_op_typed good (OpUpdateStatus o1) = good o1"
| "mem_op_typed good (OpDelete o1) = good o1"
| "mem_op_typed good _ = True"

context json_types
begin

lemma typed_exec:
  assumes "mem_inv sch s" and "mem_typed sch good s" and "revision s < MaxInt64" and op: "mem_op_typed good op"
  shows "mem_typed sch good (mem_exec sch op s)"
proof -
  have w: "\<exists>gvk. of_kind sch good gvk o1" if "good o1" for o1 using that by (rule good_of_kind)
  show ?thesis
  proof (cases op)
    case (OpCreate o1)
    with op w obtain gvk where "of_kind sch good gvk o1" by auto
    with typed_Create [OF assms(1-3)] OpCreate show ?thesis by (metis fst_conv mem_exec.simps(1))
  next
    case (OpUpdate o1)
    with op w obtain gvk where "of_kind sch good gvk o1" by auto
    with typed_Update [OF assms(1-3)] OpUpdate show ?thesis by (metis fst_conv mem_exec.simps(2))
  next
    case (OpUpdateStatus o1)
    with op w obtain gvk where "of_kind sch good gvk o1" by auto
    with typed_UpdateStatus [OF assms(1-3)] OpUpdateStatus show ?thesis by (metis fst_conv mem_exec.simps(3))
  next
    case (OpDelete o1)
    with op w obtain gvk where "of_kind sch good gvk o1" by auto
    with typed_Delete [OF assms(1-3)] OpDelete show ?thesis by (metis fst_conv mem_exec.simps(4))
  qed (use assms(2) mem_typed_Watch mem_typed_Recv mem_typed_Stop in auto)
qed

lemma typed_execs:
  "mem_inv sch s \<Longrightarrow> mem_typed sch good s \<Longrightarrow> revision s + int (length ops) \<le> MaxInt64 \<Longrightarrow>
   list_all (mem_op_typed good) ops \<Longrightarrow> mem_typed sch good (mem_execs sch ops s)"
proof (induction ops arbitrary: s)
  case Nil
  then show ?case by simp
next
  case (Cons op ops)
  have lt: "revision s < MaxInt64" using Cons.prems(3) by simp
  have e: "mem_inv sch (mem_exec sch op s)" "revision (mem_exec sch op s) \<le> revision s + 1"
    using mem_exec_effect [OF Cons.prems(1) lt, of op] by (auto simp: mem_quiet_def mem_commit_def)
  have "mem_typed sch good (mem_exec sch op s)"
    using typed_exec [OF Cons.prems(1,2) lt] Cons.prems(4) by simp
  with Cons.IH e Cons.prems(3,4) show ?case by simp
qed

end

text \<open>
  C12. Type soundness of the memory store. If the registered Go types keep the JSON contract and
  clients pass values of them, then after every run each stored object, each entry of the event
  log and each event in a watcher's channel is a value of the type of the kind it is filed under;
  and from there no operation fails to decode: \<open>Create\<close>, \<open>Update\<close>, \<open>UpdateStatus\<close>, \<open>Delete\<close> and \<open>Get\<close>
  of such a value return nil or one of the typed errors, and the object they hand back is a value
  of its type again.
\<close>

theorem mem_type_sound:
  assumes "json_types sch good" and "0 \<le> n" and "int (length ops) < MaxInt64" and "list_all (mem_op_typed good) ops"
    and "of_kind sch good gvk obj"
  defines "s \<equiv> mem_execs sch ops (mem_NewStore [mem_WithEventLogSize n])"
  shows "mem_typed sch good s \<and>
    of_kind sch good gvk (fst (snd (mem_Create sch s obj))) \<and> store_error (snd (snd (mem_Create sch s obj))) \<and>
    of_kind sch good gvk (fst (snd (mem_Update sch s obj))) \<and> store_error (snd (snd (mem_Update sch s obj))) \<and>
    of_kind sch good gvk (fst (snd (mem_UpdateStatus sch s obj))) \<and> store_error (snd (snd (mem_UpdateStatus sch s obj))) \<and>
    of_kind sch good gvk (fst (mem_Get sch s key obj)) \<and> store_error (snd (mem_Get sch s key obj)) \<and>
    store_error (snd (mem_Delete sch s obj))"
proof -
  let ?t = "mem_NewStore [mem_WithEventLogSize n]"
  have t: "mem_inv sch ?t" "revision ?t = 0"
    using assms(2) by (simp_all add: mem_NewStore_inv) (simp add: mem_NewStore_def mem_WithEventLogSize_def)
  obtain h where "mem_inv sch s" "mem_extends ?t h s" "length h \<le> length ops"
    using mem_run_history [OF t(1), of ops] t(2) assms(3) unfolding s_def by auto
  then have s: "mem_inv sch s" "revision s < MaxInt64" using t(2) assms(3) by (auto simp: mem_extends_def)
  have ty: "mem_typed sch good s"
    using json_types.typed_execs [OF assms(1) t(1) mem_typed_new] t(2) assms(3,4) unfolding s_def by simp
  obtain s1 o1 e1 where "mem_Create sch s obj = (s1, o1, e1)" "of_kind sch good gvk o1" "store_error e1"
    using assms(1) s(1) ty s(2) assms(5) by (rule json_types.typed_Create)
  moreover obtain s2 o2 e2 where "mem_Update sch s obj = (s2, o2, e2)" "of_kind sch good gvk o2" "store_error e2"
    using assms(1) s(1) ty s(2) assms(5) by (rule json_types.typed_Update)
  moreover obtain s3 o3 e3 where "mem_UpdateStatus sch s obj = (s3, o3, e3)" "of_kind sch good gvk o3" "store_error e3"
    using assms(1) s(1) ty s(2) assms(5) by (rule json_types.typed_UpdateStatus)
  moreover obtain s4 e4 where "mem_Delete sch s obj = (s4, e4)" "store_error e4"
    using assms(1) s(1) ty s(2) assms(5) by (rule json_types.typed_Delete)
  ultimately show ?thesis using ty json_types.typed_Get [OF assms(1) ty assms(5), of key] by simp
qed

text \<open>Witness of C12: a widget is created, painted red and watched.\<close>

theorem mem_type_sound_witness:
  "mem_typed testScheme is_conformance (mem_execs testScheme
     [OpCreate widget1, OpUpdate red1, OpWatch zeroWidgetList [WatchFromRevision 0]] (mem_NewStore [mem_WithEventLogSize 5])) \<and>
   store_error (snd (mem_Get testScheme (mem_execs testScheme
     [OpCreate widget1, OpUpdate red1, OpWatch zeroWidgetList [WatchFromRevision 0]] (mem_NewStore [mem_WithEventLogSize 5])) key1 widget1))"
proof -
  let ?ops = "[OpCreate widget1, OpUpdate red1, OpWatch zeroWidgetList [WatchFromRevision 0]]"
  have ops: "list_all (mem_op_typed is_conformance) ?ops"
    using red1_simps by (simp add: is_conformance_def)
  have w: "of_kind testScheme is_conformance widgetGVK widget1"
    by (simp add: of_kind_def is_conformance_def)
  have n: "int (length ?ops) < MaxInt64" "0 \<le> (5::int)" by (simp_all add: MaxInt64_def)
  show ?thesis
    using mem_type_sound [OF conformance.json_types_axioms n(2,1) ops w, of key1] by blast
qed

end
