(* ===== verification/Postgres_Lease.thy ===== *)
theory Postgres_Lease
  imports Store_API
begin

text \<open>
  The leases of \<open>postgres/store.go\<close>: the SQL statements on the table \<open>bucket_leases\<close> and the functions
  that run them, with the goroutine of \<open>Start\<close>. The table is a map from its primary key
  \<open>(bucket_id, domain)\<close> to the other columns (\<open>postgres/testdata/schema.sql\<close>). Times are in
  microseconds, and \<open>now\<close> is the value of \<open>now()\<close> in the statement. A statement may fail, and
  a statement whose reply is lost may have been executed all the same (\<open>sql\<close>).
\<close>

section \<open>The table\<close>

datatype lease_domain = DomainSpec | DomainStatus

record lease_row =
  lr_holder :: string
  lr_epoch :: int
  lr_expires :: int

type_synonym lease_table = "int \<times> lease_domain \<Rightarrow> lease_row option"

record leaseEpochs =
  ep_spec :: int
  ep_status :: int

definition leaseTTL :: int where
  "leaseTTL = 30"

datatype sql = SqlDone | SqlFails error bool

definition seconds :: "int \<Rightarrow> int" where
  "seconds n = n * 1000000"

section \<open>Statements\<close>

text \<open>
  \<open>INSERT \<dots> ON CONFLICT DO UPDATE \<dots> WHERE expired OR same holder RETURNING\<close>, for one row: the new row,
  or \<open>None\<close> where the condition leaves the row alone.
\<close>

definition upsert_row :: "int \<Rightarrow> string \<Rightarrow> int \<Rightarrow> lease_row option \<Rightarrow> lease_row option" where
  "upsert_row now holderID ttl row =
     (case row of
        None \<Rightarrow> Some \<lparr>lr_holder = holderID, lr_epoch = 1, lr_expires = now + seconds ttl\<rparr>
      | Some r \<Rightarrow>
          if lr_expires r < now \<or> lr_holder r = holderID
          then Some \<lparr>lr_holder = holderID, lr_epoch = lr_epoch r + 1, lr_expires = now + seconds ttl\<rparr>
          else None)"

definition upsert_leases :: "int \<Rightarrow> int \<Rightarrow> string \<Rightarrow> int \<Rightarrow> lease_table \<Rightarrow> lease_table" where
  "upsert_leases now bucketID holderID ttl t =
     (\<lambda>(b, d). if b = bucketID
        then (case upsert_row now holderID ttl (t (b, d)) of Some r \<Rightarrow> Some r | None \<Rightarrow> t (b, d))
        else t (b, d))"

definition returned_rows :: "int \<Rightarrow> int \<Rightarrow> string \<Rightarrow> int \<Rightarrow> lease_table \<Rightarrow> (lease_domain \<times> int) list" where
  "returned_rows now bucketID holderID ttl t =
     concat (map (\<lambda>d. case upsert_row now holderID ttl (t (bucketID, d)) of Some r \<Rightarrow> [(d, lr_epoch r)] | None \<Rightarrow> [])
       [DomainSpec, DomainStatus])"

definition delete_leases :: "int \<Rightarrow> string \<Rightarrow> lease_table \<Rightarrow> lease_table" where
  "delete_leases bucketID holderID t =
     (\<lambda>(b, d). case t (b, d) of
        Some r \<Rightarrow> if b = bucketID \<and> lr_holder r = holderID then None else Some r
      | None \<Rightarrow> None)"

definition renew_leases :: "int \<Rightarrow> int \<Rightarrow> string \<Rightarrow> int \<Rightarrow> lease_table \<Rightarrow> lease_table" where
  "renew_leases now bucketID holderID ttl t =
     (\<lambda>(b, d). case t (b, d) of
        Some r \<Rightarrow> if b = bucketID \<and> lr_holder r = holderID then Some (r\<lparr>lr_expires := now + seconds ttl\<rparr>) else Some r
      | None \<Rightarrow> None)"

definition rows_held :: "int \<Rightarrow> string \<Rightarrow> lease_table \<Rightarrow> nat" where
  "rows_held bucketID holderID t =
     length (filter (\<lambda>d. case t (bucketID, d) of Some r \<Rightarrow> lr_holder r = holderID | None \<Rightarrow> False) [DomainSpec, DomainStatus])"

text \<open>The effect of a statement that may fail.\<close>

definition run_sql :: "sql \<Rightarrow> (lease_table \<Rightarrow> lease_table) \<Rightarrow> lease_table \<Rightarrow> lease_table \<times> error option" where
  "run_sql q f t =
     (case q of SqlDone \<Rightarrow> (f t, None) | SqlFails e executed \<Rightarrow> (if executed then f t else t, Some e))"

section \<open>The functions\<close>

fun scan_rows :: "(lease_domain \<times> int) list \<Rightarrow> leaseEpochs \<Rightarrow> leaseEpochs" where
  "scan_rows [] e = e"
| "scan_rows ((d, epoch) # rows) e =
     scan_rows rows (case d of DomainSpec \<Rightarrow> e\<lparr>ep_spec := epoch\<rparr> | DomainStatus \<Rightarrow> e\<lparr>ep_status := epoch\<rparr>)"

text \<open>
  The upsert and the clean-up are two statements: \<open>between\<close> is what other connections do to the table
  between them. An error of the clean-up is dropped.
\<close>

definition acquireBothLeases ::
  "sql \<Rightarrow> sql \<Rightarrow> (lease_table \<Rightarrow> lease_table) \<Rightarrow> int \<Rightarrow> int \<Rightarrow> string \<Rightarrow> int \<Rightarrow> lease_table \<Rightarrow> lease_table \<times> (error + leaseEpochs)" where
  "acquireBothLeases q1 q2 between now bucketID holderID ttl t =
     (case run_sql q1 (upsert_leases now bucketID holderID ttl) t of
        (t1, Some e) \<Rightarrow> (t1, Inl e)
      | (t1, None) \<Rightarrow>
          (let rows = returned_rows now bucketID holderID ttl t; count = length rows
           in if count \<noteq> 2
              then (fst (run_sql q2 (delete_leases bucketID holderID) (between t1)),
                    Inl (Error (''bucket '' @ FormatInt bucketID @ '' held by another instance ('' @ FormatInt (int count) @ ''/2 domains acquired)'')))
              else (t1, Inr (scan_rows rows \<lparr>ep_spec = 0, ep_status = 0\<rparr>))))"

definition renewBothLeases :: "sql \<Rightarrow> int \<Rightarrow> int \<Rightarrow> string \<Rightarrow> int \<Rightarrow> lease_table \<Rightarrow> lease_table \<times> error option" where
  "renewBothLeases q now bucketID holderID ttl t =
     (case run_sql q (renew_leases now bucketID holderID ttl) t of
        (t1, Some e) \<Rightarrow> (t1, Some e)
      | (t1, None) \<Rightarrow>
          (t1, if rows_held bucketID holderID t \<noteq> 2
               then Some (Error (''lease renewal: not holder of bucket '' @ FormatInt bucketID)) else None))"

definition releaseBothLeases :: "sql \<Rightarrow> int \<Rightarrow> string \<Rightarrow> lease_table \<Rightarrow> lease_table \<times> error option" where
  "releaseBothLeases q bucketID holderID t = run_sql q (delete_leases bucketID holderID) t"

text \<open>
  The instance, without the connection string, the assigner and the scheme, which are arguments of the
  operations that use them.
\<close>

record ShardedStore =
  ps_bucketID :: int
  ps_holderID :: string
  ps_epochs :: leaseEpochs
  ps_clusterEpoch :: int

definition pg_New ::
  "error option \<Rightarrow> sql \<Rightarrow> sql \<Rightarrow> (lease_table \<Rightarrow> lease_table) \<Rightarrow> int \<Rightarrow> int \<Rightarrow> string \<Rightarrow> lease_table \<Rightarrow> lease_table \<times> (error + ShardedStore)" where
  "pg_New connect q1 q2 between now bucketID holderID t =
     (case connect of
        Some e \<Rightarrow> (t, Inl (Error (''postgres connect: '' @ error_Error e)))
      | None \<Rightarrow>
          (case acquireBothLeases q1 q2 between now bucketID holderID leaseTTL t of
             (t1, Inl e) \<Rightarrow> (t1, Inl (Error (''acquire lease bucket '' @ FormatInt bucketID @ '': '' @ error_Error e)))
           | (t1, Inr epochs) \<Rightarrow>
               (t1, Inr \<lparr>ps_bucketID = bucketID, ps_holderID = holderID, ps_epochs = epochs, ps_clusterEpoch = 0\<rparr>)))"

text \<open>
  A turn of the goroutine of \<open>Start\<close>. On a tick it renews, and acquires again where that fails: two
  statements with \<open>between\<close> in the middle. On the end of the context it releases and returns.
\<close>

definition pg_tick ::
  "error option \<Rightarrow> sql \<Rightarrow> sql \<Rightarrow> sql \<Rightarrow> (lease_table \<Rightarrow> lease_table) \<Rightarrow> (lease_table \<Rightarrow> lease_table) \<Rightarrow> int \<Rightarrow> int
   \<Rightarrow> lease_table \<times> ShardedStore \<Rightarrow> lease_table \<times> ShardedStore" where
  "pg_tick connect q q1 q2 between between2 now now2 c =
     (case c of (t, s) \<Rightarrow>
       (case connect of
          Some _ \<Rightarrow> (t, s)
        | None \<Rightarrow>
            (case renewBothLeases q now (ps_bucketID s) (ps_holderID s) leaseTTL t of
               (t1, None) \<Rightarrow> (t1, s)
             | (t1, Some _) \<Rightarrow>
                 (case acquireBothLeases q1 q2 between2 now2 (ps_bucketID s) (ps_holderID s) leaseTTL (between t1) of
                    (t2, Inr epochs) \<Rightarrow> (t2, s\<lparr>ps_epochs := epochs\<rparr>)
                  | (t2, Inl _) \<Rightarrow> (t2, s)))))"

definition pg_ctxDone :: "error option \<Rightarrow> sql \<Rightarrow> lease_table \<times> ShardedStore \<Rightarrow> lease_table \<times> ShardedStore" where
  "pg_ctxDone connect q c =
     (case c of (t, s) \<Rightarrow>
       (case connect of
          Some _ \<Rightarrow> (t, s)
        | None \<Rightarrow> (fst (releaseBothLeases q (ps_bucketID s) (ps_holderID s) t), s)))"

definition currentEpochs :: "ShardedStore \<Rightarrow> leaseEpochs" where
  "currentEpochs s = ps_epochs s"

section \<open>The fence\<close>

text \<open>The first statement of \<open>pgctl_write\<close> (\<open>schema.sql\<close>): a write is let through where this row exists.\<close>

definition fence_holds :: "lease_table \<Rightarrow> int \<Rightarrow> int \<Rightarrow> lease_domain \<Rightarrow> string \<Rightarrow> int \<Rightarrow> bool" where
  "fence_holds t now bucketID domain holderID epoch =
     (case t (bucketID, domain) of
        Some r \<Rightarrow> lr_holder r = holderID \<and> lr_epoch r = epoch \<and> lr_expires r > now
      | None \<Rightarrow> False)"

section \<open>Runs of statements\<close>

datatype lease_stmt =
    StmtUpsert int int string int
  | StmtRenew int int string int
  | StmtDelete int string

fun lease_exec :: "lease_stmt \<Rightarrow> lease_table \<Rightarrow> lease_table" where
  "lease_exec (StmtUpsert now b h ttl) t = upsert_leases now b h ttl t"
| "lease_exec (StmtRenew now b h ttl) t = renew_leases now b h ttl t"
| "lease_exec (StmtDelete b h) t = delete_leases b h t"

fun deletes_in :: "int \<Rightarrow> lease_stmt \<Rightarrow> bool" where
  "deletes_in b (StmtDelete b' _) = (b' = b)"
| "deletes_in b _ = False"

lemma upsert_row_Some:
  "upsert_row now h ttl row = Some r \<Longrightarrow> lr_holder r = h \<and> lr_expires r = now + seconds ttl \<and>
     lr_epoch r = (case row of None \<Rightarrow> 1 | Some r0 \<Rightarrow> lr_epoch r0 + 1)"
  by (auto simp: upsert_row_def split: option.splits if_splits)

lemma lease_exec_epoch:
  assumes "\<not> deletes_in b stmt" and "t (b, d) = Some r"
  shows "\<exists>r'. lease_exec stmt t (b, d) = Some r' \<and> lr_epoch r \<le> lr_epoch r' \<and>
    (lr_holder r' \<noteq> lr_holder r \<longrightarrow> lr_epoch r < lr_epoch r')"
  using assms
  by (cases stmt)
    (auto simp: upsert_leases_def renew_leases_def delete_leases_def upsert_row_def split: option.split)

lemma lease_run_epoch:
  assumes "list_all (\<lambda>stmt. \<not> deletes_in b stmt) stmts" and "t (b, d) = Some r"
  shows "\<exists>r'. fold lease_exec stmts t (b, d) = Some r' \<and> lr_epoch r \<le> lr_epoch r'"
  using assms
proof (induction stmts arbitrary: t r)
  case (Cons stmt stmts)
  obtain r1 where r1: "lease_exec stmt t (b, d) = Some r1" "lr_epoch r \<le> lr_epoch r1"
    using lease_exec_epoch [of b stmt t d r] Cons.prems by auto
  obtain r' where "fold lease_exec stmts (lease_exec stmt t) (b, d) = Some r'" "lr_epoch r1 \<le> lr_epoch r'"
    using Cons.IH [of "lease_exec stmt t" r1] r1(1) Cons.prems(1) by auto
  with r1(2) show ?case by auto
qed auto

text \<open>A successful acquisition: both rows belong to the holder, at the epochs that are returned.\<close>

lemma acquire_success:
  assumes "acquireBothLeases q1 q2 between now b h ttl t = (t', Inr e)"
  shows "t' = upsert_leases now b h ttl t"
    and "t' (b, DomainSpec) = Some \<lparr>lr_holder = h, lr_epoch = ep_spec e, lr_expires = now + seconds ttl\<rparr>"
    and "t' (b, DomainStatus) = Some \<lparr>lr_holder = h, lr_epoch = ep_status e, lr_expires = now + seconds ttl\<rparr>"
    and "ep_spec e = (case t (b, DomainSpec) of None \<Rightarrow> 1 | Some r \<Rightarrow> lr_epoch r + 1)"
    and "ep_status e = (case t (b, DomainStatus) of None \<Rightarrow> 1 | Some r \<Rightarrow> lr_epoch r + 1)"
proof -
  have q: "t' = upsert_leases now b h ttl t" "length (returned_rows now b h ttl t) = 2"
      "e = scan_rows (returned_rows now b h ttl t) \<lparr>ep_spec = 0, ep_status = 0\<rparr>"
    using assms by (auto simp: acquireBothLeases_def run_sql_def Let_def split: sql.splits prod.splits option.splits if_splits)
  show "t' = upsert_leases now b h ttl t" by (fact q(1))
  obtain r1 r2 where r: "upsert_row now h ttl (t (b, DomainSpec)) = Some r1" "upsert_row now h ttl (t (b, DomainStatus)) = Some r2"
    using q(2) by (auto simp: returned_rows_def split: option.splits)
  then have e: "ep_spec e = lr_epoch r1" "ep_status e = lr_epoch r2" by (simp_all add: q(3) returned_rows_def)
  have "t' (b, DomainSpec) = Some r1" "t' (b, DomainStatus) = Some r2" using r by (simp_all add: q(1) upsert_leases_def)
  with e upsert_row_Some [OF r(1)] upsert_row_Some [OF r(2)]
  show "t' (b, DomainSpec) = Some \<lparr>lr_holder = h, lr_epoch = ep_spec e, lr_expires = now + seconds ttl\<rparr>"
    and "t' (b, DomainStatus) = Some \<lparr>lr_holder = h, lr_epoch = ep_status e, lr_expires = now + seconds ttl\<rparr>"
    and "ep_spec e = (case t (b, DomainSpec) of None \<Rightarrow> 1 | Some r \<Rightarrow> lr_epoch r + 1)"
    and "ep_status e = (case t (b, DomainStatus) of None \<Rightarrow> 1 | Some r \<Rightarrow> lr_epoch r + 1)"
    by auto
qed

text \<open>A failed acquisition whose clean-up ran: the holder has nothing in the bucket, and the others have what they had.\<close>

lemma acquire_failure:
  assumes "acquireBothLeases SqlDone SqlDone id now b h ttl t = (t', Inl e)"
  shows "rows_held b h t' = 0"
    and "\<And>k r. t k = Some r \<Longrightarrow> lr_holder r \<noteq> h \<Longrightarrow> now \<le> lr_expires r \<Longrightarrow> t' k = Some r"
proof -
  have t': "t' = delete_leases b h (upsert_leases now b h ttl t)"
    using assms by (auto simp: acquireBothLeases_def run_sql_def Let_def split: if_splits)
  show "rows_held b h t' = 0"
    by (auto simp: t' rows_held_def delete_leases_def split: option.splits if_splits)
  show "t' k = Some r" if "t k = Some r" "lr_holder r \<noteq> h" "now \<le> lr_expires r" for k r
    using that by (cases k) (auto simp: t' delete_leases_def upsert_leases_def upsert_row_def)
qed

section \<open>Tokens\<close>



end
