(* ===== verification/Postgres_Store.thy ===== *)
theory Postgres_Store
  imports Postgres_Lease Lister_Watcher Conformance_Types
begin

text \<open>
  \<open>ShardedStore\<close> of \<open>postgres/store.go\<close>. The library \<open>crbridge\<close> and the database behind it are a
  parameter: a record of the operations that the store calls, on a state \<open>'d\<close>. A client of
  \<open>crbridge\<close> is made for each call, with the holder and an epoch of the lease as its token. The conversions
  between objects and rows, composite resource versions, the mapping of errors and the watch bridge
  are the code's own.

  A \<open>json.RawMessage\<close> column is \<open>None\<close> when it is nil or empty. The metadata column is kept as
  the \<open>ObjectMeta\<close> that it encodes. UIDs are the texts of the database's UUIDs.
\<close>

section \<open>The interface of crbridge\<close>

record crb_Object =
  co_GVK :: string
  co_Namespace :: string
  co_Name :: string
  co_ResourceVersion :: string
  co_UID :: string
  co_Spec :: "json option"
  co_Status :: "json option"
  co_Metadata :: "ObjectMeta option"
  co_BucketID :: int

datatype crb_error = CrbNotFound | CrbAlreadyExists | CrbConflict | CrbGone | CrbFenced | CrbOther string

datatype crb_EventType = CrbAdded | CrbModified | CrbDeleted | CrbOtherType

record crb_Event =
  ce_Type :: crb_EventType
  ce_Object :: crb_Object

datatype crb_recv = CrbReceived crb_Event | CrbClosed | CrbBlocked

record crb_token =
  tok_holder :: string
  tok_epoch :: int

record 'd crbridge =
  crb_text :: "crb_error \<Rightarrow> string"
  crb_Get :: "crb_token \<Rightarrow> string \<Rightarrow> string \<Rightarrow> string \<Rightarrow> 'd \<Rightarrow> 'd \<times> (crb_error + crb_Object)"
  crb_Create :: "crb_token \<Rightarrow> string \<Rightarrow> string \<Rightarrow> string \<Rightarrow> json \<Rightarrow> json \<Rightarrow> ObjectMeta option \<Rightarrow> 'd \<Rightarrow> 'd \<times> (crb_error + crb_Object)"
  crb_Update :: "crb_token \<Rightarrow> crb_Object \<Rightarrow> 'd \<Rightarrow> 'd \<times> (crb_error + crb_Object)"
  crb_StatusUpdate :: "crb_token \<Rightarrow> crb_Object \<Rightarrow> json \<Rightarrow> 'd \<Rightarrow> 'd \<times> (crb_error + crb_Object)"
  crb_Delete :: "crb_token \<Rightarrow> crb_Object \<Rightarrow> 'd \<Rightarrow> 'd \<times> crb_error option"
  crb_List :: "string \<Rightarrow> int list \<Rightarrow> 'd \<Rightarrow> 'd \<times> (crb_error + crb_Object list \<times> string)"
  crb_Watch :: "string \<Rightarrow> int list \<Rightarrow> string \<Rightarrow> 'd \<Rightarrow> 'd \<times> (crb_error + watcher_id)"
  crb_Recv :: "watcher_id \<Rightarrow> 'd \<Rightarrow> 'd \<times> crb_recv"
  crb_Stop :: "watcher_id \<Rightarrow> 'd \<Rightarrow> 'd"
  crb_horizon :: "int \<Rightarrow> string \<Rightarrow> 'd \<Rightarrow> int option"

text \<open>
  \<open>crb_horizon\<close> is the query of \<open>checkCompactionHorizon\<close>: \<open>None\<close> where there is no connection, no row
  or an error, which the code treats alike.
\<close>

section \<open>Strings\<close>

fun strings_Split :: "char \<Rightarrow> string \<Rightarrow> string list" where
  "strings_Split sep [] = [[]]"
| "strings_Split sep (c # cs) =
     (if c = sep then [] # strings_Split sep cs
      else case strings_Split sep cs of [] \<Rightarrow> [[c]] | p # ps \<Rightarrow> (c # p) # ps)"

text \<open>\<open>strings.SplitN(s, sep, 2)\<close>: one part where there is no separator, two otherwise.\<close>

definition strings_SplitN2 :: "char \<Rightarrow> string \<Rightarrow> string list" where
  "strings_SplitN2 sep s =
     (if sep \<in> set s then [takeWhile (\<lambda>c. c \<noteq> sep) s, tl (dropWhile (\<lambda>c. c \<noteq> sep) s)] else [s])"

definition HasPrefix :: "string \<Rightarrow> string \<Rightarrow> bool" where
  "HasPrefix s p \<longleftrightarrow> take (length p) s = p"

definition TrimPrefix :: "string \<Rightarrow> string \<Rightarrow> string" where
  "TrimPrefix s p = (if HasPrefix s p then drop (length p) s else s)"

definition gvkToString :: "GroupVersionKind \<Rightarrow> string" where
  "gvkToString gvk = Group gvk @ ''/'' @ Version gvk @ ''/'' @ Kind gvk"

definition apiVersionStr :: "GroupVersionKind \<Rightarrow> string" where
  "apiVersionStr gvk = (if Group gvk = [] then Version gvk else Group gvk @ ''/'' @ Version gvk)"

text \<open>The loop over the parts: the first one of this bucket decides.\<close>

fun findBucket :: "string \<Rightarrow> string list \<Rightarrow> string option" where
  "findBucket pre [] = None"
| "findBucket pre (part # parts) = (if HasPrefix part pre then Some (TrimPrefix part pre) else findBucket pre parts)"

definition parseBucketHWM :: "string \<Rightarrow> int \<Rightarrow> int \<times> int \<times> error option" where
  "parseBucketHWM rvStr bucketID =
     (case strings_SplitN2 (CHR ''|'') rvStr of
        [p0, p1] \<Rightarrow>
          (case ParseInt (TrimPrefix p0 ''e'') of
             (_, Some err) \<Rightarrow>
               (0, 0, Some (Error (''parse epoch from RV '' @ Quote rvStr @ '': '' @ NumError_Error (TrimPrefix p0 ''e'') err)))
           | (epoch, None) \<Rightarrow>
               (let pre = ''b'' @ FormatInt bucketID @ '':''
                in case findBucket pre (strings_Split (CHR '','') p1) of
                     Some text \<Rightarrow>
                       (case ParseInt text of (hwm, err) \<Rightarrow> (epoch, hwm, map_option (\<lambda>e. Error (NumError_Error text e)) err))
                   | None \<Rightarrow> (epoch, 0, None)))
      | _ \<Rightarrow> (0, 0, Some (Error (''invalid composite RV: '' @ Quote rvStr))))"

section \<open>Objects and rows\<close>

definition annotationObjectVersion :: string where
  "annotationObjectVersion = ''postgres.storectrl.io/object-version''"

definition setOVAnnotation :: "string \<Rightarrow> object \<Rightarrow> object" where
  "setOVAnnotation objectVersion obj =
     SetAnnotations (fmupd annotationObjectVersion objectVersion (Annotations (Meta obj))) obj"

definition getOVAnnotation :: "object \<Rightarrow> string" where
  "getOVAnnotation obj =
     (case fmlookup (Annotations (Meta obj)) annotationObjectVersion of Some v \<Rightarrow> v | None \<Rightarrow> [])"

definition extractLabels :: "ObjectMeta option \<Rightarrow> (string, string) fmap" where
  "extractLabels metadata = (case metadata of None \<Rightarrow> fmempty | Some m \<Rightarrow> Labels m)"

definition crbToClient :: "scheme \<Rightarrow> crb_Object \<Rightarrow> object \<Rightarrow> GroupVersionKind \<Rightarrow> error + object" where
  "crbToClient sch src dst gvk =
     (let shell = \<lparr>rm_ApiVersion = apiVersionStr gvk, rm_Kind = Kind gvk,
            rm_Meta = (case co_Metadata src of None \<Rightarrow> emptyMeta | Some m \<Rightarrow> m),
            rm_Body = fmap_of_list
              ((case co_Spec src of None \<Rightarrow> [] | Some j \<Rightarrow> [(''spec'', (Compact, j))]) @
               (case co_Status src of None \<Rightarrow> [] | Some j \<Rightarrow> [(''status'', (Compact, j))]))\<rparr>
      in case unmarshalInto sch shell dst of
           Inl e \<Rightarrow> Inl e
         | Inr o1 \<Rightarrow>
             Inr (setOVAnnotation (co_ResourceVersion src)
               (SetResourceVersion (co_ResourceVersion src)
                 (SetUID (co_UID src)
                   (o1\<lparr>Meta := (Meta o1)\<lparr>Name := co_Name src, Namespace := co_Namespace src\<rparr>\<rparr>)))))"

text \<open>The columns of an object: its spec, its status (\<open>{}\<close> where absent) and its metadata without the fields that have columns of their own.\<close>

definition clientToColumns :: "object \<Rightarrow> json \<times> json \<times> ObjectMeta option" where
  "clientToColumns obj =
     (let m = Meta obj;
          metadata = m\<lparr>UID := [], ResourceVersion := [], Annotations := fmdrop annotationObjectVersion (Annotations m)\<rparr>;
          spec = (case GetSpec obj of Some j \<Rightarrow> j | None \<Rightarrow> JObj []);
          status = (case GetStatus obj of Some j \<Rightarrow> j | None \<Rightarrow> JObj [])
      in (spec, status, Some metadata))"

definition populateList :: "scheme \<Rightarrow> object_list \<Rightarrow> object list \<Rightarrow> object_list \<times> error option" where
  "populateList sch lst items =
     (case sch_itemsField sch (ListType lst) of
        ItemsOf ty \<Rightarrow>
          (if list_all (\<lambda>i. GoType i = ty) items then (lst\<lparr>Items := items\<rparr>, None)
           else (lst, Some (Panic ''reflect.Append'')))
      | ItemsOfPtr ty \<Rightarrow>
          (if items = [] then (lst\<lparr>Items := []\<rparr>, None) else (lst, Some (Panic ''reflect.Append'')))
      | _ \<Rightarrow> (lst, Some (Error (''list type *'' @ ListType lst @ '' has no settable Items field''))))"

section \<open>Errors\<close>

definition mapCRBError :: "'d crbridge \<Rightarrow> crb_error \<Rightarrow> ObjectKey \<Rightarrow> error" where
  "mapCRBError crb err key =
     (case err of
        CrbNotFound \<Rightarrow> NotFoundError (ObjectKey_String key)
      | CrbAlreadyExists \<Rightarrow> AlreadyExistsError (ObjectKey_String key)
      | CrbConflict \<Rightarrow> ConflictError (ObjectKey_String key)
      | CrbGone \<Rightarrow> RevisionTooOldError 0 0
      | CrbFenced \<Rightarrow> FencedError 0
      | CrbOther _ \<Rightarrow> Error (crb_text crb err))"

definition pg_token :: "ShardedStore \<Rightarrow> crb_token" where
  "pg_token s = \<lparr>tok_holder = ps_holderID s, tok_epoch = ep_spec (currentEpochs s)\<rparr>"

definition pg_statusToken :: "ShardedStore \<Rightarrow> crb_token" where
  "pg_statusToken s = \<lparr>tok_holder = ps_holderID s, tok_epoch = ep_status (currentEpochs s)\<rparr>"

text \<open>
  A conflict may be a missing row: another \<open>Get\<close> tells. The token is read again for that call.
\<close>

definition mapConflictToNotFound ::
  "'d crbridge \<Rightarrow> ShardedStore \<Rightarrow> GroupVersionKind \<Rightarrow> error option \<Rightarrow> object \<Rightarrow> 'd \<Rightarrow> 'd \<times> error option" where
  "mapConflictToNotFound crb s gvk err obj d =
     (case err of
        Some (ConflictError k) \<Rightarrow>
          (let key = ObjectKeyFromObject obj
           in case crb_Get crb (pg_token s) (gvkToString gvk) (key_Namespace key) (key_Name key) d of
                (d', Inl CrbNotFound) \<Rightarrow> (d', Some (NotFoundError (ObjectKey_String key)))
              | (d', Inl e) \<Rightarrow> (d', Some (Error (crb_text crb e)))
              | (d', Inr _) \<Rightarrow> (d', Some (ConflictError k)))
      | _ \<Rightarrow> (d, err))"

section \<open>Kinds\<close>

definition pg_gvkForObject :: "scheme \<Rightarrow> object \<Rightarrow> error + GroupVersionKind" where
  "pg_gvkForObject sch obj =
     (case sch_ObjectKinds sch (GoType obj) of
        Inl e \<Rightarrow> Inl (Error (''GVK for *'' @ GoType obj @ '': '' @ error_Error e))
      | Inr [] \<Rightarrow> Inl (Error (''no GVK registered for *'' @ GoType obj))
      | Inr (gvk # _) \<Rightarrow> Inr gvk)"

definition elemGVKForList :: "scheme \<Rightarrow> object_list \<Rightarrow> error + GroupVersionKind" where
  "elemGVKForList sch lst =
     (case sch_ObjectKinds sch (ListType lst) of
        Inl e \<Rightarrow> Inl (Error (''GVK for list *'' @ ListType lst @ '': '' @ error_Error e))
      | Inr [] \<Rightarrow> Inl (Error (''no GVK registered for list type *'' @ ListType lst))
      | Inr (g # _) \<Rightarrow> Inr \<lparr>Group = Group g, Version = Version g, Kind = TrimListSuffix (Kind g)\<rparr>)"

section \<open>Reads\<close>

definition pg_Get ::
  "'d crbridge \<Rightarrow> scheme \<Rightarrow> ShardedStore \<Rightarrow> ObjectKey \<Rightarrow> object \<Rightarrow> 'd \<Rightarrow> 'd \<times> object \<times> error option" where
  "pg_Get crb sch s key obj d =
     (case pg_gvkForObject sch obj of
        Inl e \<Rightarrow> (d, obj, Some e)
      | Inr gvk \<Rightarrow>
          (case crb_Get crb (pg_token s) (gvkToString gvk) (key_Namespace key) (key_Name key) d of
             (d', Inl CrbNotFound) \<Rightarrow> (d', obj, Some (NotFoundError (ObjectKey_String key)))
           | (d', Inl e) \<Rightarrow> (d', obj, Some (Error (''get '' @ ObjectKey_String key @ '': '' @ crb_text crb e)))
           | (d', Inr crbObj) \<Rightarrow>
               (case crbToClient sch crbObj obj gvk of
                  Inl e \<Rightarrow> (d', obj, Some e)
                | Inr o1 \<Rightarrow> (d', o1, None))))"

text \<open>\<open>scheme.New\<close> with the type assertion, and the conversion into the new object: \<open>List\<close> and the \<open>convertFn\<close> of \<open>Watch\<close>.\<close>

definition pg_convert :: "scheme \<Rightarrow> GroupVersionKind \<Rightarrow> (error \<Rightarrow> error) \<Rightarrow> crb_Object \<Rightarrow> error + object" where
  "pg_convert sch gvk newError crbObj =
     (case sch_New sch gvk of
        Inl e \<Rightarrow> Inl (newError e)
      | Inr (RObject z) \<Rightarrow> crbToClient sch crbObj z gvk
      | Inr _ \<Rightarrow> Inl (Panic ''interface conversion: not a client.Object''))"

definition pg_selected :: "ListOptions \<Rightarrow> crb_Object \<Rightarrow> bool" where
  "pg_selected lo crbObj \<longleftrightarrow>
     (lo_Namespace lo = [] \<or> co_Namespace crbObj = lo_Namespace lo) \<and>
     (case lo_LabelSelector lo of
        None \<Rightarrow> True
      | Some sel \<Rightarrow> sel_Empty sel \<or> sel_Matches sel (extractLabels (co_Metadata crbObj)))"

text \<open>The text of a \<open>schema.GroupVersionKind\<close>.\<close>

definition GVK_String :: "GroupVersionKind \<Rightarrow> string" where
  "GVK_String gvk = Group gvk @ ''/'' @ Version gvk @ '', Kind='' @ Kind gvk"

fun pg_items :: "scheme \<Rightarrow> GroupVersionKind \<Rightarrow> ListOptions \<Rightarrow> crb_Object list \<Rightarrow> object list \<Rightarrow> error + object list" where
  "pg_items sch gvk lo [] items = Inr items"
| "pg_items sch gvk lo (crbObj # objs) items =
     (if \<not> pg_selected lo crbObj then pg_items sch gvk lo objs items
      else case pg_convert sch gvk (\<lambda>e. Error (''scheme.New('' @ GVK_String gvk @ ''): '' @ error_Error e)) crbObj of
             Inl e \<Rightarrow> Inl e
           | Inr o1 \<Rightarrow> pg_items sch gvk lo objs (items @ [o1]))"

definition pg_List ::
  "'d crbridge \<Rightarrow> scheme \<Rightarrow> ShardedStore \<Rightarrow> object_list \<Rightarrow> ListOption list \<Rightarrow> 'd \<Rightarrow> 'd \<times> ShardedStore \<times> object_list \<times> error option" where
  "pg_List crb sch s lst opts d =
     (case elemGVKForList sch lst of
        Inl e \<Rightarrow> (d, s, lst, Some e)
      | Inr elemGVK \<Rightarrow>
          (case crb_List crb (gvkToString elemGVK) [ps_bucketID s] d of
             (d', Inl e) \<Rightarrow> (d', s, lst, Some (Error (''list: '' @ crb_text crb e)))
           | (d', Inr (objs, rv)) \<Rightarrow>
               (case parseBucketHWM rv (ps_bucketID s) of
                  (epoch, hwm, parseErr) \<Rightarrow>
               (let s' = (if parseErr = None \<and> epoch > 0 \<and> epoch > ps_clusterEpoch s then s\<lparr>ps_clusterEpoch := epoch\<rparr> else s)
                in case pg_items sch elemGVK (applyListOptions opts) objs [] of
                     Inl e \<Rightarrow> (d', s', lst, Some e)
                   | Inr items \<Rightarrow>
                       (case populateList sch lst items of
                          (lst1, Some e) \<Rightarrow> (d', s', lst1, Some e)
                        | (lst1, None) \<Rightarrow> (d', s', lst1\<lparr>ListResourceVersion := FormatInt hwm\<rparr>, None))))))"

section \<open>Writes\<close>

definition pg_Create ::
  "'d crbridge \<Rightarrow> scheme \<Rightarrow> ShardedStore \<Rightarrow> object \<Rightarrow> 'd \<Rightarrow> 'd \<times> object \<times> error option" where
  "pg_Create crb sch s obj d =
     (case pg_gvkForObject sch obj of
        Inl e \<Rightarrow> (d, obj, Some e)
      | Inr gvk \<Rightarrow>
          (case clientToColumns obj of
             (spec, status, metadata) \<Rightarrow>
          (case crb_Create crb (pg_token s) (gvkToString gvk) (Namespace (Meta obj)) (Name (Meta obj)) spec status metadata d of
             (d', Inl e) \<Rightarrow> (d', obj, Some (mapCRBError crb e (ObjectKeyFromObject obj)))
           | (d', Inr result) \<Rightarrow>
               (d', setOVAnnotation (co_ResourceVersion result)
                      (SetResourceVersion (co_ResourceVersion result) (SetUID (co_UID result) obj)), None))))"

text \<open>The version that a write expects: the annotation, or the resource version.\<close>

definition expectedVersion :: "object \<Rightarrow> string" where
  "expectedVersion obj = (if getOVAnnotation obj = [] then GetResourceVersion obj else getOVAnnotation obj)"

definition crb_row :: "ShardedStore \<Rightarrow> GroupVersionKind \<Rightarrow> object \<Rightarrow> string \<Rightarrow> json option \<Rightarrow> json option \<Rightarrow> ObjectMeta option \<Rightarrow> crb_Object" where
  "crb_row s gvk obj ov spec status metadata =
     \<lparr>co_GVK = gvkToString gvk, co_Namespace = Namespace (Meta obj), co_Name = Name (Meta obj), co_ResourceVersion = ov,
      co_UID = [], co_Spec = spec, co_Status = status, co_Metadata = metadata, co_BucketID = ps_bucketID s\<rparr>"

definition pg_written :: "crb_Object \<Rightarrow> object \<Rightarrow> object" where
  "pg_written result obj = setOVAnnotation (co_ResourceVersion result) (SetResourceVersion (co_ResourceVersion result) obj)"

definition pg_Update ::
  "'d crbridge \<Rightarrow> scheme \<Rightarrow> ShardedStore \<Rightarrow> object \<Rightarrow> 'd \<Rightarrow> 'd \<times> object \<times> error option" where
  "pg_Update crb sch s obj d =
     (case pg_gvkForObject sch obj of
        Inl e \<Rightarrow> (d, obj, Some e)
      | Inr gvk \<Rightarrow>
          (case clientToColumns obj of
             (spec, status, metadata) \<Rightarrow>
          (let ov = expectedVersion obj
           in if ov = [] then (d, obj, Some (NotFoundError (ObjectKey_String (ObjectKeyFromObject obj))))
              else case crb_Update crb (pg_token s) (crb_row s gvk obj ov (Some spec) (Some status) metadata) d of
                (d', Inl e) \<Rightarrow>
                  (case mapConflictToNotFound crb s gvk (Some (mapCRBError crb e (ObjectKeyFromObject obj))) obj d' of
                     (d'', err) \<Rightarrow> (d'', obj, err))
              | (d', Inr result) \<Rightarrow> (d', pg_written result obj, None))))"

definition pg_UpdateStatus ::
  "'d crbridge \<Rightarrow> scheme \<Rightarrow> ShardedStore \<Rightarrow> object \<Rightarrow> 'd \<Rightarrow> 'd \<times> object \<times> error option" where
  "pg_UpdateStatus crb sch s obj d =
     (case pg_gvkForObject sch obj of
        Inl e \<Rightarrow> (d, obj, Some e)
      | Inr gvk \<Rightarrow>
          (case clientToColumns obj of
             (_, status, _) \<Rightarrow>
          (let ov = expectedVersion obj
           in if ov = [] then (d, obj, Some (NotFoundError (ObjectKey_String (ObjectKeyFromObject obj))))
              else case crb_StatusUpdate crb (pg_statusToken s) (crb_row s gvk obj ov None None None) status d of
                (d', Inl e) \<Rightarrow>
                  (case mapConflictToNotFound crb s gvk (Some (mapCRBError crb e (ObjectKeyFromObject obj))) obj d' of
                     (d'', err) \<Rightarrow> (d'', obj, err))
              | (d', Inr result) \<Rightarrow> (d', pg_written result obj, None))))"

definition pg_Delete ::
  "'d crbridge \<Rightarrow> scheme \<Rightarrow> ShardedStore \<Rightarrow> object \<Rightarrow> 'd \<Rightarrow> 'd \<times> error option" where
  "pg_Delete crb sch s obj d =
     (case pg_gvkForObject sch obj of
        Inl e \<Rightarrow> (d, Some e)
      | Inr gvk \<Rightarrow>
          (let key = ObjectKeyFromObject obj
           in case (if expectedVersion obj = []
                    then (case crb_Get crb (pg_token s) (gvkToString gvk) (key_Namespace key) (key_Name key) d of
                            (d', Inl CrbNotFound) \<Rightarrow> (d', Inl (NotFoundError (ObjectKey_String key)))
                          | (d', Inl e) \<Rightarrow> (d', Inl (Error (''get for unconditional delete '' @ ObjectKey_String key @ '': '' @ crb_text crb e)))
                          | (d', Inr crbObj) \<Rightarrow> (d', Inr (co_ResourceVersion crbObj)))
                    else (d, Inr (expectedVersion obj))) of
                (d1, Inl e) \<Rightarrow> (d1, Some e)
              | (d1, Inr ov) \<Rightarrow>
                  (case clientToColumns obj of
                     (spec, status, metadata) \<Rightarrow>
                  (case crb_Delete crb (pg_token s) (crb_row s gvk obj ov (Some spec) (Some status) metadata) d1 of
                     (d2, err) \<Rightarrow>
                       mapConflictToNotFound crb s gvk (map_option (\<lambda>e. mapCRBError crb e key) err) obj d2))))"

section \<open>Watch\<close>

definition checkCompactionHorizon :: "'d crbridge \<Rightarrow> ShardedStore \<Rightarrow> GroupVersionKind \<Rightarrow> int \<Rightarrow> 'd \<Rightarrow> error option" where
  "checkCompactionHorizon crb s gvk hwm d =
     (if hwm = 0 then None
      else case crb_horizon crb (ps_bucketID s) (gvkToString gvk) d of
             None \<Rightarrow> None
           | Some horizon \<Rightarrow> if hwm \<le> horizon then Some (RevisionTooOldError hwm (add64 horizon 1)) else None)"

text \<open>Where the goroutine \<open>translate\<close> is; a panic in it ends the program.\<close>

datatype bridge_at = BridgeWait | BridgeSend Event | BridgeDone | BridgePanic string

record watchBridge =
  wb_inner :: watcher_id
  wb_out :: "Event list"
  wb_gvk :: GroupVersionKind
  wb_selector :: "label_selector option"
  wb_stopped :: bool
  wb_at :: bridge_at

definition newWatchBridge :: "watcher_id \<Rightarrow> GroupVersionKind \<Rightarrow> label_selector option \<Rightarrow> watchBridge" where
  "newWatchBridge wi gvk sel =
     \<lparr>wb_inner = wi, wb_out = [], wb_gvk = gvk, wb_selector = sel, wb_stopped = False, wb_at = BridgeWait\<rparr>"

definition pg_Watch ::
  "'d crbridge \<Rightarrow> scheme \<Rightarrow> ShardedStore \<Rightarrow> object_list \<Rightarrow> ListOption list \<Rightarrow> 'd \<Rightarrow> 'd \<times> (error + watchBridge)" where
  "pg_Watch crb sch s lst opts d =
     (let hwm = (case watchFrom opts None of Some rv \<Rightarrow> rv | None \<Rightarrow> 0)
      in case elemGVKForList sch lst of
           Inl e \<Rightarrow> (d, Inl e)
         | Inr elemGVK \<Rightarrow>
             (case checkCompactionHorizon crb s elemGVK hwm d of
                Some e \<Rightarrow> (d, Inl e)
              | None \<Rightarrow>
                  (let rvStr = ''e'' @ FormatInt (ps_clusterEpoch s) @ ''|b'' @ FormatInt (ps_bucketID s) @ '':'' @ FormatInt hwm
                   in case crb_Watch crb (gvkToString elemGVK) [ps_bucketID s] rvStr d of
                        (d', Inl e) \<Rightarrow> (d', Inl (Error (''watch: '' @ crb_text crb e)))
                      | (d', Inr wi) \<Rightarrow> (d', Inr (newWatchBridge wi elemGVK (lo_LabelSelector (applyListOptions opts)))))))"

definition bridgeType :: "crb_EventType \<Rightarrow> EventType option" where
  "bridgeType ty = (case ty of CrbAdded \<Rightarrow> Some EventAdded | CrbModified \<Rightarrow> Some EventModified | CrbDeleted \<Rightarrow> Some EventDeleted | CrbOtherType \<Rightarrow> None)"

definition bridgeSelects :: "label_selector option \<Rightarrow> object \<Rightarrow> bool" where
  "bridgeSelects sel obj = (case sel of None \<Rightarrow> True | Some f \<Rightarrow> sel_Empty f \<or> sel_Matches f (GetLabels obj))"

definition watchBridge_translate :: "'d crbridge \<Rightarrow> scheme \<Rightarrow> bool \<Rightarrow> 'd \<times> watchBridge \<Rightarrow> 'd \<times> watchBridge" where
  "watchBridge_translate crb sch stopFirst c =
     (case c of (d, b) \<Rightarrow>
       (case wb_at b of
          BridgeWait \<Rightarrow>
            (case crb_Recv crb (wb_inner b) d of
               (d', CrbClosed) \<Rightarrow> (d', b\<lparr>wb_at := BridgeDone\<rparr>)
             | (d', CrbBlocked) \<Rightarrow> (d', b)
             | (d', CrbReceived ev) \<Rightarrow>
                 (case bridgeType (ce_Type ev) of
                    None \<Rightarrow> (d', b)
                  | Some evType \<Rightarrow>
                      (case pg_convert sch (wb_gvk b) id (ce_Object ev) of
                         Inl (Panic m) \<Rightarrow> (d', b\<lparr>wb_at := BridgePanic m\<rparr>)
                       | Inl _ \<Rightarrow> (crb_Stop crb (wb_inner b) d', b\<lparr>wb_stopped := True, wb_at := BridgeDone\<rparr>)
                       | Inr obj \<Rightarrow>
                           (d', if bridgeSelects (wb_selector b) obj
                                then b\<lparr>wb_at := BridgeSend \<lparr>ev_Type = evType, ev_Object = obj\<rparr>\<rparr> else b))))
        | BridgeSend e \<Rightarrow>
            (let full = (length (wb_out b) \<ge> 256)
             in if wb_stopped b \<and> (stopFirst \<or> full) then (d, b\<lparr>wb_at := BridgeDone\<rparr>)
                else if full then (d, b)
                else (d, b\<lparr>wb_out := wb_out b @ [e], wb_at := BridgeWait\<rparr>))
        | _ \<Rightarrow> (d, b)))"

definition watchBridge_ResultChan :: "watchBridge \<Rightarrow> watchBridge \<times> recv" where
  "watchBridge_ResultChan b =
     (case wb_out b of
        e # es \<Rightarrow> (b\<lparr>wb_out := es\<rparr>, Received e)
      | [] \<Rightarrow> (b, if wb_at b = BridgeDone then ChanClosed else WouldBlock))"

definition watchBridge_Stop :: "'d crbridge \<Rightarrow> 'd \<times> watchBridge \<Rightarrow> 'd \<times> watchBridge" where
  "watchBridge_Stop crb c = (case c of (d, b) \<Rightarrow> (crb_Stop crb (wb_inner b) d, b\<lparr>wb_stopped := True\<rparr>))"

end
