(* ===== verification/Postgres_Props.thy ===== *)
theory Postgres_Props
  imports Postgres_Store Memory_Props
begin

text \<open>
  The properties of the Postgres store that its own code decides: composite resource versions, the
  conversion between objects and rows, and the interplay of \<open>List\<close>, \<open>Watch\<close> and compaction.
\<close>

section \<open>Composite resource versions\<close>

text \<open>The documented format, \<open>e7|b2:1044,b5:902\<close>.\<close>

definition bucketPart :: "int \<times> int \<Rightarrow> string" where
  "bucketPart p = ''b'' @ FormatInt (fst p) @ '':'' @ FormatInt (snd p)"

fun joinComma :: "string list \<Rightarrow> string" where
  "joinComma [] = []"
| "joinComma [p] = p"
| "joinComma (p # q # ps) = p @ '','' @ joinComma (q # ps)"

definition compositeRV :: "int \<Rightarrow> (int \<times> int) list \<Rightarrow> string" where
  "compositeRV epoch buckets = ''e'' @ FormatInt epoch @ ''|'' @ joinComma (map bucketPart buckets)"

lemma FormatInt_plain: "CHR ''|'' \<notin> set (FormatInt k)" "CHR '','' \<notin> set (FormatInt k)" "CHR '':'' \<notin> set (FormatInt k)"
proof -
  have "c \<notin> set (FormatInt k)" if "c \<notin> insert (CHR ''-'') (set ''0123456789'')" for c
    using FormatInt_chars [of k] that by blast
  from this [of "CHR ''|''"] this [of "CHR '',''"] this [of "CHR '':''"]
  show "CHR ''|'' \<notin> set (FormatInt k)" "CHR '','' \<notin> set (FormatInt k)" "CHR '':'' \<notin> set (FormatInt k)" by simp_all
qed

lemma until_sep:
  "sep \<notin> set s \<Longrightarrow> takeWhile (\<lambda>c. c \<noteq> sep) (s @ sep # r) = s" "sep \<notin> set s \<Longrightarrow> dropWhile (\<lambda>c. c \<noteq> sep) (s @ sep # r) = sep # r"
  by (induction s) auto

lemma split_plain: "sep \<notin> set s \<Longrightarrow> strings_Split sep s = [s]"
  by (induction s) auto

lemma split_append: "sep \<notin> set s \<Longrightarrow> strings_Split sep (s @ sep # rest) = s # strings_Split sep rest"
  by (induction s) auto

lemma split_join:
  "\<forall>p \<in> set ps. CHR '','' \<notin> set p \<Longrightarrow> ps \<noteq> [] \<Longrightarrow> strings_Split (CHR '','') (joinComma ps) = ps"
proof (induction ps rule: joinComma.induct)
  case (3 p q ps)
  then show ?case using split_append [of "CHR '',''" p "joinComma (q # ps)"] by simp
qed (simp_all add: split_plain)

lemma bucketPart_prefix:
  assumes "is_int64 b" and "is_int64 b'"
  shows "HasPrefix (bucketPart (b', n)) (''b'' @ FormatInt b @ '':'') \<longleftrightarrow> b' = b"
proof
  let ?x = "FormatInt b" and ?y = "FormatInt b'"
  assume "HasPrefix (bucketPart (b', n)) (''b'' @ ?x @ '':'')"
  then have "take (length ?x + 1) (?y @ '':'' @ FormatInt n) = ?x @ '':''"
    by (simp add: HasPrefix_def bucketPart_def)
  then obtain rest where "?y @ '':'' @ FormatInt n = (?x @ '':'') @ rest"
    by (metis append_take_drop_id)
  then have "takeWhile (\<lambda>c. c \<noteq> CHR '':'') (?y @ '':'' @ FormatInt n) = takeWhile (\<lambda>c. c \<noteq> CHR '':'') (?x @ CHR '':'' # rest)"
    by simp
  moreover have "takeWhile (\<lambda>c. c \<noteq> CHR '':'') (FormatInt k @ CHR '':'' # zs) = FormatInt k" for k zs
    by (rule until_sep(1) [OF FormatInt_plain(3)])
  ultimately have "?y = ?x" by simp
  with assms show "b' = b" by (metis FormatInt_inject)
next
  assume "b' = b"
  then show "HasPrefix (bucketPart (b', n)) (''b'' @ FormatInt b @ '':'')"
    by (simp add: HasPrefix_def bucketPart_def)
qed

lemma findBucket_parts:
  assumes "is_int64 b" and "\<forall>p \<in> set buckets. is_int64 (fst p)"
  shows "findBucket (''b'' @ FormatInt b @ '':'') (map bucketPart buckets) = map_option FormatInt (map_of buckets b)"
  using assms(2)
proof (induction buckets)
  case (Cons p buckets)
  obtain b' n where p: "p = (b', n)" by (cases p)
  have "HasPrefix (bucketPart p) (''b'' @ FormatInt b @ '':'') \<longleftrightarrow> b' = b"
    unfolding p by (rule bucketPart_prefix) (use assms(1) Cons.prems p in auto)
  moreover have "TrimPrefix (bucketPart (b, n)) (''b'' @ FormatInt b @ '':'') = FormatInt n"
    by (simp add: TrimPrefix_def HasPrefix_def bucketPart_def)
  ultimately show ?case using Cons p by simp
qed simp

lemma parse_compositeRV:
  assumes "is_int64 epoch" and "is_int64 b" and "\<forall>p \<in> set buckets. is_int64 (fst p) \<and> is_int64 (snd p)"
  shows "parseBucketHWM (compositeRV epoch buckets) b = (epoch, case map_of buckets b of Some n \<Rightarrow> n | None \<Rightarrow> 0, None)"
proof -
  let ?e = "''e'' @ FormatInt epoch" and ?ps = "joinComma (map bucketPart buckets)"
  have bar: "CHR ''|'' \<notin> set ?e" using FormatInt_plain(1) by simp
  have "strings_SplitN2 (CHR ''|'') (?e @ CHR ''|'' # ?ps) = [?e, ?ps]"
    unfolding strings_SplitN2_def until_sep [OF bar] by simp
  then have parts: "strings_SplitN2 (CHR ''|'') (compositeRV epoch buckets) = [?e, ?ps]"
    by (simp add: compositeRV_def)
  have e: "ParseInt (TrimPrefix ?e ''e'') = (epoch, None)" using assms(1) by (simp add: TrimPrefix_def HasPrefix_def)
  have comma: "\<forall>p \<in> set (map bucketPart buckets). CHR '','' \<notin> set p"
    using FormatInt_plain(2) by (auto simp: bucketPart_def)
  have "findBucket (''b'' @ FormatInt b @ '':'') (strings_Split (CHR '','') ?ps) = map_option FormatInt (map_of buckets b)"
  proof (cases buckets)
    case Nil
    then show ?thesis by (simp add: HasPrefix_def)
  next
    case (Cons p rest)
    then have "strings_Split (CHR '','') ?ps = map bucketPart buckets" using split_join [OF comma] by simp
    then show ?thesis using findBucket_parts [OF assms(2), of buckets] assms(3) by simp
  qed
  moreover have "is_int64 n" if "map_of buckets b = Some n" for n
    using map_of_SomeD [OF that] assms(3) by auto
  ultimately show ?thesis
    by (cases "map_of buckets b") (simp_all add: parseBucketHWM_def parts e [simplified] Let_def del: findBucket.simps)
qed



section \<open>List, then Watch\<close>

text \<open>
  C37. What a cache does first: \<open>List\<close>, then \<open>Watch\<close> from the listed revision. The list carries
  the sequence number of the store's bucket. If that lies above the compaction horizon, the watch
  goes to the database at exactly that number, under the newest cluster epoch seen. If it does not,
  the watch is refused, also when the number equals the horizon and nothing after it was
  compacted: as long as no new write comes, every relist gives the same number and is refused again.
\<close>

theorem pg_list_then_watch:
  assumes "elemGVKForList sch lst = Inr gvk"
    and "crb_List crb (gvkToString gvk) [ps_bucketID s] d = (d1, Inr (objs, compositeRV epoch buckets))"
    and "is_int64 epoch" and "is_int64 (ps_bucketID s)" and "\<forall>p \<in> set buckets. is_int64 (fst p) \<and> is_int64 (snd p)"
    and "map_of buckets (ps_bucketID s) = Some hwm" and "0 < hwm"
    and "pg_items sch gvk (applyListOptions opts) objs [] = Inr items" and "populateList sch lst items = (lst1, None)"
  shows "\<exists>s' lst'. pg_List crb sch s lst opts d = (d1, s', lst', None) \<and> ParseInt (ListResourceVersion lst') = (hwm, None) \<and>
    ps_clusterEpoch s' = (if 0 < epoch then max epoch (ps_clusterEpoch s) else ps_clusterEpoch s) \<and>
    (let w = pg_Watch crb sch s' lst [WatchFromRevision hwm] d2
     in case crb_horizon crb (ps_bucketID s) (gvkToString gvk) d2 of
          Some horizon \<Rightarrow>
            (if hwm \<le> horizon then w = (d2, Inl (RevisionTooOldError hwm (add64 horizon 1)))
             else fst w = fst (crb_Watch crb (gvkToString gvk) [ps_bucketID s] (compositeRV (ps_clusterEpoch s') [(ps_bucketID s, hwm)]) d2))
        | None \<Rightarrow> fst w = fst (crb_Watch crb (gvkToString gvk) [ps_bucketID s] (compositeRV (ps_clusterEpoch s') [(ps_bucketID s, hwm)]) d2))"
proof -
  have hwm: "is_int64 hwm" using map_of_SomeD [OF assms(6)] assms(5) by auto
  have parse: "parseBucketHWM (compositeRV epoch buckets) (ps_bucketID s) = (epoch, hwm, None)"
    using parse_compositeRV [OF assms(3-5)] assms(6) by simp
  let ?s' = "if epoch > 0 \<and> epoch > ps_clusterEpoch s then s\<lparr>ps_clusterEpoch := epoch\<rparr> else s"
  let ?lst = "lst1\<lparr>ListResourceVersion := FormatInt hwm\<rparr>"
  have "pg_List crb sch s lst opts d = (d1, ?s', ?lst, None)"
    using assms(1,2,8,9) parse by (simp add: pg_List_def Let_def)
  moreover have "ps_bucketID ?s' = ps_bucketID s" by simp
  ultimately show ?thesis
    using hwm assms(1,7)
    by (intro exI [of _ ?s'] exI [of _ ?lst])
      (auto simp: pg_Watch_def checkCompactionHorizon_def compositeRV_def bucketPart_def Let_def
        split: option.split sum.split prod.split)
qed

section \<open>Rows\<close>

text \<open>
  C38. What \<open>Create\<close> stored is what \<open>Get\<close> reads, if the database gives back the columns that it was
  given, with the row's UID and version: \<open>Get\<close> into a zero value returns the metadata that \<open>Create\<close>
  handed its caller, with the object version in the hidden annotation, the same spec and the same status.
  Every other top-level field of the object is lost; the memory store keeps it. The generation is the
  caller's.
\<close>

theorem pg_create_then_get:
  assumes "pg_gvkForObject sch obj = Inr gvk" and "full_doc sch obj" and "clientToColumns obj = (spec, status, metadata)"
    and "decodable sch (GoType obj) (fmap_of_list [(''spec'', (Compact, spec)), (''status'', (Compact, status))])"
    and "GoType z = GoType obj" and "Meta z = emptyMeta"
    and "crb_Create crb (pg_token s) (gvkToString gvk) (Namespace (Meta obj)) (Name (Meta obj)) spec status metadata d = (d1, Inr row)"
    and "crb_Get crb (pg_token s) (gvkToString gvk) (Namespace (Meta obj)) (Name (Meta obj)) d1 =
      (d2, Inr (row\<lparr>co_Namespace := Namespace (Meta obj), co_Name := Name (Meta obj),
                    co_Spec := Some spec, co_Status := Some status, co_Metadata := metadata\<rparr>))"
  shows "\<exists>created got. pg_Create crb sch s obj d = (d1, created, None) \<and>
    pg_Get crb sch s (ObjectKeyFromObject obj) z d1 = (d2, got, None) \<and>
    Meta got = Meta created \<and> GetResourceVersion got = co_ResourceVersion row \<and> expectedVersion got = co_ResourceVersion row \<and>
    GetGeneration created = GetGeneration obj \<and>
    (GetSpec obj \<noteq> None \<longrightarrow> GetSpec got = GetSpec created) \<and> (GetStatus obj \<noteq> None \<longrightarrow> GetStatus got = GetStatus created) \<and>
    (\<forall>k. k \<noteq> ''spec'' \<longrightarrow> k \<noteq> ''status'' \<longrightarrow> fmlookup (Body got) k = fmlookup (Body z) k)"
proof -
  let ?rv = "co_ResourceVersion row"
  let ?rm = "\<lparr>rm_ApiVersion = apiVersionStr gvk, rm_Kind = Kind gvk,
      rm_Meta = (case metadata of None \<Rightarrow> emptyMeta | Some m \<Rightarrow> m),
      rm_Body = fmap_of_list [(''spec'', (Compact, spec)), (''status'', (Compact, status))]\<rparr>"
  have cols: "spec = (case GetSpec obj of Some j \<Rightarrow> j | None \<Rightarrow> JObj [])" "status = (case GetStatus obj of Some j \<Rightarrow> j | None \<Rightarrow> JObj [])"
      "metadata = Some ((Meta obj)\<lparr>UID := [], ResourceVersion := [], Annotations := fmdrop annotationObjectVersion (Annotations (Meta obj))\<rparr>)"
    using assms(3) by (auto simp: clientToColumns_def Let_def)
  obtain o1 where o1: "unmarshalInto sch ?rm z = Inr o1"
    using unmarshalInto_decodable [of sch z ?rm] assms(4,5) by auto
  let ?created = "setOVAnnotation ?rv (SetResourceVersion ?rv (SetUID (co_UID row) obj))"
  let ?got = "setOVAnnotation ?rv (SetResourceVersion ?rv (SetUID (co_UID row)
      (o1\<lparr>Meta := (Meta o1)\<lparr>Name := Name (Meta obj), Namespace := Namespace (Meta obj)\<rparr>\<rparr>)))"
  have create: "pg_Create crb sch s obj d = (d1, ?created, None)"
    using assms(1,3,7) by (simp add: pg_Create_def)
  have z: "pg_gvkForObject sch z = Inr gvk" using assms(1) unfolding pg_gvkForObject_def assms(5) .
  have get: "pg_Get crb sch s (ObjectKeyFromObject obj) z d1 = (d2, ?got, None)"
    using z assms(8) o1 by (simp add: pg_Get_def crbToClient_def ObjectKeyFromObject_def Let_def)
  have meta: "Meta o1 = (Meta obj)\<lparr>UID := [], ResourceVersion := [], Annotations := fmdrop annotationObjectVersion (Annotations (Meta obj))\<rparr>"
    using unmarshalInto_Inr(2) [OF o1] assms(6) by (simp add: cols(3))
  have upd: "fmupd k v (fmdrop k m) = fmupd k v m" for k v and m :: "(string, string) fmap"
    by (rule fmap_ext) simp
  have "Meta ?got = Meta ?created" by (simp add: setOVAnnotation_def setter_defs meta upd)
  moreover have "GetResourceVersion ?got = ?rv" "expectedVersion ?got = ?rv" "GetGeneration ?created = GetGeneration obj"
    by (simp_all add: setOVAnnotation_def setter_defs expectedVersion_def getOVAnnotation_def)
  moreover have body: "fmlookup (Body ?got) k = fmlookup (Body o1) k" "fmlookup (Body ?created) k = fmlookup (Body obj) k" for k
    by (simp_all add: setOVAnnotation_def setter_defs)
  have "GetSpec ?got = GetSpec ?created" if "GetSpec obj \<noteq> None"
    unfolding body using that unmarshalInto_Inr(3) [OF o1, of "''spec''"] assms(2,5) by (auto simp: cols(1) full_doc_def fmlookup_of_list)
  moreover have "GetStatus ?got = GetStatus ?created" if "GetStatus obj \<noteq> None"
    unfolding body using that unmarshalInto_Inr(3) [OF o1, of "''status''"] assms(2,5) by (auto simp: cols(2) full_doc_def fmlookup_of_list)
  moreover have "fmlookup (Body ?got) k = fmlookup (Body z) k" if "k \<noteq> ''spec''" "k \<noteq> ''status''" for k
    unfolding body using that unmarshalInto_Inr(3) [OF o1, of k] by (simp add: fmlookup_of_list)
  ultimately show ?thesis using create get by blast
qed

section \<open>A concrete database\<close>

text \<open>
  A database of one bucket that keeps the last row written and answers reads with it; it refuses
  nothing. Its list is empty, at sequence number 3 of bucket 7, and compaction has come that far.
\<close>

definition rowDB :: "crb_Object option crbridge" where
  "rowDB =
     \<lparr>crb_text = (\<lambda>_. ''error''),
      crb_Get = (\<lambda>tok gvk ns n d. (d, case d of Some r \<Rightarrow> Inr r | None \<Rightarrow> Inl CrbNotFound)),
      crb_Create = (\<lambda>tok gvk ns n spec status metadata d.
        let r = \<lparr>co_GVK = gvk, co_Namespace = ns, co_Name = n, co_ResourceVersion = ''1'', co_UID = ''u-1'', co_Spec = Some spec,
                 co_Status = Some status, co_Metadata = metadata, co_BucketID = 7\<rparr> in (Some r, Inr r)),
      crb_Update = (\<lambda>tok r d. (Some r, Inr r)), crb_StatusUpdate = (\<lambda>tok r status d. (d, Inr r)),
      crb_Delete = (\<lambda>tok r d. (None, None)), crb_List = (\<lambda>gvk bs d. (d, Inr ([], compositeRV 7 [(7, 3)]))),
      crb_Watch = (\<lambda>gvk bs rv d. (d, Inr 0)), crb_Recv = (\<lambda>w d. (d, CrbBlocked)), crb_Stop = (\<lambda>w d. d),
      crb_horizon = (\<lambda>b gvk d. Some 3)\<rparr>"

lemma rowDB_simps [simp]:
  "crb_List rowDB gvk bs d = (d, Inr ([], compositeRV 7 [(7, 3)]))" "crb_horizon rowDB b gvk d = Some 3"
  "crb_Get rowDB tok gvk ns n (Some r) = (Some r, Inr r)"
  "crb_Create rowDB tok gvk ns n spec status metadata d =
     (Some \<lparr>co_GVK = gvk, co_Namespace = ns, co_Name = n, co_ResourceVersion = ''1'', co_UID = ''u-1'', co_Spec = Some spec,
        co_Status = Some status, co_Metadata = metadata, co_BucketID = 7\<rparr>,
      Inr \<lparr>co_GVK = gvk, co_Namespace = ns, co_Name = n, co_ResourceVersion = ''1'', co_UID = ''u-1'', co_Spec = Some spec,
        co_Status = Some status, co_Metadata = metadata, co_BucketID = 7\<rparr>)"
  by (simp_all add: rowDB_def Let_def)

definition shard7 :: ShardedStore where
  "shard7 = \<lparr>ps_bucketID = 7, ps_holderID = ''pod-a'', ps_epochs = \<lparr>ep_spec = 1, ep_status = 1\<rparr>, ps_clusterEpoch = 0\<rparr>"

text \<open>Witness of C37: everything up to the bucket's last number was compacted, and the watch is refused.\<close>

theorem pg_list_then_watch_witness:
  "\<exists>s' lst'. pg_List rowDB testScheme shard7 zeroWidgetList [] None = (None, s', lst', None) \<and>
     ParseInt (ListResourceVersion lst') = (3, None) \<and>
     pg_Watch rowDB testScheme s' zeroWidgetList [WatchFromRevision 3] None = (None, Inl (RevisionTooOldError 3 4))"
proof -
  have "elemGVKForList testScheme zeroWidgetList = Inr widgetGVK"
    by (simp add: elemGVKForList_def testScheme_def zeroWidgetList_def widgetGVK_def TrimListSuffix_def HasListSuffix_def)
  moreover have "populateList testScheme zeroWidgetList [] = (zeroWidgetList, None)"
    by (simp add: populateList_def testScheme_def) (simp add: zeroWidgetList_def)
  ultimately show ?thesis
    using pg_list_then_watch [of testScheme zeroWidgetList widgetGVK rowDB shard7 None None "[]" 7 "[(7, 3)]" 3 "[]" "[]" zeroWidgetList None]
    by (simp add: shard7_def is_int64_def MinInt64_def MaxInt64_def Let_def add64_exact) blast
qed

text \<open>Witness of C38: a widget goes into the row and comes back.\<close>

theorem pg_create_then_get_witness:
  "\<exists>created got d. pg_Create rowDB testScheme shard7 widget1 None = (d, created, None) \<and>
     pg_Get rowDB testScheme shard7 key1 zeroWidget d = (d, got, None) \<and> Meta got = Meta created \<and>
     GetSpec got = Some (testWidgetSpec ''blue'' 1) \<and> expectedVersion got = ''1''"
proof -
  have gvk: "pg_gvkForObject testScheme widget1 = Inr widgetGVK" by (simp add: pg_gvkForObject_def testScheme_def)
  obtain spec status metadata where c: "clientToColumns widget1 = (spec, status, metadata)" by (metis prod_cases3)
  have w: "GetSpec widget1 = Some (testWidgetSpec ''blue'' 1)" "GetStatus widget1 = Some (testWidgetStatus False [])"
    by (simp_all add: widget1_def newTestWidget_def fmlookup_of_list)
  then have cols: "spec = testWidgetSpec ''blue'' 1" "status = testWidgetStatus False []"
    using c by (auto simp: clientToColumns_def Let_def)
  have dec: "decodable testScheme (GoType widget1) (fmap_of_list [(''spec'', (Compact, spec)), (''status'', (Compact, status))])"
    by (simp add: decodable_def testScheme_def struct_ok_def fmlookup_of_list cols testWidgetSpec_def testWidgetStatus_def specZeros_def statusZeros_def)
  let ?row = "\<lparr>co_GVK = gvkToString widgetGVK, co_Namespace = Namespace (Meta widget1), co_Name = Name (Meta widget1),
      co_ResourceVersion = ''1'', co_UID = ''u-1'', co_Spec = Some spec, co_Status = Some status, co_Metadata = metadata, co_BucketID = 7\<rparr>"
  have z: "GoType zeroWidget = GoType widget1" "Meta zeroWidget = emptyMeta" by (simp_all add: zeroWidget_def)
  have "crb_Create rowDB (pg_token shard7) (gvkToString widgetGVK) (Namespace (Meta widget1)) (Name (Meta widget1)) spec status metadata None =
      (Some ?row, Inr ?row)"
    by simp
  note created = pg_create_then_get [OF gvk testWidget_full_doc c dec z this, of "Some ?row"]
  have "GetSpec created = GetSpec widget1" if "pg_Create rowDB testScheme shard7 widget1 None = (d, created, None)" for d created
    using that gvk c by (auto simp: pg_Create_def setOVAnnotation_def setter_defs)
  with created w show ?thesis by fastforce
qed

end
