(* ===== verification/Spec2Isabelle.thy ===== *)
theory Spec2Isabelle
  imports Cache_Props Client_Props Conformance_Props File_Props Lister_Props Memory_Types Postgres_Props
begin

text \<open>
  \<^bold>\<open>storectrl\<close>: a verification of the Go library under \<open>src/\<close>.

  \<^bold>\<open>The program.\<close> storectrl lets Kubernetes-style controllers run against a plain store instead of an API
  server. \<open>store.go\<close> declares the interface: \<open>Get\<close>, \<open>List\<close>, \<open>Create\<close>, \<open>Update\<close>, \<open>UpdateStatus\<close>, \<open>Delete\<close> with optimistic
  concurrency, and \<open>Watch\<close>, which streams events and can resume from a revision. Three backends implement it:
  \<open>memory/\<close>, \<open>filesystem/\<close> and \<open>postgres/\<close>. On top of a store sit the cache of \<open>cache.go\<close> (informers that list
  and watch one kind each, keep a copy with field indices, and tell event handlers through a coalescing queue),
  the client of \<open>client.go\<close> (patches, status writers, \<open>DeleteAllOf\<close>), and the adapter of \<open>listerwatcher.go\<close>
  for client-go's reflectors. \<open>storetest/\<close> is a conformance suite for backends.

  \<^bold>\<open>How the code is modelled.\<close> A Go struct is a record, a method a function that takes and returns the
  record; a method that fills in its argument returns it; an error is a value of \<open>error\<close>, a nil error is
  \<open>None\<close>, a panic is the error \<open>Panic\<close>. An \<open>int64\<close> is an \<open>int\<close> with its wrap-around written out
  (\<open>add64\<close>). Code under a mutex is one atomic step. A goroutine is a record with a program counter and a step
  function; what a \<open>select\<close> picks and when the steps of others come in between are arguments, so that a run is
  a list of steps or an \<open>inductive\<close> reachability relation. Where a function calls the store or the database
  twice without a lock, what others do in between is an argument (\<open>between\<close>). There is no fuel: every
  definition is total, loops are recursion over data or iterated steps, and where a loop may go on forever the
  theorems say how many steps suffice; the receive loops of the conformance suite are partial functions in the
  option monad, whose \<open>None\<close> is a subtest that fails or never ends. The scheme, selectors, \<open>labels.Parse\<close>, the JSON patch library, crbridge and
  the JSON behaviour of user-defined types are parameters; the conformance suite's types
  (\<open>Conformance_Types\<close>) instantiate the scheme in every witness.

  \<^bold>\<open>Theories.\<close>
  \<^item> \<open>Go_Prelude\<close>: 64-bit integers, \<open>strconv\<close>, association lists, the last \<open>n\<close> elements of a list.
  \<^item> \<open>Store_API\<close>: \<open>object.go\<close>, \<open>errors.go\<close>, \<open>watcher.go\<close>, \<open>store.go\<close>, and \<open>encoding/json\<close> on documents that are
    split at their top-level keys. \<open>Revision_Log\<close>: the locale \<open>revision_log\<close>, what a bounded event log
    promises, with the proof that a replay is complete or refused.
  \<^item> \<open>Memory_Store\<close>: every method of \<open>memory/store.go\<close> and \<open>memory/watcher.go\<close>; interprets \<open>revision_log\<close>.
    \<open>Memory_Inv\<close>: the invariant \<open>mem_inv\<close> and the effect of each operation (\<open>mem_commit\<close>, one event at the next
    revision, or \<open>mem_quiet\<close>). \<open>Memory_Run\<close>: reachable states and histories. \<open>Memory_Watch\<close>: what a watcher
    delivers. \<open>Memory_Props\<close>: C1 to C11.
  \<^item> \<open>Event_Queue\<close>, \<open>Informer\<close>, \<open>Informer_Index\<close>, \<open>Informer_Follow\<close>: \<open>eventQueue\<close> and \<open>storeInformer\<close> of \<open>cache.go\<close>;
    coalescing loses nothing (C13, C14), an indexed list is a scan (C15), handlers converge to the cache (C16)
    except after a re-add (\<open>informer_readd_loses_delete\<close>).
  \<^item> \<open>Cache\<close>, \<open>Cache_Ops\<close>, \<open>Cache_Inv\<close>: \<open>storeCache\<close>, its options, \<open>Start\<close>, \<open>getOrCreateInformer\<close>, \<open>watchInformer\<close>.
    \<open>Cache_Follow\<close>: the locale \<open>watched_store\<close>, what the watch loop needs of a store, and the proof that the
    loop converges over every such store. \<open>Cache_Memory\<close>: the memory store is one (C17, C18). \<open>Cache_Props\<close>: C19
    to C23.
  \<^item> \<open>Client\<close>, \<open>Client_Props\<close>: \<open>client.go\<close>; C24 to C26.
  \<^item> \<open>File_System\<close>: paths and a disk of files and directories on which any call may fail. \<open>File_Store\<close>: every
    method of \<open>filesystem/store.go\<close> and \<open>filesystem/watcher.go\<close>. \<open>Json_Types\<close>: the locale \<open>json_types\<close>, types whose
    JSON says all of a value. \<open>Memory_Types\<close>: type soundness of the memory store over every such type (C12).
    \<open>File_Disk\<close>, \<open>File_Refine\<close>, \<open>File_Write\<close>, \<open>File_Sim\<close>, \<open>File_Reads\<close>: the abstraction
    \<open>file_abs\<close> that reads a directory as a memory store, and the simulation of each operation.
    \<open>File_Contract\<close>: the file store is a \<open>watched_store\<close> too. \<open>File_Props\<close>: refinement of the memory store
    (C27, C28), restart (C29), and where the backends differ (C30, C31).
  \<^item> \<open>Lister_Watcher\<close>: \<open>listerwatcher.go\<close>, with the goroutines of both adapters. \<open>Lister_Follow\<close>: the adapter over
    every \<open>watched_store\<close>. \<open>Lister_Props\<close>: the reflector's picture (C32, C33) and the end of the goroutine (C34).
  \<^item> \<open>Postgres_Lease\<close>: the SQL of the leases and the goroutine of \<open>Start\<close>; tokens and fencing (C35).
    \<open>Postgres_Store\<close>: the methods of \<open>ShardedStore\<close> over crbridge. \<open>Postgres_Props\<close>: composite versions, list and
    watch, rows (C36 to C38).
  \<^item> \<open>Conformance_Types\<close>: the object types of \<open>storetest/storetest.go\<close>. \<open>Conformance_Suite\<close>, \<open>Conformance_Watch\<close>: its
    subtests as executable scripts over any \<open>Store\<close>, the concurrent ones under a schedule of their goroutines.
    \<open>Conformance_Laws\<close>: the locales \<open>watcher_heap\<close> and \<open>widget_store\<close>, what the suite needs of a backend, and the
    subtests with many widgets over every such store. \<open>Conformance_Concurrent\<close>, \<open>Conformance_Writers\<close>: the
    subtests with goroutines over every such store. \<open>Conformance_Memory\<close>, \<open>Conformance_File\<close>: the two backends are
    such stores, and pass the sequential subtests by evaluation. \<open>Conformance_Props\<close>: both pass, whatever the
    schedules, but for one subtest that a schedule can starve (C39, C40).

  \<^bold>\<open>Interfaces.\<close> \<open>revision_log\<close> is provided by the memory and the file store; \<open>watched_store\<close> by both, and used by
  the watch loop of the cache and by the adapter; \<open>widget_store\<close>, which extends \<open>watcher_heap\<close>, by both, and used by
  the conformance suite; \<open>json_types\<close> by the conformance types, and used by the file
  store and for the type soundness of the memory store. A property over a
  concrete backend is an instance of the lemma proved once in the locale.

  \<^bold>\<open>Bounds.\<close> Theorems about runs assume that the 64-bit revision does not wrap (\<open>revision s + length ops \<le> MaxInt64\<close>).
  The file store is related to the memory store for a disk without failures and for names that are plain file
  names; C31 is about other names.

  \<^bold>\<open>Not modelled.\<close> Contexts and time beyond what the code branches on; connection handling; the races that a missing
  lock allows inside one method; the text of errors of other libraries; \<open>crbridge\<close>, whose code is not in the
  repository; \<open>labelSet\<close> types, which are the identity on label maps; \<open>Scheme()\<close> and
  \<open>RESTMapper()\<close>, which return stored values.
\<close>

end
